(* ===== verification/Grindvakt_Prelude.thy ===== *)
theory Grindvakt_Prelude
  imports Main "HOL-Library.Word" "HOL-Library.List_Lexorder" "HOL-Library.Char_ord"
begin

text \<open>
  Shared vocabulary of the development: Rust results as sums, programs that thread a world
  and may fail, the predicates of the world a program keeps, and machine integers with wrap-around and
  saturating arithmetic.  The collection \<open>prog_simps\<close> holds the equations that take a program apart,
  \<open>result_simps\<close> those of results, \<open>keeps_intros\<close> the rules for what a program keeps.
\<close>

named_theorems prog_simps \<open>unfolding of programs that thread a world\<close>
named_theorems result_simps \<open>inversion of results\<close>

section \<open>Results\<close>

type_synonym ('e, 'a) result = "'e + 'a"

definition res_bind :: "('e, 'a) result \<Rightarrow> ('a \<Rightarrow> ('e, 'b) result) \<Rightarrow> ('e, 'b) result" where
  "res_bind m f = (case m of Inl e \<Rightarrow> Inl e | Inr x \<Rightarrow> f x)"

definition ok_or :: "'a option \<Rightarrow> 'e \<Rightarrow> ('e, 'a) result" where
  "ok_or v e = (case v of None \<Rightarrow> Inl e | Some x \<Rightarrow> Inr x)"

definition map_err :: "('e \<Rightarrow> 'f) \<Rightarrow> ('e, 'a) result \<Rightarrow> ('f, 'a) result" where
  "map_err g m = (case m of Inl e \<Rightarrow> Inl (g e) | Inr x \<Rightarrow> Inr x)"

definition ensure :: "bool \<Rightarrow> 'e \<Rightarrow> ('e, unit) result" where
  "ensure b e = (if b then Inr () else Inl e)"

lemma res_bind_simps [simp, prog_simps]:
  "res_bind (Inl e) f = Inl e"
  "res_bind (Inr x) f = f x"
  by (simp_all add: res_bind_def)

lemma res_bind_eq_Inr [result_simps]:
  "res_bind m f = Inr y \<longleftrightarrow> (\<exists>x. m = Inr x \<and> f x = Inr y)"
  by (cases m) simp_all

lemma ok_or_simps [simp, prog_simps]:
  "ok_or None e = Inl e"
  "ok_or (Some x) e = Inr x"
  by (simp_all add: ok_or_def)

lemma ok_or_eq_Inr [result_simps]: "ok_or v e = Inr x \<longleftrightarrow> v = Some x"
  by (cases v) simp_all

lemma map_err_simps [simp, prog_simps]:
  "map_err g (Inl e) = Inl (g e)"
  "map_err g (Inr x) = Inr x"
  by (simp_all add: map_err_def)

lemma map_err_eq_Inr [result_simps]: "map_err g m = Inr x \<longleftrightarrow> m = Inr x"
  by (cases m) simp_all

lemma ensure_simps [simp, prog_simps]:
  "b \<Longrightarrow> ensure b e = Inr ()"
  "\<not> b \<Longrightarrow> ensure b e = Inl e"
  by (simp_all add: ensure_def)

lemma ensure_eq_Inr [result_simps]: "ensure b e = Inr u \<longleftrightarrow> b"
  by (cases b) simp_all

section \<open>Programs over a world\<close>

text \<open>
  An \<^verbatim>\<open>async fn\<close> or a method that reads the clock, a store or a random source takes the
  world and returns a result with the new world; \<open>bindP\<close> is the \<^verbatim>\<open>?\<close> operator, \<open>guardP\<close>
  an \<^verbatim>\<open>if\<close> with an early error return.
\<close>

type_synonym ('w, 'e, 'a) prog = "'w \<Rightarrow> ('e, 'a) result \<times> 'w"

definition retP :: "'a \<Rightarrow> ('w, 'e, 'a) prog" where
  "retP x = (\<lambda>w. (Inr x, w))"

definition failP :: "'e \<Rightarrow> ('w, 'e, 'a) prog" where
  "failP e = (\<lambda>w. (Inl e, w))"

definition liftR :: "('e, 'a) result \<Rightarrow> ('w, 'e, 'a) prog" where
  "liftR r = (\<lambda>w. (r, w))"

definition effP :: "('w \<Rightarrow> 'a \<times> 'w) \<Rightarrow> ('w, 'e, 'a) prog" where
  "effP act = (\<lambda>w. case act w of (x, w') \<Rightarrow> (Inr x, w'))"

definition bindP :: "('w, 'e, 'a) prog \<Rightarrow> ('a \<Rightarrow> ('w, 'e, 'b) prog) \<Rightarrow> ('w, 'e, 'b) prog" where
  "bindP m f = (\<lambda>w. case m w of (Inl e, w') \<Rightarrow> (Inl e, w') | (Inr x, w') \<Rightarrow> f x w')"

definition guardP :: "bool \<Rightarrow> 'e \<Rightarrow> ('w, 'e, 'a) prog \<Rightarrow> ('w, 'e, 'a) prog" where
  "guardP b e m = (if b then m else failP e)"

definition mapErrP :: "('e \<Rightarrow> 'f) \<Rightarrow> ('w, 'e, 'a) prog \<Rightarrow> ('w, 'f, 'a) prog" where
  "mapErrP g m = (\<lambda>w. case m w of (r, w') \<Rightarrow> (map_err g r, w'))"

lemma retP_apply [simp, prog_simps]: "retP x w = (Inr x, w)"
  by (simp add: retP_def)

lemma failP_apply [simp, prog_simps]: "failP e w = (Inl e, w)"
  by (simp add: failP_def)

lemma liftR_apply [simp, prog_simps]: "liftR r w = (r, w)"
  by (simp add: liftR_def)

lemma bindP_ok: "bindP m f w = (Inr y, w') \<longleftrightarrow> (\<exists>x w1. m w = (Inr x, w1) \<and> f x w1 = (Inr y, w'))"
  by (auto simp: bindP_def split: prod.splits sum.splits)

lemma bindP_err: "bindP m f w = (Inl e, w') \<longleftrightarrow>
    m w = (Inl e, w') \<or> (\<exists>x w1. m w = (Inr x, w1) \<and> f x w1 = (Inl e, w'))"
  by (auto simp: bindP_def split: prod.splits sum.splits)

lemma bindP_step: "m w = (Inr x, w1) \<Longrightarrow> bindP m f w = f x w1"
  by (simp add: bindP_def)

lemma bindP_stop: "m w = (Inl e, w1) \<Longrightarrow> bindP m f w = (Inl e, w1)"
  by (simp add: bindP_def)

lemma bindP_liftR [simp, prog_simps]:
  "bindP (liftR (Inr x)) f w = f x w"
  "bindP (liftR (Inl e)) f w = (Inl e, w)"
  by (simp_all add: bindP_def)

lemma bindP_retP [simp, prog_simps]: "bindP (retP x) f w = f x w"
  by (simp add: bindP_def)

lemma liftR_ok: "liftR r w = (Inr x, w') \<longleftrightarrow> r = Inr x \<and> w' = w"
  by auto

lemma retP_ok: "retP x w = (Inr y, w') \<longleftrightarrow> y = x \<and> w' = w"
  by auto

lemma effP_ok: "effP act w = (Inr x, w') \<longleftrightarrow> act w = (x, w')"
  by (auto simp: effP_def split: prod.splits)

lemma effP_not_err: "effP act w \<noteq> (Inl e, w')"
  by (simp add: effP_def split: prod.splits)

lemma guardP_ok: "guardP b e m w = (Inr x, w') \<longleftrightarrow> b \<and> m w = (Inr x, w')"
  by (simp add: guardP_def)

lemma guardP_simps [simp, prog_simps]:
  "b \<Longrightarrow> guardP b e m = m"
  "\<not> b \<Longrightarrow> guardP b e m = failP e"
  by (simp_all add: guardP_def)

lemma mapErrP_ok: "mapErrP g m w = (Inr x, w') \<longleftrightarrow> m w = (Inr x, w')"
  by (auto simp: mapErrP_def map_err_eq_Inr split: prod.splits)

text \<open>The inversion rules for a program that returned a value.\<close>

lemmas prog_ok = bindP_ok liftR_ok retP_ok effP_ok guardP_ok mapErrP_ok result_simps

text \<open>
  \<open>keeps I m\<close>: whatever the program \<open>m\<close> answers, it preserves the predicate \<open>I\<close> of the world.
\<close>

definition keeps :: "('w \<Rightarrow> bool) \<Rightarrow> ('w, 'e, 'a) prog \<Rightarrow> bool" where
  "keeps I m \<longleftrightarrow> (\<forall>w. I w \<longrightarrow> I (snd (m w)))"

named_theorems keeps_intros \<open>preservation of a predicate of the world by a program\<close>

lemma keepsD: "keeps I m \<Longrightarrow> I w \<Longrightarrow> m w = (r, w') \<Longrightarrow> I w'"
  unfolding keeps_def by (metis snd_conv)

lemma keeps_pure [keeps_intros]:
  "keeps I (retP x)" "keeps I (failP e)" "keeps I (liftR r)"
  by (simp_all add: keeps_def)

lemma keeps_bindP [keeps_intros]:
  assumes "keeps I m" and "\<And>x. keeps I (f x)"
  shows "keeps I (bindP m f)"
  using assms by (auto simp: keeps_def bindP_def case_prod_beta split: sum.splits)

lemma keeps_guardP [keeps_intros]: "keeps I m \<Longrightarrow> keeps I (guardP b e m)"
  by (simp add: guardP_def keeps_pure)

lemma keeps_mapErrP [keeps_intros]: "keeps I m \<Longrightarrow> keeps I (mapErrP g m)"
  by (simp add: keeps_def mapErrP_def case_prod_beta)

lemma keeps_effP: "(\<And>w. I w \<Longrightarrow> I (snd (act w))) \<Longrightarrow> keeps I (effP act)"
  by (simp add: keeps_def effP_def case_prod_beta)

lemma keeps_if [keeps_intros]: "keeps I m \<Longrightarrow> keeps I n \<Longrightarrow> keeps I (if b then m else n)"
  by simp

lemma keeps_option [keeps_intros]:
  "keeps I m \<Longrightarrow> (\<And>x. keeps I (f x)) \<Longrightarrow> keeps I (case v of None \<Rightarrow> m | Some x \<Rightarrow> f x)"
  by (cases v) simp_all

lemma keeps_prod [keeps_intros]:
  "(\<And>x y. keeps I (f x y)) \<Longrightarrow> keeps I (case v of (x, y) \<Rightarrow> f x y)"
  by (cases v) simp_all

section \<open>Machine integers\<close>

text \<open>An \<^verbatim>\<open>i64\<close> is an integer kept in range by \<open>i64_wrap\<close>, the two's complement wrap-around of
  unchecked arithmetic; \<open>as_i64\<close> is the cast from \<^verbatim>\<open>u64\<close>.\<close>

definition i64_wrap :: "int \<Rightarrow> int" where
  "i64_wrap x = (x + 2 ^ 63) mod 2 ^ 64 - 2 ^ 63"

lemma i64_wrap_id: "- (2 ^ 63) \<le> x \<Longrightarrow> x < 2 ^ 63 \<Longrightarrow> i64_wrap x = x"
  by (simp add: i64_wrap_def)


type_synonym u8 = "8 word"
type_synonym u64 = "64 word"

definition u64_max :: u64 where
  "u64_max = 18446744073709551615"

definition saturating_add :: "u64 \<Rightarrow> u64 \<Rightarrow> u64" where
  "saturating_add a b = (if uint a + uint b < 2 ^ 64 then a + b else u64_max)"

definition saturating_sub :: "u64 \<Rightarrow> u64 \<Rightarrow> u64" where
  "saturating_sub a b = (if b \<le> a then a - b else 0)"

definition as_i64 :: "u64 \<Rightarrow> int" where
  "as_i64 n = i64_wrap (uint n)"

lemma unat_u64_max [simp]: "unat u64_max = 2 ^ 64 - 1"
  by (simp add: u64_max_def)

lemma unat_saturating_add: "unat (saturating_add a b) = min (unat a + unat b) (2 ^ 64 - 1)"
proof -
  have "uint a + uint b < 2 ^ 64 \<longleftrightarrow> int (unat a + unat b) < int (2 ^ 64)" by simp
  then have "uint a + uint b < 2 ^ 64 \<longleftrightarrow> unat a + unat b < 2 ^ 64"
    by (simp only: of_nat_less_iff)
  then show ?thesis by (auto simp: saturating_add_def unat_word_ariths min_def)
qed

lemma unat_saturating_sub: "unat (saturating_sub a b) = unat a - unat b"
  by (auto simp: saturating_sub_def unat_sub word_le_nat_alt)

lemma unat_max_one: "unat (max a (1 :: u64)) = max (unat a) 1"
  by (simp add: max_def word_le_nat_alt)

lemma unat_add_no_wrap: "unat (a :: u64) + unat b < 2 ^ 64 \<Longrightarrow> unat (a + b) = unat a + unat b"
  by (simp add: unat_word_ariths)

end
