(* ===== verification/Rust_Strings.thy ===== *)
theory Rust_Strings
  imports Grindvakt_Prelude
begin

text \<open>
  Rust's \<^verbatim>\<open>String\<close> and \<^verbatim>\<open>&str\<close> as the bytes they are: \<open>string\<close> is the list of the
  UTF-8 code units, so \<^verbatim>\<open>len\<close>, \<^verbatim>\<open>as_bytes\<close>, \<^verbatim>\<open>==\<close> and the functions that search for an
  ASCII character work on it directly.  Functions of the standard library that go through
  \<^verbatim>\<open>char\<close> (\<^verbatim>\<open>chars\<close>, \<^verbatim>\<open>split_whitespace\<close>, \<^verbatim>\<open>trim\<close>) work on its list of Unicode scalar
  values, \<open>chars\<close>.
\<close>

section \<open>UTF-8\<close>

type_synonym codepoint = int

definition utf8_enc1 :: "codepoint \<Rightarrow> int list" where
  "utf8_enc1 c =
     (if c < 128 then [c]
      else if c < 2048 then [192 + c div 64, 128 + c mod 64]
      else if c < 65536 then [224 + c div 4096, 128 + (c div 64) mod 64, 128 + c mod 64]
      else [240 + c div 262144, 128 + (c div 4096) mod 64, 128 + (c div 64) mod 64, 128 + c mod 64])"

definition utf8_enc :: "codepoint list \<Rightarrow> int list" where
  "utf8_enc cs = concat (map utf8_enc1 cs)"

definition scalar :: "codepoint \<Rightarrow> bool" where
  "scalar c \<longleftrightarrow> 0 \<le> c \<and> c < 1114112"

definition scalar_or_replacement :: "int \<Rightarrow> codepoint" where
  "scalar_or_replacement c = (if 0 \<le> c \<and> c < 1114112 then c else 65533)"

fun utf8_dec :: "int list \<Rightarrow> codepoint list" where
  "utf8_dec [] = []"
| "utf8_dec (b # r) =
     (if b < 128 then scalar_or_replacement b # utf8_dec r
      else if b < 224 then
        (case r of b1 # r' \<Rightarrow> scalar_or_replacement ((b - 192) * 64 + (b1 - 128)) # utf8_dec r'
         | [] \<Rightarrow> [65533])
      else if b < 240 then
        (case r of b1 # b2 # r' \<Rightarrow>
             scalar_or_replacement ((b - 224) * 4096 + (b1 - 128) * 64 + (b2 - 128)) # utf8_dec r'
         | _ \<Rightarrow> [65533])
      else
        (case r of b1 # b2 # b3 # r' \<Rightarrow>
             scalar_or_replacement
               ((b - 240) * 262144 + (b1 - 128) * 4096 + (b2 - 128) * 64 + (b3 - 128)) # utf8_dec r'
         | _ \<Rightarrow> [65533]))"

text \<open>\<open>chars s\<close> is \<^verbatim>\<open>s.chars()\<close>; \<open>from_chars\<close> collects characters into a \<^verbatim>\<open>String\<close>.\<close>

definition chars :: "string \<Rightarrow> codepoint list" where
  "chars s = utf8_dec (map of_char s)"

definition from_chars :: "codepoint list \<Rightarrow> string" where
  "from_chars cs = map char_of (utf8_enc cs)"

lemma scalar_or_replacement_scalar [simp]: "scalar (scalar_or_replacement c)"
  by (simp add: scalar_or_replacement_def scalar_def)

lemma scalar_or_replacement_id [simp]: "scalar c \<Longrightarrow> scalar_or_replacement c = c"
  by (simp add: scalar_or_replacement_def scalar_def)

lemma six_bits: "(c div 64) * 64 + c mod 64 = (c :: int)"
  by simp

lemma twelve_bits: "(c div 4096) * 4096 + (c div 64 mod 64) * 64 + c mod 64 = (c :: int)"
proof -
  have "c div 4096 = (c div 64) div 64" by (simp flip: zdiv_zmult2_eq)
  then have "((c div 4096) * 64 + c div 64 mod 64) * 64 + c mod 64 = c" by simp
  then show ?thesis by (simp add: algebra_simps)
qed

lemma eighteen_bits:
  "(c div 262144) * 262144 + (c div 4096 mod 64) * 4096 + (c div 64 mod 64) * 64 + c mod 64 = (c :: int)"
proof -
  have "c div 262144 = (c div 4096) div 64" by (simp flip: zdiv_zmult2_eq)
  then have "((c div 262144) * 64 + c div 4096 mod 64) * 4096 + (c div 64 mod 64) * 64 + c mod 64 = c"
    using twelve_bits [of c] by simp
  then show ?thesis by (simp add: algebra_simps)
qed

lemma utf8_dec_enc1:
  assumes "scalar c"
  shows "utf8_dec (utf8_enc1 c @ bs) = c # utf8_dec bs"
proof -
  consider "c < 128" | "128 \<le> c" "c < 2048" | "2048 \<le> c" "c < 65536" | "65536 \<le> c" by linarith
  then show ?thesis
  proof cases
    case 2
    then have "192 + c div 64 < 224" and "0 \<le> c div 64" by simp_all
    with 2 show ?thesis using assms six_bits [of c] by (simp add: utf8_enc1_def)
  next
    case 3
    then have "224 + c div 4096 < 240" and "0 \<le> c div 4096" by simp_all
    with 3 show ?thesis using assms twelve_bits [of c] by (simp add: utf8_enc1_def)
  next
    case 4
    have pos: "0 \<le> c div 262144" using 4 by simp
    have enc: "utf8_enc1 c @ bs = (240 + c div 262144) # (128 + (c div 4096) mod 64) #
        (128 + (c div 64) mod 64) # (128 + c mod 64) # bs"
      using 4 by (simp add: utf8_enc1_def)
    have "\<not> 240 + c div 262144 < 128" "\<not> 240 + c div 262144 < 224" "\<not> 240 + c div 262144 < 240"
      using pos by linarith+
    then have "utf8_dec (utf8_enc1 c @ bs) =
        scalar_or_replacement ((c div 262144) * 262144 + (c div 4096 mod 64) * 4096 +
          (c div 64 mod 64) * 64 + c mod 64) # utf8_dec bs"
      unfolding enc by (simp only: utf8_dec.simps list.case if_False add_diff_cancel_left')
    then show ?thesis
      using assms by (simp only: eighteen_bits scalar_or_replacement_id)
  qed (use assms in \<open>simp add: utf8_enc1_def\<close>)
qed

lemma utf8_dec_enc: "list_all scalar cs \<Longrightarrow> utf8_dec (utf8_enc cs) = cs"
  by (induction cs) (auto simp: utf8_enc_def utf8_dec_enc1)

lemma utf8_enc1_bytes: "scalar c \<Longrightarrow> b \<in> set (utf8_enc1 c) \<Longrightarrow> 0 \<le> b \<and> b < 256"
  by (auto simp: utf8_enc1_def scalar_def split: if_splits)

lemma of_char_utf8_enc: "list_all scalar cs \<Longrightarrow> map (of_char \<circ> char_of) (utf8_enc cs) = utf8_enc cs"
  by (induction cs) (auto simp: utf8_enc_def intro!: map_idI dest: utf8_enc1_bytes)

lemma chars_from_chars: "list_all scalar cs \<Longrightarrow> chars (from_chars cs) = cs"
  by (simp add: chars_def from_chars_def of_char_utf8_enc utf8_dec_enc)

lemma utf8_dec_scalar: "list_all scalar (utf8_dec bs)"
proof (induction bs rule: utf8_dec.induct)
  case (2 b r)
  then show ?case by (auto simp: scalar_def [of 65533] split: list.splits)
qed simp

lemma chars_scalar: "list_all scalar (chars s)"
  unfolding chars_def by (rule utf8_dec_scalar)

lemma chars_Nil [simp]: "chars [] = []"
  by (simp add: chars_def)

text \<open>ASCII strings are their own character lists.\<close>

definition ascii :: "string \<Rightarrow> bool" where
  "ascii s \<longleftrightarrow> list_all (\<lambda>c. of_char c < (128 :: int)) s"

lemma of_char_nonneg [simp]: "(0 :: int) \<le> of_char c"
proof -
  have "(of_char c :: int) = of_char c mod 256" by simp
  then show ?thesis by (metis pos_mod_sign zero_less_numeral)
qed

lemma chars_ascii: "ascii s \<Longrightarrow> chars s = map of_char s"
  by (induction s) (auto simp: ascii_def chars_def scalar_or_replacement_def)

lemma from_chars_of_char: "ascii s \<Longrightarrow> from_chars (map of_char s) = s"
  by (induction s) (auto simp: ascii_def from_chars_def utf8_enc_def utf8_enc1_def)

section \<open>UTF-8 validation of byte strings\<close>

text \<open>
  \<^verbatim>\<open>String::from_utf8_lossy\<close> replaces each maximal ill-formed prefix of a sequence by U+FFFD, the
  bytes EF BF BD; \<^verbatim>\<open>String::from_utf8\<close> accepts the bytes in which there is nothing to replace.
\<close>

definition continuation :: "char \<Rightarrow> bool" where
  "continuation c \<longleftrightarrow> 0x80 \<le> (of_char c :: nat) \<and> (of_char c :: nat) \<le> 0xBF"

definition second_byte_ok :: "nat \<Rightarrow> char \<Rightarrow> bool" where
  "second_byte_ok lead c \<longleftrightarrow>
     (if lead = 0xE0 then 0xA0 else if lead = 0xF0 then 0x90 else 0x80) \<le> (of_char c :: nat) \<and>
     (of_char c :: nat) \<le> (if lead = 0xED then 0x9F else if lead = 0xF4 then 0x8F else 0xBF)"

definition replacement :: string where
  "replacement = [CHR 0xEF, CHR 0xBF, CHR 0xBD]"

fun from_utf8_lossy :: "string \<Rightarrow> string" where
  "from_utf8_lossy [] = []"
| "from_utf8_lossy (a # r) =
     (let b = of_char a :: nat
      in if b < 0x80 then a # from_utf8_lossy r
         else if b < 0xC2 \<or> 0xF4 < b then replacement @ from_utf8_lossy r
         else case r of
           [] \<Rightarrow> replacement
         | a1 # r1 \<Rightarrow>
             if \<not> second_byte_ok b a1 then replacement @ from_utf8_lossy r
             else if b < 0xE0 then a # a1 # from_utf8_lossy r1
             else case r1 of
               [] \<Rightarrow> replacement
             | a2 # r2 \<Rightarrow>
                 if \<not> continuation a2 then replacement @ from_utf8_lossy r1
                 else if b < 0xF0 then a # a1 # a2 # from_utf8_lossy r2
                 else case r2 of
                   [] \<Rightarrow> replacement
                 | a3 # r3 \<Rightarrow>
                     if \<not> continuation a3 then replacement @ from_utf8_lossy r2
                     else a # a1 # a2 # a3 # from_utf8_lossy r3)"

definition from_utf8 :: "string \<Rightarrow> string option" where
  "from_utf8 s = (if from_utf8_lossy s = s then Some s else None)"

lemma from_utf8_lossy_ascii: "ascii s \<Longrightarrow> from_utf8_lossy s = s"
proof (induction s)
  case (Cons a s)
  then have "(of_char a :: nat) < 128" using of_nat_of_char [of a, where 'a = int] by (simp add: ascii_def)
  with Cons show ?case by (simp add: ascii_def)
qed simp

lemma from_utf8_ascii [simp]: "ascii s \<Longrightarrow> from_utf8 s = Some s"
  by (simp add: from_utf8_def from_utf8_lossy_ascii)

section \<open>Character classes of the standard library\<close>

text \<open>\<open>is_whitespace\<close> is \<^verbatim>\<open>char::is_whitespace\<close> (Unicode \<^verbatim>\<open>White_Space\<close>), \<open>is_control\<close> is
  \<^verbatim>\<open>char::is_control\<close> (general category Cc).\<close>

definition is_whitespace :: "codepoint \<Rightarrow> bool" where
  "is_whitespace c \<longleftrightarrow>
     (9 \<le> c \<and> c \<le> 13) \<or> c = 32 \<or> c = 133 \<or> c = 160 \<or> c = 5760 \<or>
     (8192 \<le> c \<and> c \<le> 8202) \<or> c = 8232 \<or> c = 8233 \<or> c = 8239 \<or> c = 8287 \<or> c = 12288"

definition is_control :: "codepoint \<Rightarrow> bool" where
  "is_control c \<longleftrightarrow> c < 32 \<or> (127 \<le> c \<and> c \<le> 159)"

definition is_ascii_digit :: "char \<Rightarrow> bool" where
  "is_ascii_digit b \<longleftrightarrow> 48 \<le> (of_char b :: int) \<and> (of_char b :: int) \<le> 57"

definition is_ascii_alphanumeric :: "char \<Rightarrow> bool" where
  "is_ascii_alphanumeric b \<longleftrightarrow>
     is_ascii_digit b \<or> (65 \<le> (of_char b :: int) \<and> (of_char b :: int) \<le> 90) \<or>
     (97 \<le> (of_char b :: int) \<and> (of_char b :: int) \<le> 122)"

definition is_ascii_whitespace :: "char \<Rightarrow> bool" where
  "is_ascii_whitespace b \<longleftrightarrow> of_char b \<in> {9 :: int, 10, 12, 13, 32}"

definition ascii_lower_byte :: "char \<Rightarrow> char" where
  "ascii_lower_byte b =
     (let n = of_char b :: int in if 65 \<le> n \<and> n \<le> 90 then char_of (n + 32) else b)"

definition to_ascii_lowercase :: "string \<Rightarrow> string" where
  "to_ascii_lowercase s = map ascii_lower_byte s"

definition eq_ignore_ascii_case :: "string \<Rightarrow> string \<Rightarrow> bool" where
  "eq_ignore_ascii_case a b \<longleftrightarrow> to_ascii_lowercase a = to_ascii_lowercase b"

lemma eq_ignore_ascii_case_refl [simp]: "eq_ignore_ascii_case a a"
  by (simp add: eq_ignore_ascii_case_def)

section \<open>Splitting and joining\<close>

fun split_by :: "('a \<Rightarrow> bool) \<Rightarrow> 'a list \<Rightarrow> 'a list list" where
  "split_by p [] = [[]]"
| "split_by p (x # xs) =
     (if p x then [] # split_by p xs
      else (case split_by p xs of [] \<Rightarrow> [[x]] | y # ys \<Rightarrow> (x # y) # ys))"

definition split_char :: "char \<Rightarrow> string \<Rightarrow> string list" where
  "split_char c s = split_by (\<lambda>x. x = c) s"

fun split_once :: "char \<Rightarrow> string \<Rightarrow> (string \<times> string) option" where
  "split_once c [] = None"
| "split_once c (x # xs) =
     (if x = c then Some ([], xs) else map_option (\<lambda>(a, b). (x # a, b)) (split_once c xs))"

definition split_whitespace :: "string \<Rightarrow> string list" where
  "split_whitespace s = map from_chars (filter (\<lambda>v. v \<noteq> []) (split_by is_whitespace (chars s)))"

definition trim_list :: "('a \<Rightarrow> bool) \<Rightarrow> 'a list \<Rightarrow> 'a list" where
  "trim_list p xs = rev (dropWhile p (rev (dropWhile p xs)))"

definition str_trim :: "string \<Rightarrow> string" where
  "str_trim s = from_chars (trim_list is_whitespace (chars s))"

definition str_trim_start :: "string \<Rightarrow> string" where
  "str_trim_start s = from_chars (dropWhile is_whitespace (chars s))"

definition trim_end_matches :: "char \<Rightarrow> string \<Rightarrow> string" where
  "trim_end_matches c s = rev (dropWhile (\<lambda>x. x = c) (rev s))"

fun strip_prefix :: "string \<Rightarrow> string \<Rightarrow> string option" where
  "strip_prefix [] s = Some s"
| "strip_prefix (p # ps) [] = None"
| "strip_prefix (p # ps) (x # xs) = (if p = x then strip_prefix ps xs else None)"

fun join :: "'a list \<Rightarrow> 'a list list \<Rightarrow> 'a list" where
  "join sep [] = []"
| "join sep [x] = x"
| "join sep (x # y # zs) = x @ sep @ join sep (y # zs)"

lemma split_by_nonempty [simp]: "split_by p xs \<noteq> []"
  by (cases xs) (auto split: list.splits)

lemma join_Cons: "ys \<noteq> [] \<Longrightarrow> join sep (x # ys) = x @ sep @ join sep ys"
  by (cases ys) simp_all

lemma join_cons_head: "join sep ((x # y) # ys) = x # join sep (y # ys)"
  by (cases ys) simp_all

lemma join_split_char: "join [c] (split_char c s) = s"
proof (induction s)
  case Nil
  then show ?case by (simp add: split_char_def)
next
  case (Cons x xs)
  then show ?case
    by (auto simp: split_char_def join_Cons join_cons_head split: list.splits)
qed

lemma split_by_parts: "v \<in> set (split_by p xs) \<Longrightarrow> x \<in> set v \<Longrightarrow> \<not> p x \<and> x \<in> set xs"
  by (induction xs arbitrary: v) (fastforce split: if_splits list.splits)+

lemma split_by_no_sep: "\<forall>x \<in> set xs. \<not> p x \<Longrightarrow> split_by p xs = [xs]"
  by (induction xs) auto

lemma split_by_append_sep: "\<forall>x \<in> set xs. \<not> p x \<Longrightarrow> p y \<Longrightarrow> split_by p (xs @ y # ys) = xs # split_by p ys"
  by (induction xs) auto

lemma split_once_None [simp]: "split_once c s = None \<longleftrightarrow> c \<notin> set s"
  by (induction s) auto

lemma split_once_Some: "split_once c s = Some (a, b) \<longleftrightarrow> s = a @ c # b \<and> c \<notin> set a"
proof (induction s arbitrary: a)
  case Nil
  then show ?case by simp
next
  case (Cons x xs)
  show ?case
  proof (cases a)
    case Nil
    then show ?thesis by (auto split: prod.splits)
  next
    case (Cons y ys)
    then show ?thesis using Cons.IH [of ys] by (auto split: prod.splits)
  qed
qed

lemma split_once_append [simp]: "c \<notin> set a \<Longrightarrow> split_once c (a @ c # b) = Some (a, b)"
  by (simp add: split_once_Some)

lemma strip_prefix_Some: "strip_prefix p s = Some r \<longleftrightarrow> s = p @ r"
  by (induction p s rule: strip_prefix.induct) auto

text \<open>Splitting at whitespace is stable: the words joined by spaces split into the same words.\<close>

lemma from_chars_append: "from_chars (a @ b) = from_chars a @ from_chars b"
  by (simp add: from_chars_def utf8_enc_def)

lemma from_chars_space: "from_chars (32 # cs) = CHR '' '' # from_chars cs"
  by (simp add: from_chars_def utf8_enc_def utf8_enc1_def char_of_eq_iff)

lemma join_words:
  "list_all (\<lambda>w. w \<noteq> [] \<and> list_all (\<lambda>c. scalar c \<and> \<not> is_whitespace c) w) ws \<Longrightarrow>
     \<exists>cs. join '' '' (map from_chars ws) = from_chars cs \<and> list_all scalar cs \<and>
       filter (\<lambda>v. v \<noteq> []) (split_by is_whitespace cs) = ws"
proof (induction ws)
  case Nil
  show ?case by (intro exI [of _ "[]"]) (simp add: from_chars_def utf8_enc_def)
next
  case (Cons w ws)
  then obtain cs where cs: "join '' '' (map from_chars ws) = from_chars cs" "list_all scalar cs"
      "filter (\<lambda>v. v \<noteq> []) (split_by is_whitespace cs) = ws"
    by auto
  have w: "w \<noteq> []" "list_all scalar w" "\<forall>c \<in> set w. \<not> is_whitespace c"
    using Cons.prems by (auto simp: list_all_iff)
  show ?case
  proof (cases ws)
    case Nil
    with w show ?thesis by (intro exI [of _ w]) (simp add: split_by_no_sep)
  next
    case (Cons v vs)
    have "is_whitespace 32" by (simp add: is_whitespace_def)
    then have "split_by is_whitespace (w @ 32 # cs) = w # split_by is_whitespace cs"
      using w(3) by (intro split_by_append_sep)
    moreover have "join '' '' (map from_chars (w # ws)) = from_chars (w @ 32 # cs)"
      using cs(1) by (simp add: Cons from_chars_append from_chars_space)
    ultimately show ?thesis using w cs by (intro exI [of _ "w @ 32 # cs"]) (simp add: scalar_def [of 32])
  qed
qed

lemma split_whitespace_join_words:
  assumes "set ws \<subseteq> set (split_whitespace s)"
  shows "split_whitespace (join '' '' ws) = ws"
proof -
  let ?words = "filter (\<lambda>v. v \<noteq> []) (split_by is_whitespace (chars s))"
  have words: "list_all (\<lambda>w. w \<noteq> [] \<and> list_all (\<lambda>c. scalar c \<and> \<not> is_whitespace c) w) ?words"
    using split_by_parts chars_scalar [of s] by (fastforce simp: list_all_iff)
  from assms have "set ws \<subseteq> from_chars ` set ?words" by (simp add: split_whitespace_def)
  moreover define vs where "vs = map (inv_into (set ?words) from_chars) ws"
  ultimately have vs: "ws = map from_chars vs" "set vs \<subseteq> set ?words"
    using inv_into_into [of _ from_chars "set ?words"] f_inv_into_f [of _ from_chars "set ?words"]
    by (auto simp: map_idI subset_iff simp del: set_filter)
  with words have "list_all (\<lambda>w. w \<noteq> [] \<and> list_all (\<lambda>c. scalar c \<and> \<not> is_whitespace c) w) vs"
    by (auto simp: list_all_iff)
  from join_words [OF this] obtain cs where "join '' '' (map from_chars vs) = from_chars cs" "list_all scalar cs"
      "filter (\<lambda>v. v \<noteq> []) (split_by is_whitespace cs) = vs"
    by blast
  then show ?thesis by (simp add: split_whitespace_def chars_from_chars vs(1))
qed

lemma split_whitespace_join [simp]: "split_whitespace (join '' '' (split_whitespace s)) = split_whitespace s"
  by (rule split_whitespace_join_words [of _ s]) simp

lemma split_whitespace_Nil [simp]: "split_whitespace [] = []"
  by (simp add: split_whitespace_def)

section \<open>Decimal numerals\<close>

text \<open>\<open>dec_str\<close> is \<^verbatim>\<open>to_string\<close> / \<^verbatim>\<open>format!("{}")\<close> of a non-negative integer; \<open>parse_digits\<close> reads a
  non-empty run of ASCII digits, \<open>parse_u64\<close> and \<open>parse_i64\<close> are \<^verbatim>\<open>str::parse\<close> at those types.\<close>

function dec_str :: "int \<Rightarrow> string" where
  "dec_str n = (if n < 10 then [char_of (48 + n)] else dec_str (n div 10) @ [char_of (48 + n mod 10)])"
  by pat_completeness auto
termination
  by (relation "measure nat") auto

declare dec_str.simps [simp del]

abbreviation usize_str :: "nat \<Rightarrow> string" where
  "usize_str n \<equiv> dec_str (int n)"

abbreviation u64_str :: "u64 \<Rightarrow> string" where
  "u64_str n \<equiv> dec_str (uint n)"

definition digits_val :: "string \<Rightarrow> int" where
  "digits_val s = foldl (\<lambda>a b. 10 * a + (of_char b - 48)) 0 s"

definition parse_digits :: "string \<Rightarrow> int option" where
  "parse_digits s = (if s \<noteq> [] \<and> list_all is_ascii_digit s then Some (digits_val s) else None)"

definition parse_u64 :: "string \<Rightarrow> u64 option" where
  "parse_u64 s =
     (case parse_digits (case s of c # r \<Rightarrow> if c = CHR ''+'' then r else s | [] \<Rightarrow> []) of
        None \<Rightarrow> None
      | Some n \<Rightarrow> if n < 2 ^ 64 then Some (of_int n) else None)"

definition parse_i64 :: "string \<Rightarrow> int option" where
  "parse_i64 s =
     (case s of
        [] \<Rightarrow> None
      | c # r \<Rightarrow>
          if c = CHR ''-'' then
            (case parse_digits r of
               Some n \<Rightarrow> if n \<le> 2 ^ 63 then Some (- n) else None | None \<Rightarrow> None)
          else
            (case parse_digits (if c = CHR ''+'' then r else s) of
               Some n \<Rightarrow> if n < 2 ^ 63 then Some n else None | None \<Rightarrow> None))"

lemma digits_val_snoc: "digits_val (s @ [b]) = 10 * digits_val s + (of_char b - 48)"
  by (simp add: digits_val_def)

lemma digits_val_dec_str [simp]: "0 \<le> n \<Longrightarrow> digits_val (dec_str n) = n"
proof (induction n rule: dec_str.induct)
  case (1 n)
  then show ?case
    by (subst dec_str.simps) (auto simp: digits_val_snoc, simp add: digits_val_def)
qed

lemma is_ascii_digit_char_of [simp]: "0 \<le> d \<Longrightarrow> d < 10 \<Longrightarrow> is_ascii_digit (char_of (48 + d :: int))"
  by (simp add: is_ascii_digit_def)

lemma dec_str_digits: "0 \<le> n \<Longrightarrow> list_all is_ascii_digit (dec_str n)"
proof (induction n rule: dec_str.induct)
  case (1 n)
  then show ?case
    by (subst dec_str.simps) simp
qed

lemma dec_str_nonempty [simp]: "dec_str n \<noteq> []"
  by (subst dec_str.simps) simp

lemma dec_str_inj: "0 \<le> m \<Longrightarrow> 0 \<le> n \<Longrightarrow> dec_str m = dec_str n \<Longrightarrow> m = n"
  by (metis digits_val_dec_str)

lemma dec_str_no_colon: "0 \<le> n \<Longrightarrow> CHR '':'' \<notin> set (dec_str n)"
  using dec_str_digits [of n] by (auto simp: list_all_iff is_ascii_digit_def)

lemma parse_digits_dec_str [simp]: "0 \<le> n \<Longrightarrow> parse_digits (dec_str n) = Some n"
  by (simp add: parse_digits_def dec_str_digits)

section \<open>Constant-time comparison\<close>

text \<open>The comparison loop of \<^verbatim>\<open>pkce.rs\<close> and \<^verbatim>\<open>provider.rs\<close> on byte slices.\<close>

unbundle bit_operations_syntax

definition byte_of :: "char \<Rightarrow> u8" where
  "byte_of c = of_nat (of_char c)"

definition ct_diff :: "u8 \<Rightarrow> (char \<times> char) list \<Rightarrow> u8" where
  "ct_diff d ps = foldl (\<lambda>d (x, y). d OR (byte_of x XOR byte_of y)) d ps"

lemma byte_of_inject: "byte_of x = byte_of y \<longleftrightarrow> x = y"
proof
  assume "byte_of x = byte_of y"
  then have "unat (byte_of x) = unat (byte_of y)" by simp
  then have "(of_char x :: nat) mod 256 = of_char y mod 256"
    by (simp add: byte_of_def unat_of_nat)
  then show "x = y" by simp
qed simp

lemma or_eq_zero: "(a OR b :: u8) = 0 \<longleftrightarrow> a = 0 \<and> b = 0"
  by (simp add: bit_eq_iff bit_simps) blast

lemma xor_eq_zero: "(a XOR b :: u8) = 0 \<longleftrightarrow> a = b"
  by (auto simp: bit_eq_iff bit_simps)

lemma ct_diff_zero: "ct_diff d ps = 0 \<longleftrightarrow> d = 0 \<and> (\<forall>(x, y) \<in> set ps. x = y)"
proof (induction ps arbitrary: d)
  case Nil
  then show ?case by (simp add: ct_diff_def)
next
  case (Cons p ps)
  obtain x y where p: "p = (x, y)" by fastforce
  have "ct_diff d (p # ps) = ct_diff (d OR (byte_of x XOR byte_of y)) ps"
    by (simp add: ct_diff_def p)
  then show ?case
    using Cons [of "d OR (byte_of x XOR byte_of y)"] by (auto simp: p or_eq_zero xor_eq_zero byte_of_inject)
qed

lemma zip_all_eq: "length a = length b \<Longrightarrow> (\<forall>(x, y) \<in> set (zip a b). x = y) \<longleftrightarrow> a = b"
  by (induction a b rule: list_induct2) auto

end
