(* ===== verification/Rust_Collections.thy ===== *)
theory Rust_Collections
  imports Rust_Strings
begin

text \<open>
  The maps of the sources.  A \<^verbatim>\<open>BTreeMap<String, V>\<close> (and a \<^verbatim>\<open>serde_json::Map\<close>) is the
  association list of its entries in key order, the order it iterates in; a \<^verbatim>\<open>HashMap\<close> is a
  HOL map.  The locale \<open>string_map\<close> is the map interface the parameter-collecting loops of
  \<^verbatim>\<open>request.rs\<close>, \<^verbatim>\<open>provider.rs\<close> and \<^verbatim>\<open>callback.rs\<close> rely on.
\<close>

type_synonym 'v btree = "(string \<times> 'v) list"

abbreviation bt_get :: "'v btree \<Rightarrow> string \<Rightarrow> 'v option" where
  "bt_get m k \<equiv> map_of m k"

fun bt_insert :: "string \<Rightarrow> 'v \<Rightarrow> 'v btree \<Rightarrow> 'v btree" where
  "bt_insert k v [] = [(k, v)]"
| "bt_insert k v ((k', v') # r) =
     (if k < k' then (k, v) # (k', v') # r
      else if k = k' then (k, v) # r
      else (k', v') # bt_insert k v r)"

definition bt_contains_key :: "string \<Rightarrow> 'v btree \<Rightarrow> bool" where
  "bt_contains_key k m \<longleftrightarrow> map_of m k \<noteq> None"

definition bt_remove :: "string \<Rightarrow> 'v btree \<Rightarrow> 'v btree" where
  "bt_remove k m = filter (\<lambda>(k', _). k' \<noteq> k) m"

definition bt_ok :: "'v btree \<Rightarrow> bool" where
  "bt_ok m \<longleftrightarrow> sorted_wrt (<) (map fst m)"

lemma map_of_bt_insert [simp]: "map_of (bt_insert k v m) = (map_of m)(k \<mapsto> v)"
  by (induction k v m rule: bt_insert.induct) (auto simp: fun_eq_iff)

lemma keys_bt_insert: "set (map fst (bt_insert k v m)) = insert k (set (map fst m))"
  by (induction k v m rule: bt_insert.induct) auto

lemma bt_ok_Nil [simp]: "bt_ok []"
  by (simp add: bt_ok_def)

lemma bt_ok_insert: "bt_ok m \<Longrightarrow> bt_ok (bt_insert k v m)"
proof (induction k v m rule: bt_insert.induct)
  case (2 k v k' v' r)
  then show ?case
    using keys_bt_insert [of k v r] by (auto simp: bt_ok_def)
qed (simp add: bt_ok_def)

lemma bt_ok_filter: "bt_ok m \<Longrightarrow> bt_ok (filter p m)"
  by (induction m) (auto simp: bt_ok_def)

lemma bt_ok_distinct: "bt_ok m \<Longrightarrow> distinct (map fst m)"
  by (induction m) (auto simp: bt_ok_def)

lemma bt_ok_unique:
  assumes "bt_ok a" and "bt_ok b" and "map_of a = map_of b"
  shows "a = b"
proof -
  have d: "distinct (map fst a)" "distinct (map fst b)" using assms(1,2) by (simp_all add: bt_ok_distinct)
  with assms(3) have s: "set a = set b" by (simp add: map_of_inject_set)
  have "sorted (map fst a)" "sorted (map fst b)"
    using assms(1,2) unfolding bt_ok_def by (auto intro: sorted_wrt_mono_rel [rotated])
  moreover have "inj_on fst (set a \<union> set b)" using d(1) s by (simp add: distinct_map)
  ultimately show ?thesis using map_sorted_distinct_set_unique [of fst a b] d s by blast
qed

lemma map_of_filter_key:
  "map_of (filter (\<lambda>(k, _). p k) m) = (\<lambda>k. if p k then map_of m k else None)"
  by (induction m) (auto simp: fun_eq_iff)

lemma bt_remove_get [simp]: "map_of (bt_remove k m) = (map_of m)(k := None)"
  by (auto simp: bt_remove_def map_of_filter_key fun_eq_iff)

section \<open>The interface the collecting loops use\<close>

text \<open>
  \<open>insert_unique\<close> is one round of \<^verbatim>\<open>if map.insert(name, value).is_some() { return Err(..) }\<close>.
\<close>

definition insert_unique ::
    "('m \<Rightarrow> string \<Rightarrow> 'v option) \<Rightarrow> (string \<Rightarrow> 'v \<Rightarrow> 'm \<Rightarrow> 'm) \<Rightarrow>
     (string \<Rightarrow> 'e) \<Rightarrow> string \<Rightarrow> 'v \<Rightarrow> 'm \<Rightarrow> ('e, 'm) result" where
  "insert_unique get put err k v m = (if get m k \<noteq> None then Inl (err k) else Inr (put k v m))"

fun collect_unique ::
    "('m \<Rightarrow> string \<Rightarrow> 'v option) \<Rightarrow> (string \<Rightarrow> 'v \<Rightarrow> 'm \<Rightarrow> 'm) \<Rightarrow>
     (string \<Rightarrow> 'e) \<Rightarrow> 'm \<Rightarrow> (string \<times> 'v) list \<Rightarrow> ('e, 'm) result" where
  "collect_unique get put err m [] = Inr m"
| "collect_unique get put err m ((k, v) # ps) =
     res_bind (insert_unique get put err k v m) (\<lambda>m'. collect_unique get put err m' ps)"

locale string_map =
  fixes get :: "'m \<Rightarrow> string \<Rightarrow> 'v option"
    and put :: "string \<Rightarrow> 'v \<Rightarrow> 'm \<Rightarrow> 'm"
    and empty :: "'m"
  assumes get_empty: "get empty k = None"
    and get_put: "get (put k v m) k' = (if k' = k then Some v else get m k')"
begin

lemma collect_ok_gen:
  "collect_unique get put err m ps = Inr m' \<Longrightarrow>
     distinct (map fst ps) \<and> (\<forall>k \<in> set (map fst ps). get m k = None) \<and>
     (\<forall>k. get m' k = (case map_of ps k of None \<Rightarrow> get m k | Some v \<Rightarrow> Some v))"
proof (induction ps arbitrary: m)
  case Nil
  then show ?case by simp
next
  case (Cons p ps)
  obtain k v where p: "p = (k, v)" by fastforce
  from Cons.prems have fresh: "get m k = None"
    and rest: "collect_unique get put err (put k v m) ps = Inr m'"
    by (auto simp: p insert_unique_def split: if_splits)
  note IH = Cons.IH [OF rest]
  then have "k \<notin> set (map fst ps)" by (force simp: get_put)
  then have "map_of ps k = None" by (simp add: map_of_eq_None_iff)
  then show ?case
    using IH fresh by (auto simp: p get_put split: option.splits if_splits)
qed

lemma collect_ok_iff:
  "(\<exists>m'. collect_unique get put err m ps = Inr m') \<longleftrightarrow>
     distinct (map fst ps) \<and> (\<forall>k \<in> set (map fst ps). get m k = None)"
proof (induction ps arbitrary: m)
  case Nil
  then show ?case by simp
next
  case (Cons p ps)
  obtain k v where p: "p = (k, v)" by fastforce
  show ?case
    using Cons.IH [of "put k v m"] by (auto simp: p insert_unique_def get_put)
qed

lemma collect_get:
  assumes "collect_unique get put err empty ps = Inr m"
  shows "distinct (map fst ps)" and "get m k = map_of ps k"
  using collect_ok_gen [OF assms] by (auto simp: get_empty split: option.splits)

lemma collect_total:
  "(\<exists>m. collect_unique get put err empty ps = Inr m) \<longleftrightarrow> distinct (map fst ps)"
  by (simp add: collect_ok_iff get_empty)

lemma collect_error:
  "collect_unique get put err m ps = Inl e \<Longrightarrow> \<exists>k \<in> set (map fst ps). e = err k"
  by (induction ps arbitrary: m) (auto simp: insert_unique_def split: if_splits, fastforce)

end

interpretation btmap: string_map "map_of :: 'v btree \<Rightarrow> string \<Rightarrow> 'v option" bt_insert "[]"
  by unfold_locales auto

end
