(* ===== verification/Platform.thy ===== *)
theory Platform
  imports Rust_Collections
begin

text \<open>
  The code the library calls and does not contain.  \<^verbatim>\<open>serde_json::Value\<close>, and of \<^verbatim>\<open>jose-rs\<close> the
  JWK, claims, header, algorithm and validation types, are data the sources take apart, so they are
  datatypes and records; the functions of the third-party crates (JWE, JWS, base64, SHA-2, HKDF,
  HMAC, URL parsing, form encoding) and the system clock are the fields of one record
  \<open>platform\<close>, an argument of every definition that uses them.  A field that reads the clock or
  draws randomness takes and returns the world, so each call may answer differently.  Errors of a
  third-party crate are their display text.
\<close>

section \<open>JSON values\<close>

text \<open>
  A number is a \<^verbatim>\<open>u64\<close>, a negative \<^verbatim>\<open>i64\<close> or a finite double; \<open>JFloat m e\<close> is the double
  $m \cdot 2^e$.  An object is the key-ordered list of its members.
\<close>

datatype json =
    JNull
  | JBool bool
  | JPosInt u64
  | JNegInt int
  | JFloat int int
  | JString string
  | JArray "json list"
  | JObject "(string \<times> json) list"

fun json_get :: "json \<Rightarrow> string \<Rightarrow> json option" where
  "json_get (JObject m) k = map_of m k"
| "json_get _ _ = None"

fun as_str :: "json \<Rightarrow> string option" where
  "as_str (JString s) = Some s"
| "as_str _ = None"

fun as_array :: "json \<Rightarrow> json list option" where
  "as_array (JArray xs) = Some xs"
| "as_array _ = None"

fun as_object :: "json \<Rightarrow> (string \<times> json) list option" where
  "as_object (JObject m) = Some m"
| "as_object _ = None"

fun as_bool :: "json \<Rightarrow> bool option" where
  "as_bool (JBool b) = Some b"
| "as_bool _ = None"

fun as_u64 :: "json \<Rightarrow> u64 option" where
  "as_u64 (JPosInt n) = Some n"
| "as_u64 _ = None"

text \<open>\<open>as_f64_u64 v\<close> is \<^verbatim>\<open>v.as_f64().map(|f| f as u64)\<close> for the numbers that are not a \<^verbatim>\<open>u64\<close>:
  the cast truncates towards zero and saturates.\<close>

definition float_as_u64 :: "int \<Rightarrow> int \<Rightarrow> u64" where
  "float_as_u64 m e =
     (if m < 0 then 0
      else let n = (if e \<ge> 0 then m * 2 ^ nat e else m div 2 ^ nat (- e))
           in if n < 2 ^ 64 then of_int n else u64_max)"

fun as_f64_u64 :: "json \<Rightarrow> u64 option" where
  "as_f64_u64 (JPosInt n) = Some n"
| "as_f64_u64 (JNegInt _) = Some 0"
| "as_f64_u64 (JFloat m e) = Some (float_as_u64 m e)"
| "as_f64_u64 _ = None"

text \<open>
  A struct is written with its members in declaration order; a parsed \<^verbatim>\<open>Value\<close> has them in key
  order.  \<open>json_norm\<close> is the \<^verbatim>\<open>Value\<close> a written text, whose members are distinct, stands for.
\<close>

fun json_norm :: "json \<Rightarrow> json" where
  "json_norm (JArray xs) = JArray (List.map json_norm xs)"
| "json_norm (JObject m) = JObject (foldr (\<lambda>(k, v). bt_insert k (json_norm v)) m [])"
| "json_norm v = v"

section \<open>JOSE data\<close>

datatype jws_algorithm =
    HS256 | HS384 | HS512
  | RS256 | RS384 | RS512
  | PS256 | PS384 | PS512
  | ES256 | ES384 | ES512
  | EdDSA | ES256K
  | OtherJws string

fun alg_str :: "jws_algorithm \<Rightarrow> string" where
  "alg_str HS256 = ''HS256''" | "alg_str HS384 = ''HS384''" | "alg_str HS512 = ''HS512''"
| "alg_str RS256 = ''RS256''" | "alg_str RS384 = ''RS384''" | "alg_str RS512 = ''RS512''"
| "alg_str PS256 = ''PS256''" | "alg_str PS384 = ''PS384''" | "alg_str PS512 = ''PS512''"
| "alg_str ES256 = ''ES256''" | "alg_str ES384 = ''ES384''" | "alg_str ES512 = ''ES512''"
| "alg_str EdDSA = ''EdDSA''" | "alg_str ES256K = ''ES256K''"
| "alg_str (OtherJws s) = s"

text \<open>A JWK: the members the sources read, the other dedicated members, and \<^verbatim>\<open>extra\<close>.\<close>

record jwk =
  jwk_kty :: string
  jwk_crv :: "string option"
  jwk_kid :: "string option"
  jwk_alg :: "string option"
  jwk_d :: "string option"
  jwk_priv :: "string option"
  jwk_members :: "json btree"
  jwk_extra :: "json btree"

type_synonym jwk_set = "jwk list"

datatype audience = Single string | Multiple "string list"

fun aud_contains :: "audience \<Rightarrow> string \<Rightarrow> bool" where
  "aud_contains (Single a) s = (a = s)"
| "aud_contains (Multiple as) s = (s \<in> set as)"

record numeric_date =
  as_secs :: u64
  subsec_nanos :: nat

definition date_of_secs :: "u64 \<Rightarrow> numeric_date" where
  "date_of_secs n = \<lparr>as_secs = n, subsec_nanos = 0\<rparr>"

record claims =
  c_iss :: "string option"
  c_sub :: "string option"
  c_aud :: "audience option"
  c_exp :: "numeric_date option"
  c_nbf :: "numeric_date option"
  c_iat :: "numeric_date option"
  c_jti :: "string option"
  c_extra :: "json btree"

definition claims_default :: claims where
  "claims_default = \<lparr>c_iss = None, c_sub = None, c_aud = None, c_exp = None, c_nbf = None,
     c_iat = None, c_jti = None, c_extra = []\<rparr>"

record jose_header =
  h_alg :: string
  h_typ :: "string option"
  h_kid :: "string option"
  h_jwk :: "json option"

record validation =
  v_issuer :: "string option"
  v_subject :: "string option"
  v_audience :: "string option"
  v_require_exp :: bool
  v_require_iat :: bool
  v_require_kid :: bool
  v_max_age :: "u64 option"
  v_leeway :: u64
  v_typ :: "string option"
  v_algs :: "jws_algorithm list option"

section \<open>Parsed URLs\<close>

record url =
  u_scheme :: string
  u_host :: "string option"
  u_query :: "string option"
  u_fragment :: "string option"
  u_username :: string
  u_password :: "string option"
  u_query_pairs :: "(string \<times> string) list"
  u_text :: string

section \<open>The functions of the environment\<close>

text \<open>
  \<open>url_append_pairs u ps\<close> is the text of \<open>u\<close> after \<^verbatim>\<open>query_pairs_mut().append_pair\<close> for each of \<open>ps\<close>.
  \<open>jwe_encrypt\<close> and \<open>jwe_decrypt\<close> are \<^verbatim>\<open>dir\<close> with \<^verbatim>\<open>A256GCM\<close>, pinned by every caller.
  \<open>de_error ty txt\<close> is the display text of \<^verbatim>\<open>serde_json\<close>'s error when \<open>txt\<close> does not deserialise as the
  type \<open>ty\<close>.
\<close>

record 'w platform =
  now_secs :: "'w \<Rightarrow> u64 \<times> 'w"
  jwe_encrypt :: "string \<Rightarrow> string \<Rightarrow> ('w, string, string) prog"
  jwe_decrypt :: "string \<Rightarrow> string \<Rightarrow> (string, string) result"
  json_to_vec :: "json \<Rightarrow> (string, string) result"
  json_from_slice :: "string \<Rightarrow> (string, json) result"
  hkdf_sha256 :: "string \<Rightarrow> string \<Rightarrow> string \<Rightarrow> string"
  sha256 :: "string \<Rightarrow> string"
  sha384 :: "string \<Rightarrow> string"
  sha512 :: "string \<Rightarrow> string"
  hmac_sha256 :: "string \<Rightarrow> string \<Rightarrow> string"
  ct_eq :: "string \<Rightarrow> string \<Rightarrow> bool"
  b64url_encode :: "string \<Rightarrow> string"
  b64url_decode :: "string \<Rightarrow> string option"
  b64std_decode :: "string \<Rightarrow> string option"
  b64std_encode :: "string \<Rightarrow> string"
  percent_decode_lossy :: "string \<Rightarrow> string"
  urlencode_bytes :: "string \<Rightarrow> string"
  form_urlencoded_parse :: "string \<Rightarrow> (string \<times> string) list"
  url_parse :: "string \<Rightarrow> (string, url) result"
  url_append_pairs :: "url \<Rightarrow> (string \<times> string) list \<Rightarrow> string"
  jwt_encode :: "string \<Rightarrow> jose_header \<Rightarrow> claims \<Rightarrow> ('w, string, string) prog"
  jwt_decode_with_jwkset :: "jwk_set \<Rightarrow> string \<Rightarrow> validation \<Rightarrow> ('w, string, claims) prog"
  jwt_decode_with_jwk :: "jwk \<Rightarrow> string \<Rightarrow> validation \<Rightarrow> ('w, string, claims) prog"
  jws_decode_header :: "string \<Rightarrow> (string, jose_header) result"
  jws_verify_with_jwk :: "jwk \<Rightarrow> string \<Rightarrow> (string, string) result"
  jwk_from_json :: "string \<Rightarrow> (string, jwk) result"
  jwk_thumbprint :: "jwk \<Rightarrow> (string, string) result"
  json_to_string :: "json \<Rightarrow> string"
  jose_b64url_decode :: "string \<Rightarrow> (string, string) result"
  claims_from_slice :: "string \<Rightarrow> (string, claims) result"
  claims_to_value :: "claims \<Rightarrow> (string, json) result"
  jwk_set_to_value :: "jwk_set \<Rightarrow> (string, json) result"
  jwk_set_from_value :: "json \<Rightarrow> (string, jwk_set) result"
  jwk_set_from_text :: "string \<Rightarrow> (string, jwk_set) result"
  jwks_from_value :: "json \<Rightarrow> (string, jwk list) result"
  alg_from_str :: "string \<Rightarrow> (string, jws_algorithm) result"
  random_bytes :: "nat \<Rightarrow> 'w \<Rightarrow> string \<times> 'w"
  validation_new :: validation
  de_error :: "string \<Rightarrow> string \<Rightarrow> string"

section \<open>A concrete platform\<close>

text \<open>
  One executable instance, over a given clock and a given list of the JSON values that occur, on
  which the hypotheses the theorems make of the environment hold together.  Its ciphertext is the
  32-byte key followed by the plaintext, its digest the first 32 bytes, and a JSON text is the
  position of the value in the list in unary.
\<close>

fun position :: "'a \<Rightarrow> 'a list \<Rightarrow> nat option" where
  "position x [] = None"
| "position x (y # ys) = (if x = y then Some 0 else map_option Suc (position x ys))"

definition pad32 :: "string \<Rightarrow> string" where
  "pad32 s = take 32 (s @ replicate 32 (CHR ''0''))"

definition sample_suffix :: string where
  "sample_suffix = replicate 11 (CHR ''A'')"

definition sample_b64_decode :: "string \<Rightarrow> string option" where
  "sample_b64_decode s =
     (if drop (length s - 11) s = sample_suffix then Some (take (length s - 11) s) else None)"

definition sample_validation :: validation where
  "sample_validation = \<lparr>v_issuer = None, v_subject = None, v_audience = None, v_require_exp = False,
     v_require_iat = False, v_require_kid = False, v_max_age = None, v_leeway = 0, v_typ = None,
     v_algs = None\<rparr>"

definition sample_platform :: "('w \<Rightarrow> u64 \<times> 'w) \<Rightarrow> json list \<Rightarrow> 'w platform" where
  "sample_platform clock vals = \<lparr>
     now_secs = clock,
     jwe_encrypt = (\<lambda>k pt. if length k = 32 then retP (k @ pt) else failP ''key length''),
     jwe_decrypt = (\<lambda>k tok. if length k = 32 \<and> take 32 tok = k then Inr (drop 32 tok) else Inl ''decryption''),
     json_to_vec = (\<lambda>v. case position v vals of None \<Rightarrow> Inl ''value'' | Some i \<Rightarrow> Inr (replicate i (CHR ''1''))),
     json_from_slice = (\<lambda>t. if length t < length vals then Inr (json_norm (vals ! length t)) else Inl ''text''),
     hkdf_sha256 = (\<lambda>salt ikm info. pad32 ikm),
     sha256 = pad32, sha384 = pad32, sha512 = pad32,
     hmac_sha256 = (\<lambda>k m. pad32 (k @ m)),
     ct_eq = (=),
     b64url_encode = (\<lambda>s. s @ sample_suffix),
     b64url_decode = sample_b64_decode,
     b64std_decode = sample_b64_decode,
     b64std_encode = (\<lambda>s. s @ sample_suffix),
     percent_decode_lossy = (\<lambda>s. s),
     urlencode_bytes = filter (\<lambda>c. c \<noteq> CHR ''#''),
     form_urlencoded_parse = (\<lambda>_. []),
     url_parse = (\<lambda>_. Inl ''relative URL without a base''),
     url_append_pairs = (\<lambda>u _. u_text u),
     jwt_encode = (\<lambda>k h c. retP k),
     jwt_decode_with_jwkset = (\<lambda>_ _ _. failP ''signature''),
     jwt_decode_with_jwk = (\<lambda>_ _ _. failP ''signature''),
     jws_decode_header = (\<lambda>_. Inl ''header''),
     jws_verify_with_jwk = (\<lambda>_ _. Inl ''signature''),
     jwk_from_json = (\<lambda>_. Inl ''jwk''),
     jwk_thumbprint = (\<lambda>_. Inl ''jwk''),
     json_to_string = (\<lambda>_. []),
     jose_b64url_decode = (\<lambda>_. Inl ''base64''),
     claims_from_slice = (\<lambda>_. Inl ''claims''),
     claims_to_value = (\<lambda>_. Inl ''claims''),
     jwk_set_to_value = (\<lambda>ks. if ks = [] then Inr (JArray []) else Inl ''jwks''),
     jwk_set_from_value = (\<lambda>_. Inl ''jwks''),
     jwk_set_from_text = (\<lambda>_. Inl ''jwks''),
     jwks_from_value = (\<lambda>_. Inl ''jwks''),
     alg_from_str = (\<lambda>s. if s = ''RS256'' then Inr RS256 else if s = ''ES256'' then Inr ES256 else Inl ''algorithm''),
     random_bytes = (\<lambda>n w. (replicate n (CHR ''r''), w)),
     validation_new = sample_validation,
     de_error = (\<lambda>ty _. ty)\<rparr>"

lemma position_Some: "v \<in> set vals \<Longrightarrow> \<exists>i < length vals. position v vals = Some i \<and> vals ! i = v"
  by (induction vals) force+

end
