(* ===== verification/Errors.thy ===== *)
theory Errors
  imports Platform
begin

text \<open>
  \<^verbatim>\<open>src/error.rs\<close>: the error type with its HTTP classification, the escaping of untrusted text,
  and the quote-aware scanners of HTTP header values.  The scanners work on bytes, which agrees
  with the sources' iteration over characters because every character they test is ASCII.
\<close>

section \<open>The error type\<close>

record upstream_http_error =
  ue_status :: "nat option"
  ue_error :: "string option"
  ue_error_description :: "string option"
  ue_body :: "string option"
  ue_message :: string
  ue_auth_failure :: bool

datatype error =
    NoBoundEndpoint string
  | UnknownModule string
  | BadRequest string
  | Authn string
  | State string
  | Config string
  | Crypto string
  | Attribute string
  | Jose string
  | Json string
  | Internal string
  | UpstreamHttp upstream_http_error

fun error_to_string :: "error \<Rightarrow> string" where
  "error_to_string (NoBoundEndpoint m) = ''no endpoint bound to path: '' @ m"
| "error_to_string (UnknownModule m) = ''unknown module: '' @ m"
| "error_to_string (BadRequest m) = ''bad request: '' @ m"
| "error_to_string (Authn m) = ''authentication error: '' @ m"
| "error_to_string (State m) = ''state error: '' @ m"
| "error_to_string (Config m) = ''configuration error: '' @ m"
| "error_to_string (Crypto m) = ''crypto error: '' @ m"
| "error_to_string (Attribute m) = ''attribute mapping error: '' @ m"
| "error_to_string (Jose m) = ''jose error: '' @ m"
| "error_to_string (Json m) = ''json error: '' @ m"
| "error_to_string (Internal m) = ''internal error: '' @ m"
| "error_to_string (UpstreamHttp e) = ue_message e"

definition ue_is_retryable :: "upstream_http_error \<Rightarrow> bool" where
  "ue_is_retryable e = (case ue_status e of Some s \<Rightarrow> s \<ge> 500 \<or> s = 429 | None \<Rightarrow> False)"

text \<open>
  The fields the hand-written \<^verbatim>\<open>Debug\<close> prints, in its order: status, code, description, body, message and whether
  the failure was an authentication step.
\<close>

definition redacted :: "string option \<Rightarrow> string option" where
  "redacted v = map_option (\<lambda>s. ''<redacted, '' @ usize_str (length (chars s)) @ '' chars>'') v"

definition upstream_debug ::
    "upstream_http_error \<Rightarrow> nat option \<times> string option \<times> string option \<times> string option \<times> string \<times> bool" where
  "upstream_debug e =
     (ue_status e, ue_error e, redacted (ue_error_description e), redacted (ue_body e), ue_message e, ue_auth_failure e)"

fun upstream_http :: "error \<Rightarrow> upstream_http_error option" where
  "upstream_http (UpstreamHttp e) = Some e"
| "upstream_http _ = None"

fun is_auth_failure :: "error \<Rightarrow> bool" where
  "is_auth_failure (Authn _) = True"
| "is_auth_failure (UpstreamHttp e) = ue_auth_failure e"
| "is_auth_failure _ = False"

fun is_retryable :: "error \<Rightarrow> bool" where
  "is_retryable (UpstreamHttp e) = ue_is_retryable e"
| "is_retryable _ = False"

fun status_hint :: "error \<Rightarrow> nat" where
  "status_hint (UpstreamHttp e) = (if ue_auth_failure e then 401 else 502)"
| "status_hint (NoBoundEndpoint _) = 404"
| "status_hint (BadRequest _) = 400"
| "status_hint (UnknownModule _) = 404"
| "status_hint (Authn _) = 401"
| "status_hint (Config _) = 500"
| "status_hint (Crypto _) = 500"
| "status_hint (State _) = 500"
| "status_hint _ = 500"

text \<open>
  Of the body and the description of an upstream error, which may echo secrets, its \<^verbatim>\<open>Debug\<close> output depends only on
  the number of characters.
\<close>

theorem upstream_debug_redacts:
  assumes "map_option (\<lambda>s. length (chars s)) d' = map_option (\<lambda>s. length (chars s)) (ue_error_description e)"
    and "map_option (\<lambda>s. length (chars s)) b' = map_option (\<lambda>s. length (chars s)) (ue_body e)"
  shows "upstream_debug (e\<lparr>ue_error_description := d', ue_body := b'\<rparr>) = upstream_debug e"
proof -
  have "redacted v = map_option (\<lambda>n. ''<redacted, '' @ usize_str n @ '' chars>'') (map_option (\<lambda>s. length (chars s)) v)" for v
    by (simp add: redacted_def option.map_comp comp_def)
  with assms show ?thesis by (simp add: upstream_debug_def)
qed

lemma status_hint_401_iff: "status_hint e = 401 \<longleftrightarrow> is_auth_failure e"
  by (cases e) auto

section \<open>Escaping untrusted text\<close>

definition is_invisible_format :: "codepoint \<Rightarrow> bool" where
  "is_invisible_format c \<longleftrightarrow>
     c = 0x061C \<or> c = 0x200E \<or> c = 0x200F \<or> c = 0x2028 \<or> c = 0x2029 \<or>
     (0x202A \<le> c \<and> c \<le> 0x202E) \<or> (0x2066 \<le> c \<and> c \<le> 0x2069) \<or>
     c = 0x00AD \<or> (0x0600 \<le> c \<and> c \<le> 0x0605) \<or> c = 0x06DD \<or> c = 0x070F \<or>
     (0x0890 \<le> c \<and> c \<le> 0x0891) \<or> c = 0x08E2 \<or> (0x180B \<le> c \<and> c \<le> 0x180F) \<or>
     (0x200B \<le> c \<and> c \<le> 0x200D) \<or> (0x2060 \<le> c \<and> c \<le> 0x2064) \<or>
     c = 0x2065 \<or> (0x206A \<le> c \<and> c \<le> 0x206F) \<or> c = 0xFEFF \<or> (0xFFF0 \<le> c \<and> c \<le> 0xFFFB) \<or>
     c = 0x110BD \<or> c = 0x110CD \<or> (0x13430 \<le> c \<and> c \<le> 0x1343F) \<or>
     (0x1BCA0 \<le> c \<and> c \<le> 0x1BCA3) \<or> (0x1D173 \<le> c \<and> c \<le> 0x1D17A) \<or>
     c = 0x034F \<or> (0x115F \<le> c \<and> c \<le> 0x1160) \<or> (0x17B4 \<le> c \<and> c \<le> 0x17B5) \<or>
     c = 0x3164 \<or> c = 0xFFA0 \<or> (0xFE00 \<le> c \<and> c \<le> 0xFE0F) \<or>
     (0xE0000 \<le> c \<and> c \<le> 0xE0FFF)"

definition hex_digit :: "int \<Rightarrow> codepoint" where
  "hex_digit d = (if d < 10 then 48 + d else 87 + d)"

function hex_digits :: "int \<Rightarrow> codepoint list" where
  "hex_digits n = (if n < 16 then [hex_digit n] else hex_digits (n div 16) @ [hex_digit (n mod 16)])"
  by pat_completeness auto
termination
  by (relation "measure nat") auto

declare hex_digits.simps [simp del]

text \<open>\<^verbatim>\<open>char::escape_unicode\<close>: backslash, \<^verbatim>\<open>u\<close>, the hexadecimal value in braces.\<close>

definition escape_unicode :: "codepoint \<Rightarrow> codepoint list" where
  "escape_unicode c = [92, 117, 123] @ hex_digits c @ [125]"

definition escape_piece :: "codepoint \<Rightarrow> codepoint list" where
  "escape_piece c = (if is_control c \<or> is_invisible_format c then escape_unicode c else [c])"

fun escape_loop :: "nat \<Rightarrow> codepoint list \<Rightarrow> nat \<Rightarrow> codepoint list \<Rightarrow> codepoint list" where
  "escape_loop max_chars out count [] = out"
| "escape_loop max_chars out count (c # cs) =
     (let piece = escape_piece c; n = length piece
      in if count + n > max_chars then out @ [0x2026]
         else escape_loop max_chars (out @ piece) (count + n) cs)"

definition escape_upstream_text :: "string \<Rightarrow> nat \<Rightarrow> string" where
  "escape_upstream_text s max_chars = from_chars (escape_loop max_chars [] 0 (chars s))"

definition display_safe :: "string \<Rightarrow> string" where
  "display_safe s = escape_upstream_text s 256"

definition printable :: "codepoint \<Rightarrow> bool" where
  "printable c \<longleftrightarrow> scalar c \<and> \<not> is_control c \<and> \<not> is_invisible_format c"

lemma hex_digits_ascii: "c \<in> set (hex_digits n) \<Longrightarrow> 0 \<le> n \<Longrightarrow> 48 \<le> c \<and> c \<le> 102"
proof (induction n rule: hex_digits.induct)
  case (1 n)
  then show ?case
    by (subst (asm) hex_digits.simps) (auto simp: hex_digit_def split: if_splits)
qed

lemma ascii_printable: "32 \<le> c \<Longrightarrow> c \<le> 126 \<Longrightarrow> printable c"
  by (auto simp: printable_def scalar_def is_control_def is_invisible_format_def)

lemma escape_piece_printable: "scalar c \<Longrightarrow> list_all printable (escape_piece c)"
  by (auto simp: escape_piece_def escape_unicode_def list_all_iff printable_def [of c] scalar_def [of c]
      dest!: hex_digits_ascii intro!: ascii_printable)

lemma printable_ellipsis: "printable 0x2026"
  by (simp add: printable_def scalar_def is_control_def is_invisible_format_def)

lemma escape_loop_printable:
  "list_all printable out \<Longrightarrow> list_all scalar cs \<Longrightarrow>
     list_all printable (escape_loop m out n cs)"
  by (induction m out n cs rule: escape_loop.induct)
    (simp_all add: Let_def escape_piece_printable printable_ellipsis)

lemma escape_loop_length:
  "length out = n \<Longrightarrow> n \<le> m \<Longrightarrow> length (escape_loop m out n cs) \<le> m + 1"
  by (induction m out n cs rule: escape_loop.induct) (simp_all add: Let_def)

lemma escape_loop_id:
  "list_all printable cs \<Longrightarrow> n + length cs \<le> m \<Longrightarrow> escape_loop m out n cs = out @ cs"
  by (induction m out n cs rule: escape_loop.induct)
    (auto simp: Let_def escape_piece_def printable_def)

lemma chars_escape: "chars (escape_upstream_text s m) = escape_loop m [] 0 (chars s)"
proof -
  have "list_all printable (escape_loop m [] 0 (chars s))"
    by (rule escape_loop_printable) (simp_all add: chars_scalar)
  then have "list_all scalar (escape_loop m [] 0 (chars s))"
    by (auto simp: list_all_iff printable_def)
  then show ?thesis by (simp add: escape_upstream_text_def chars_from_chars)
qed

text \<open>
  Whatever an upstream server sends, the escaped text has no control or invisible formatting
  character and at most one character more than the limit (the ellipsis); a text that is already
  printable and within the limit is kept as it is.
\<close>

theorem escape_upstream_text_safe:
  "list_all printable (chars (escape_upstream_text s m)) \<and>
   length (chars (escape_upstream_text s m)) \<le> m + 1 \<and>
   (list_all printable (chars s) \<and> length (chars s) \<le> m \<longrightarrow>
      chars (escape_upstream_text s m) = chars s)"
  using escape_loop_length [of "[]" 0 m "chars s"]
  by (simp add: chars_escape escape_loop_printable escape_loop_id chars_scalar)

theorem escape_upstream_text_safe_witness:
  "chars (escape_upstream_text ''denied'' 6) = chars ''denied''"
proof -
  have "list_all printable (chars ''denied'') \<and> length (chars ''denied'') \<le> 6" by code_simp
  with escape_upstream_text_safe [of "''denied''" 6] show ?thesis by blast
qed

section \<open>Quote-aware scanning of header values\<close>

fun split_unquoted :: "bool \<Rightarrow> bool \<Rightarrow> string \<Rightarrow> string \<Rightarrow> string list" where
  "split_unquoted in_quotes escaped cur [] = [cur]"
| "split_unquoted in_quotes escaped cur (c # cs) =
     (if escaped then split_unquoted in_quotes False (cur @ [c]) cs
      else if in_quotes \<and> c = CHR 0x5C then split_unquoted in_quotes True (cur @ [c]) cs
      else if c = CHR 0x22 then split_unquoted (\<not> in_quotes) False (cur @ [c]) cs
      else if c = CHR '','' \<and> \<not> in_quotes then cur # split_unquoted in_quotes False [] cs
      else split_unquoted in_quotes False (cur @ [c]) cs)"

definition split_unquoted_commas :: "string \<Rightarrow> string list" where
  "split_unquoted_commas value = split_unquoted False False [] value"

text \<open>The state the scanner is in after a text: inside quotes, after a backslash.\<close>

fun quote_state :: "bool \<Rightarrow> bool \<Rightarrow> string \<Rightarrow> bool \<times> bool" where
  "quote_state in_quotes escaped [] = (in_quotes, escaped)"
| "quote_state in_quotes escaped (c # cs) =
     (if escaped then quote_state in_quotes False cs
      else if in_quotes \<and> c = CHR 0x5C then quote_state in_quotes True cs
      else if c = CHR 0x22 then quote_state (\<not> in_quotes) False cs
      else quote_state in_quotes False cs)"

definition quotes_balanced :: "string \<Rightarrow> bool" where
  "quotes_balanced value = (\<not> fst (quote_state False False value))"

lemma split_unquoted_nonempty [simp]: "split_unquoted q e cur cs \<noteq> []"
  by (induction q e cur cs rule: split_unquoted.induct) auto

lemma join_split_unquoted: "join '','' (split_unquoted q e cur cs) = cur @ cs"
  by (induction q e cur cs rule: split_unquoted.induct) (auto simp: join_Cons)

lemma quote_state_append:
  "quote_state q e (xs @ ys) = (case quote_state q e xs of (q', e') \<Rightarrow> quote_state q' e' ys)"
  by (induction q e xs rule: quote_state.induct) auto

lemma quote_state_escaped: "quote_state q e xs = (q', True) \<Longrightarrow> (e \<longrightarrow> q) \<Longrightarrow> q'"
  by (induction q e xs rule: quote_state.induct) (auto split: if_splits)

text \<open>Every element but the last ends outside quotes, and the last one ends as the text does.\<close>

lemma split_unquoted_states:
  "quote_state False False cur = (q, e) \<Longrightarrow>
     (\<forall>x \<in> set (butlast (split_unquoted q e cur cs)). quote_state False False x = (False, False)) \<and>
     quote_state False False (last (split_unquoted q e cur cs)) = quote_state q e cs"
proof (induction q e cur cs rule: split_unquoted.induct)
  case (2 q e cur c cs)
  show ?case
  proof (cases "\<not> e \<and> c = CHR '','' \<and> \<not> q")
    case True
    then show ?thesis using 2 by (auto simp: quote_state_append)
  next
    case False
    then show ?thesis using 2 by (auto simp: quote_state_append)
  qed
qed simp

lemma split_unquoted_one:
  "split_unquoted q e cur xs = [cur @ xs] \<Longrightarrow> quote_state q e xs = (q', e') \<Longrightarrow>
     split_unquoted q e cur (xs @ ys) = split_unquoted q' e' (cur @ xs) ys"
  by (induction q e cur xs rule: split_unquoted.induct) (auto split: if_splits)

lemma split_unquoted_pieces:
  "split_unquoted False False [] cur = [cur] \<Longrightarrow> quote_state False False cur = (q, e) \<Longrightarrow>
     list_all (\<lambda>x. split_unquoted False False [] x = [x]) (split_unquoted q e cur cs)"
proof (induction q e cur cs rule: split_unquoted.induct)
  case (2 q e cur c cs)
  have "split_unquoted False False [] (cur @ [c]) = split_unquoted q e cur [c]"
    using split_unquoted_one [of False False "[]" cur q e "[c]"] 2(6,7) by simp
  then show ?case using 2 by (auto simp: quote_state_append)
qed simp

text \<open>
  Splitting a header at its commas loses nothing, leaves no element with a comma outside quotes,
  and never cuts inside a quoted string: every element but the last has balanced quotes, and the last
  one has them exactly when the header has.
\<close>

theorem split_unquoted_commas_exact:
  "join '','' (split_unquoted_commas v) = v \<and>
   list_all (\<lambda>x. split_unquoted_commas x = [x]) (split_unquoted_commas v) \<and>
   list_all quotes_balanced (butlast (split_unquoted_commas v)) \<and>
   quotes_balanced (last (split_unquoted_commas v)) = quotes_balanced v"
  using split_unquoted_states [of "[]" False False v] split_unquoted_pieces [of "[]" False False v]
  by (simp add: split_unquoted_commas_def join_split_unquoted quotes_balanced_def list_all_iff)

section \<open>The \<^verbatim>\<open>WWW-Authenticate\<close> parser\<close>

definition is_param_end :: "char \<Rightarrow> bool" where
  "is_param_end c \<longleftrightarrow> c = CHR ''='' \<or> is_ascii_whitespace c"

text \<open>The quoted-string loop: \<open>Some (val, rest)\<close> when the closing quote was found.\<close>

fun quoted_loop :: "string \<Rightarrow> string \<Rightarrow> (string \<times> string) option" where
  "quoted_loop val [] = None"
| "quoted_loop val (c # cs) =
     (if c = CHR 0x5C then (case cs of [] \<Rightarrow> None | d # ds \<Rightarrow> quoted_loop (val @ [d]) ds)
      else if c = CHR 0x22 then Some (val, cs)
      else quoted_loop (val @ [c]) cs)"

definition first_ascii_token :: "string \<Rightarrow> string option" where
  "first_ascii_token s =
     (case filter (\<lambda>t. t \<noteq> []) (split_by is_ascii_whitespace s) of [] \<Rightarrow> None | t # _ \<Rightarrow> Some t)"

definition parse_auth_param :: "string \<Rightarrow> (string \<times> string) option" where
  "parse_auth_param raw =
     (let item = str_trim raw;
          name = takeWhile (\<lambda>c. \<not> is_param_end c) item;
          after = dropWhile (\<lambda>c. \<not> is_param_end c) item
      in if after = [] then None
         else case strip_prefix ''='' (str_trim_start after) of
           None \<Rightarrow> None
         | Some rest0 \<Rightarrow>
             (let rest = str_trim_start rest0
              in if name = [] then None
                 else case strip_prefix [CHR 0x22] rest of
                   Some quoted \<Rightarrow>
                     (case quoted_loop [] quoted of
                        None \<Rightarrow> None
                      | Some (val, tail) \<Rightarrow> if str_trim tail \<noteq> [] then None else Some (name, val))
                 | None \<Rightarrow> map_option (\<lambda>token. (name, token)) (first_ascii_token rest)))"

record challenge =
  ch_scheme :: string
  ch_params :: "(string \<times> string) list"
  ch_malformed :: bool

definition add_param :: "(string \<times> string) option \<Rightarrow> challenge \<Rightarrow> challenge" where
  "add_param p ch =
     (case p of Some param \<Rightarrow> ch\<lparr>ch_params := ch_params ch @ [param]\<rparr>
      | None \<Rightarrow> ch\<lparr>ch_malformed := True\<rparr>)"

definition challenge_step :: "challenge list \<Rightarrow> string \<Rightarrow> challenge list" where
  "challenge_step challenges raw =
     (let item = str_trim raw
      in if item = [] then challenges
         else
           let head = takeWhile (\<lambda>c. \<not> is_param_end c) item;
               after_first = str_trim_start (dropWhile (\<lambda>c. \<not> is_param_end c) item)
           in if strip_prefix ''='' after_first \<noteq> None then
                (if challenges = [] then challenges
                 else butlast challenges @ [add_param (parse_auth_param item) (last challenges)])
              else
                let ch = \<lparr>ch_scheme = head, ch_params = [], ch_malformed = False\<rparr>
                in challenges @
                     [if CHR ''='' \<in> set after_first then add_param (parse_auth_param after_first) ch
                      else ch])"

definition find_param :: "challenge \<Rightarrow> string \<Rightarrow> string option" where
  "find_param ch key = map_option snd (find (\<lambda>(n, _). eq_ignore_ascii_case n key) (ch_params ch))"

definition oauth_challenge :: "challenge \<Rightarrow> bool" where
  "oauth_challenge ch \<longleftrightarrow> \<not> ch_malformed ch \<and>
     (eq_ignore_ascii_case (ch_scheme ch) ''bearer'' \<or> eq_ignore_ascii_case (ch_scheme ch) ''dpop'')"

fun first_oauth_error :: "challenge list \<Rightarrow> (string option \<times> string option) option" where
  "first_oauth_error [] = None"
| "first_oauth_error (ch # chs) =
     (if \<not> oauth_challenge ch then first_oauth_error chs
      else let err = find_param ch ''error''; description = find_param ch ''error_description''
           in if err \<noteq> None \<or> description \<noteq> None then Some (err, description)
              else first_oauth_error chs)"

definition parse_www_authenticate_bearer :: "string \<Rightarrow> (string option \<times> string option) option" where
  "parse_www_authenticate_bearer value =
     first_oauth_error (foldl challenge_step [] (split_unquoted_commas value))"

end
