(* ===== verification/Http.thy ===== *)
theory Http
  imports Errors
begin

text \<open>
  \<^verbatim>\<open>src/http.rs\<close>: framework-agnostic requests and responses, and the cache lifetime of a fetched
  response, with the \<^verbatim>\<open>Cache-Control\<close> reader \<^verbatim>\<open>advertised_ttl\<close> of \<^verbatim>\<open>src/rp.rs\<close> it shares.
\<close>

section \<open>Requests\<close>

record http_request_data =
  hr_path :: string
  hr_method :: string
  hr_uri :: string
  hr_query_pairs :: "(string \<times> string) list"
  hr_query :: "string btree"
  hr_form_pairs :: "(string \<times> string) list"
  hr_form :: "string btree"
  hr_body :: string
  hr_headers :: "string btree"
  hr_cookies :: "string btree"

definition http_param :: "http_request_data \<Rightarrow> string \<Rightarrow> string option" where
  "http_param r key =
     (case bt_get (hr_query r) key of Some v \<Rightarrow> Some v | None \<Rightarrow> bt_get (hr_form r) key)"

definition http_authorization :: "http_request_data \<Rightarrow> string option" where
  "http_authorization r = bt_get (hr_headers r) ''authorization''"

definition bearer_token :: "http_request_data \<Rightarrow> string option" where
  "bearer_token r =
     (case http_authorization r of
        None \<Rightarrow> None
      | Some auth \<Rightarrow>
          (case split_once (CHR '' '') auth of
             None \<Rightarrow> None
           | Some (scheme, token) \<Rightarrow>
               if eq_ignore_ascii_case scheme ''Bearer'' then Some (str_trim token) else None))"

section \<open>Responses\<close>

record response =
  r_status :: nat
  r_headers :: "(string \<times> string) list"
  r_body :: string

definition response_new :: "nat \<Rightarrow> response" where
  "response_new status = \<lparr>r_status = status, r_headers = [], r_body = []\<rparr>"

definition with_header :: "string \<Rightarrow> string \<Rightarrow> response \<Rightarrow> response" where
  "with_header name value r = r\<lparr>r_headers := r_headers r @ [(name, value)]\<rparr>"

definition with_body :: "string \<Rightarrow> response \<Rightarrow> response" where
  "with_body body r = r\<lparr>r_body := body\<rparr>"

definition redirect :: "string \<Rightarrow> response" where
  "redirect location = with_header ''location'' location (response_new 302)"

definition html :: "string \<Rightarrow> response" where
  "html body = with_body body (with_header ''content-type'' ''text/html; charset=utf-8'' (response_new 200))"

definition response_json :: "'w platform \<Rightarrow> json \<Rightarrow> (error, response) result" where
  "response_json P value =
     res_bind (map_err Json (json_to_vec P value)) (\<lambda>body.
       Inr (with_body body (with_header ''content-type'' ''application/json'' (response_new 200))))"

definition json_status :: "'w platform \<Rightarrow> nat \<Rightarrow> json \<Rightarrow> (error, response) result" where
  "json_status P status value = res_bind (response_json P value) (\<lambda>r. Inr (r\<lparr>r_status := status\<rparr>))"

definition response_text :: "nat \<Rightarrow> string \<Rightarrow> response" where
  "response_text status body =
     with_body body (with_header ''content-type'' ''text/plain; charset=utf-8'' (response_new status))"

section \<open>Fetched responses\<close>

record http_fetch_response =
  hf_status :: nat
  hf_body :: string
  hf_content_type :: "string option"
  hf_headers :: "(string \<times> string) list"

definition fetch_response_new :: "nat \<Rightarrow> string \<Rightarrow> http_fetch_response" where
  "fetch_response_new status body =
     \<lparr>hf_status = status, hf_body = body, hf_content_type = None, hf_headers = []\<rparr>"

definition fetch_with_header :: "string \<Rightarrow> string \<Rightarrow> http_fetch_response \<Rightarrow> http_fetch_response" where
  "fetch_with_header name0 value r =
     (let name = to_ascii_lowercase name0;
          r' = (if name = ''content-type'' \<and> hf_content_type r = None
                then r\<lparr>hf_content_type := Some value\<rparr> else r)
      in r'\<lparr>hf_headers := hf_headers r' @ [(name, value)]\<rparr>)"

definition fetch_header :: "http_fetch_response \<Rightarrow> string \<Rightarrow> string option" where
  "fetch_header r name =
     map_option snd (find (\<lambda>(n, _). eq_ignore_ascii_case n name) (hf_headers r))"

definition header_values :: "http_fetch_response \<Rightarrow> string \<Rightarrow> string list" where
  "header_values r name =
     map snd (filter (\<lambda>(n, _). eq_ignore_ascii_case n name) (hf_headers r))"

definition cache_control :: "http_fetch_response \<Rightarrow> string option" where
  "cache_control r =
     (let values = header_values r ''cache-control''
      in if values = [] then None else Some (join '', '' values))"

definition digits_u64 :: "string \<Rightarrow> u64 option" where
  "digits_u64 v =
     (if v \<noteq> [] \<and> list_all is_ascii_digit v
      then Some (case parse_u64 v of Some n \<Rightarrow> n | None \<Rightarrow> u64_max) else None)"

definition fetch_age :: "http_fetch_response \<Rightarrow> u64 option" where
  "fetch_age r = Option.bind (fetch_header r ''age'') (\<lambda>v. digits_u64 (str_trim v))"

text \<open>\<open>trim_quotes\<close> is \<^verbatim>\<open>trim_matches('"')\<close>.\<close>

definition trim_quotes :: "string \<Rightarrow> string" where
  "trim_quotes v = trim_list (\<lambda>c. c = CHR 0x22) v"

definition directive_parts :: "string \<Rightarrow> string \<times> string option" where
  "directive_parts d =
     (let directive = str_trim d
      in case split_once (CHR ''='') directive of
           Some (n, v) \<Rightarrow> (str_trim n, Some (str_trim v)) | None \<Rightarrow> (directive, None))"

definition forbids_cache :: "string \<Rightarrow> bool" where
  "forbids_cache d \<longleftrightarrow>
     eq_ignore_ascii_case (fst (directive_parts d)) ''no-store'' \<or>
     eq_ignore_ascii_case (fst (directive_parts d)) ''no-cache''"

fun ttl_directives :: "u64 option \<Rightarrow> string list \<Rightarrow> u64 option" where
  "ttl_directives max_age [] = max_age"
| "ttl_directives max_age (d # ds) =
     (if forbids_cache d then Some 0
      else ttl_directives
             (if max_age = None \<and> eq_ignore_ascii_case (fst (directive_parts d)) ''max-age''
              then Option.bind (snd (directive_parts d)) (\<lambda>v. digits_u64 (trim_quotes v))
              else max_age) ds)"

definition advertised_ttl :: "string option \<Rightarrow> u64 option" where
  "advertised_ttl cache_ctl =
     (case cache_ctl of
        None \<Rightarrow> None
      | Some header \<Rightarrow>
          if \<not> quotes_balanced header then Some 0
          else ttl_directives None (split_unquoted_commas header))"

definition advertised_ttl_secs :: "http_fetch_response \<Rightarrow> u64 option" where
  "advertised_ttl_secs r = advertised_ttl (cache_control r)"

definition cache_ttl_secs_max :: "http_fetch_response \<Rightarrow> u64 \<Rightarrow> u64 option" where
  "cache_ttl_secs_max r ceiling =
     map_option (\<lambda>ttl. min (saturating_sub ttl (case fetch_age r of Some a \<Rightarrow> a | None \<Rightarrow> 0)) ceiling)
       (advertised_ttl_secs r)"

lemma r_headers_redirect [simp]: "r_headers (redirect l) = [(''location'', l)]"
  by (simp add: redirect_def with_header_def response_new_def)

lemma r_status_redirect [simp]: "r_status (redirect l) = 302"
  by (simp add: redirect_def with_header_def response_new_def)

lemma ttl_directives_forbid: "\<exists>d \<in> set ds. forbids_cache d \<Longrightarrow> ttl_directives m ds = Some 0"
  by (induction ds arbitrary: m) auto

text \<open>
  What the cached documents of the library share: a lifetime computed from a \<^verbatim>\<open>Cache-Control\<close> value and an
  \<^verbatim>\<open>Age\<close>, under the caller's ceiling.  Fetched responses, discovery documents and key sets implement it.
\<close>

locale cache_policy =
  fixes ttl_max :: "'r \<Rightarrow> u64 \<Rightarrow> u64 option" and header :: "'r \<Rightarrow> string option" and age :: "'r \<Rightarrow> u64 option"
  assumes ttl_max_eq:
    "ttl_max r ceiling =
       map_option (\<lambda>ttl. min (saturating_sub ttl (case age r of Some a \<Rightarrow> a | None \<Rightarrow> 0)) ceiling) (advertised_ttl (header r))"
begin

lemma within_ceiling: "ttl_max r ceiling = Some ttl \<Longrightarrow> ttl \<le> ceiling"
  by (auto simp: ttl_max_eq)

lemma advertised_less_age:
  "ttl_max r ceiling = Some ttl \<Longrightarrow> age r = Some a \<Longrightarrow> \<exists>t. advertised_ttl (header r) = Some t \<and> unat ttl \<le> unat t - unat a"
  by (auto simp: ttl_max_eq min_def word_le_nat_alt unat_saturating_sub)

lemma forbidden_is_zero:
  assumes "ttl_max r ceiling = Some ttl" and "header r = Some h"
    and "\<not> quotes_balanced h \<or> (\<exists>d \<in> set (split_unquoted_commas h). forbids_cache d)"
  shows "ttl = 0"
proof -
  have "advertised_ttl (header r) = Some 0" using assms(2,3) by (auto simp: advertised_ttl_def ttl_directives_forbid)
  then show ?thesis using assms(1) by (auto simp: ttl_max_eq saturating_sub_def)
qed

end

interpretation fetched: cache_policy cache_ttl_secs_max cache_control fetch_age
  by unfold_locales (simp add: cache_ttl_secs_max_def advertised_ttl_secs_def)

text \<open>
  The cache lifetime used for a fetched response never exceeds the caller's ceiling, and it is
  zero as soon as any directive of \<^verbatim>\<open>Cache-Control\<close> (outside quotes, in any position) is
  \<^verbatim>\<open>no-store\<close> or \<^verbatim>\<open>no-cache\<close>, or a quoted string is left open.
\<close>

theorem cache_ttl_bounds:
  assumes "cache_ttl_secs_max r ceiling = Some ttl"
  shows "ttl \<le> ceiling \<and>
    (\<forall>h. cache_control r = Some h \<and>
       (\<not> quotes_balanced h \<or> (\<exists>d \<in> set (split_unquoted_commas h). forbids_cache d)) \<longrightarrow> ttl = 0)"
  using fetched.within_ceiling [OF assms] fetched.forbidden_is_zero [OF assms] by blast

definition sample_fetch :: http_fetch_response where
  "sample_fetch = fetch_with_header ''Age'' ''10''
     (fetch_with_header ''Cache-Control'' ''public, max-age=60'' (fetch_response_new 200 []))"

theorem cache_ttl_bounds_witness:
  "cache_ttl_secs_max sample_fetch 30 = Some 30 \<and> (30 :: u64) \<le> 30"
proof -
  have h: "cache_ttl_secs_max sample_fetch 30 = Some 30" by code_simp
  show ?thesis using h cache_ttl_bounds [OF h] by simp
qed

end
