(* ===== verification/OAuth_Error.thy ===== *)
theory OAuth_Error
  imports Http
begin

text \<open>
  \<^verbatim>\<open>src/oauth_error.rs\<close>: the OAuth error codes with their wire names, the error value, and its
  rendering as a JSON response or an authorization error redirect.
\<close>

datatype oauth_error_code =
    InvalidRequest
  | InvalidClient
  | InvalidGrant
  | UnauthorizedClient
  | UnsupportedGrantType
  | UnsupportedResponseType
  | InvalidScope
  | AccessDenied
  | LoginRequired
  | ServerError
  | TemporarilyUnavailable
  | InvalidDpopProof

fun code_str :: "oauth_error_code \<Rightarrow> string" where
  "code_str InvalidRequest = ''invalid_request''"
| "code_str InvalidClient = ''invalid_client''"
| "code_str InvalidGrant = ''invalid_grant''"
| "code_str UnauthorizedClient = ''unauthorized_client''"
| "code_str UnsupportedGrantType = ''unsupported_grant_type''"
| "code_str UnsupportedResponseType = ''unsupported_response_type''"
| "code_str InvalidScope = ''invalid_scope''"
| "code_str AccessDenied = ''access_denied''"
| "code_str LoginRequired = ''login_required''"
| "code_str ServerError = ''server_error''"
| "code_str TemporarilyUnavailable = ''temporarily_unavailable''"
| "code_str InvalidDpopProof = ''invalid_dpop_proof''"

fun http_status :: "oauth_error_code \<Rightarrow> nat" where
  "http_status InvalidClient = 401"
| "http_status ServerError = 500"
| "http_status TemporarilyUnavailable = 503"
| "http_status _ = 400"

text \<open>\<^verbatim>\<open>OAuthErrorCode::from_str\<close>; the error value carries nothing.\<close>

definition code_from_str :: "string \<Rightarrow> (unit, oauth_error_code) result" where
  "code_from_str s =
     (if s = ''invalid_request'' then Inr InvalidRequest
      else if s = ''invalid_client'' then Inr InvalidClient
      else if s = ''invalid_grant'' then Inr InvalidGrant
      else if s = ''unauthorized_client'' then Inr UnauthorizedClient
      else if s = ''unsupported_grant_type'' then Inr UnsupportedGrantType
      else if s = ''unsupported_response_type'' then Inr UnsupportedResponseType
      else if s = ''invalid_scope'' then Inr InvalidScope
      else if s = ''access_denied'' then Inr AccessDenied
      else if s = ''login_required'' then Inr LoginRequired
      else if s = ''server_error'' then Inr ServerError
      else if s = ''temporarily_unavailable'' then Inr TemporarilyUnavailable
      else if s = ''invalid_dpop_proof'' then Inr InvalidDpopProof
      else Inl ())"

section \<open>Wire text\<close>

definition max_wire_description_chars :: nat where
  "max_wire_description_chars = 256"

text \<open>The character set of \<^verbatim>\<open>error_description\<close> (RFC 6749).\<close>

definition wire_char :: "codepoint \<Rightarrow> bool" where
  "wire_char c \<longleftrightarrow> c = 0x20 \<or> c = 0x21 \<or> (0x23 \<le> c \<and> c \<le> 0x5B) \<or> (0x5D \<le> c \<and> c \<le> 0x7E)"

definition wire_description :: "string \<Rightarrow> string" where
  "wire_description description =
     from_chars (map (\<lambda>c. if wire_char c then c else 63)
       (take max_wire_description_chars (chars description)))"

definition max_state_chars :: nat where
  "max_state_chars = 1024"

definition is_valid_state :: "string \<Rightarrow> bool" where
  "is_valid_state state \<longleftrightarrow>
     length (chars state) \<le> max_state_chars \<and> list_all (\<lambda>c. 0x20 \<le> c \<and> c \<le> 0x7E) (chars state)"

section \<open>The error value\<close>

record oauth_error =
  oe_code :: oauth_error_code
  oe_description :: "string option"
  oe_state :: "string option"

definition oauth_error_new :: "oauth_error_code \<Rightarrow> string \<Rightarrow> oauth_error" where
  "oauth_error_new code description =
     \<lparr>oe_code = code, oe_description = Some description, oe_state = None\<rparr>"

definition oauth_error_bare :: "oauth_error_code \<Rightarrow> oauth_error" where
  "oauth_error_bare code = \<lparr>oe_code = code, oe_description = None, oe_state = None\<rparr>"

definition with_state :: "string option \<Rightarrow> oauth_error \<Rightarrow> oauth_error" where
  "with_state state e = e\<lparr>oe_state := state\<rparr>"

definition wire_state :: "oauth_error \<Rightarrow> string option" where
  "wire_state e = (case oe_state e of Some s \<Rightarrow> if is_valid_state s then Some s else None | None \<Rightarrow> None)"

definition invalid_request :: "string \<Rightarrow> oauth_error" where
  "invalid_request msg = oauth_error_new InvalidRequest msg"

definition invalid_client :: "string \<Rightarrow> oauth_error" where
  "invalid_client msg = oauth_error_new InvalidClient msg"

definition invalid_grant :: "string \<Rightarrow> oauth_error" where
  "invalid_grant msg = oauth_error_new InvalidGrant msg"

definition invalid_dpop_proof :: "string \<Rightarrow> oauth_error" where
  "invalid_dpop_proof msg = oauth_error_new InvalidDpopProof msg"

text \<open>The serialized \<^verbatim>\<open>ErrorBody\<close>: members in declaration order, absent ones skipped.\<close>

definition error_body :: "oauth_error \<Rightarrow> json" where
  "error_body e =
     JObject ([(''error'', JString (code_str (oe_code e)))]
       @ (case oe_description e of Some d \<Rightarrow> [(''error_description'', JString (wire_description d))] | None \<Rightarrow> [])
       @ (case wire_state e of Some s \<Rightarrow> [(''state'', JString s)] | None \<Rightarrow> []))"

definition to_response :: "'w platform \<Rightarrow> oauth_error \<Rightarrow> response" where
  "to_response P e =
     (let json = (case json_to_vec P (error_body e) of Inr b \<Rightarrow> b | Inl _ \<Rightarrow> []);
          r = with_body json (with_header ''cache-control'' ''no-store''
                (with_header ''content-type'' ''application/json''
                  (response_new (http_status (oe_code e)))))
      in if oe_code e = InvalidClient then with_header ''www-authenticate'' ''Basic'' r else r)"

section \<open>Redirects\<close>

definition encode_params :: "'w platform \<Rightarrow> (string \<times> string) list \<Rightarrow> string" where
  "encode_params P params =
     join ''&'' (map (\<lambda>(name, value). urlencode_bytes P name @ ''='' @ urlencode_bytes P value) params)"

definition error_params :: "oauth_error \<Rightarrow> (string \<times> string) list \<Rightarrow> (string \<times> string) list" where
  "error_params e extra =
     [(''error'', code_str (oe_code e))]
     @ (case oe_description e of Some d \<Rightarrow> [(''error_description'', wire_description d)] | None \<Rightarrow> [])
     @ (case wire_state e of Some s \<Rightarrow> [(''state'', s)] | None \<Rightarrow> [])
     @ extra"

definition to_redirect_with_params ::
    "'w platform \<Rightarrow> oauth_error \<Rightarrow> string \<Rightarrow> bool \<Rightarrow> (string \<times> string) list \<Rightarrow> response" where
  "to_redirect_with_params P e redirect_uri fragment extra =
     (let encoded = encode_params P (error_params e extra)
      in if fragment then
           let separator = (if CHR ''#'' \<in> set redirect_uri then ''&'' else ''#'')
           in redirect (redirect_uri @ separator @ encoded)
         else
           let (base, fragment_suffix) =
                 (case split_once (CHR ''#'') redirect_uri of
                    Some (base, value) \<Rightarrow> (base, ''#'' @ value) | None \<Rightarrow> (redirect_uri, []));
               separator = (if CHR ''?'' \<in> set base then ''&'' else ''?'')
           in redirect (base @ separator @ encoded @ fragment_suffix))"

definition to_redirect :: "'w platform \<Rightarrow> oauth_error \<Rightarrow> string \<Rightarrow> bool \<Rightarrow> response" where
  "to_redirect P e redirect_uri fragment = to_redirect_with_params P e redirect_uri fragment []"

definition oauth_error_display :: "oauth_error \<Rightarrow> string" where
  "oauth_error_display e =
     code_str (oe_code e) @ (case oe_description e of Some d \<Rightarrow> '': '' @ display_safe d | None \<Rightarrow> [])"

lemmas oauth_error_defs =
  oauth_error_new_def invalid_request_def invalid_client_def invalid_grant_def
  invalid_dpop_proof_def with_state_def

section \<open>Properties\<close>

lemma code_from_code_str: "code_from_str (code_str c) = Inr c"
  by (cases c) (simp_all add: code_from_str_def)

lemma code_from_str_sound: "code_from_str s = Inr c \<Longrightarrow> s = code_str c"
  by (auto simp: code_from_str_def split: if_splits)

text \<open>
  \<^verbatim>\<open>OAuthErrorCode::from_str\<close> and \<^verbatim>\<open>as_str\<close> are inverse: a string parses to a code exactly
  when it is that code's wire name.
\<close>

theorem code_str_roundtrip: "code_from_str s = Inr c \<longleftrightarrow> s = code_str c"
  using code_from_code_str code_from_str_sound by blast

lemma wire_char_ascii: "wire_char c \<Longrightarrow> scalar c \<and> printable c"
  by (auto simp: wire_char_def scalar_def intro: ascii_printable)

lemma chars_wire_description:
  "chars (wire_description d) =
     map (\<lambda>c. if wire_char c then c else 63) (take max_wire_description_chars (chars d))"
proof -
  have "list_all scalar (map (\<lambda>c. if wire_char c then c else 63) (take max_wire_description_chars (chars d)))"
    by (auto simp: list_all_iff wire_char_ascii scalar_def [of 63])
  then show ?thesis by (simp add: wire_description_def chars_from_chars)
qed

text \<open>
  Whatever text an error carries, the \<^verbatim>\<open>error_description\<close> put on the wire has at most 256
  characters, all of the set RFC 6749 allows (so no quote, backslash, control or non-ASCII
  character reaches a header or a body), and normalising it again changes nothing.
\<close>

theorem wire_description_safe:
  "length (chars (wire_description d)) \<le> 256 \<and> list_all wire_char (chars (wire_description d)) \<and>
   wire_description (wire_description d) = wire_description d"
proof -
  have set: "list_all wire_char (chars (wire_description d))"
    by (auto simp: chars_wire_description list_all_iff wire_char_def)
  have len: "length (chars (wire_description d)) \<le> 256"
    by (simp add: chars_wire_description max_wire_description_chars_def)
  have "wire_description (wire_description d) = from_chars (chars (wire_description d))"
    using set len by (simp add: wire_description_def [of "wire_description d"]
      max_wire_description_chars_def list_all_iff map_idI)
  also have "\<dots> = wire_description d"
    by (simp add: chars_wire_description) (simp add: wire_description_def)
  finally show ?thesis using set len by blast
qed

text \<open>The parts of a URI before and from its first \<open>#\<close>.\<close>

definition uri_base :: "string \<Rightarrow> string" where
  "uri_base u = takeWhile (\<lambda>c. c \<noteq> CHR ''#'') u"

definition uri_fragment :: "string \<Rightarrow> string" where
  "uri_fragment u = dropWhile (\<lambda>c. c \<noteq> CHR ''#'') u"

lemma split_once_parts:
  "split_once (CHR ''#'') u = (if uri_fragment u = [] then None else Some (uri_base u, tl (uri_fragment u)))"
proof (induction u)
  case (Cons c u)
  then show ?case by (auto simp: uri_base_def uri_fragment_def)
qed (simp add: uri_fragment_def)

lemma uri_fragment_hash: "uri_fragment u \<noteq> [] \<Longrightarrow> CHR ''#'' # tl (uri_fragment u) = uri_fragment u"
  by (induction u) (auto simp: uri_fragment_def split: if_splits)

lemma uri_fragment_Nil: "uri_fragment u = [] \<Longrightarrow> uri_base u = u"
  by (simp add: uri_fragment_def uri_base_def)

lemma set_join: "set (join sep xs) \<subseteq> set sep \<union> (\<Union>x \<in> set xs. set x)"
  by (induction sep xs rule: join.induct) auto

lemma hash_notin_encode_params:
  assumes "\<And>s. CHR ''#'' \<notin> set (urlencode_bytes P s)"
  shows "CHR ''#'' \<notin> set (encode_params P ps)"
  using set_join [of "''&''" "map (\<lambda>(n, v). urlencode_bytes P n @ ''='' @ urlencode_bytes P v) ps"] assms
  by (fastforce simp: encode_params_def)

lemma uri_base_append: "CHR ''#'' \<notin> set b \<Longrightarrow> f = [] \<or> hd f = CHR ''#'' \<Longrightarrow> uri_base (b @ f) = b"
  by (induction b) (cases f; auto simp: uri_base_def)+

lemma uri_fragment_append: "CHR ''#'' \<notin> set b \<Longrightarrow> f = [] \<or> hd f = CHR ''#'' \<Longrightarrow> uri_fragment (b @ f) = f"
  by (induction b) (cases f; auto simp: uri_fragment_def)+

lemma hash_notin_uri_base: "CHR ''#'' \<notin> set (uri_base u)"
  by (induction u) (auto simp: uri_base_def)

text \<open>
  An error redirect in query mode answers 302 with a single \<^verbatim>\<open>Location\<close> whose fragment is the
  redirect URI's own: the encoded parameters are inserted before it, after one separator that
  extends an existing query or opens a new one.  The hypothesis is the documented output alphabet of
  \<^verbatim>\<open>form_urlencoded::byte_serialize\<close>.
\<close>

theorem error_redirect_keeps_fragment:
  assumes "\<forall>s. CHR ''#'' \<notin> set (urlencode_bytes P s)"
  shows "\<exists>loc. to_redirect_with_params P e uri False extra = redirect loc \<and>
    uri_fragment loc = uri_fragment uri \<and>
    uri_base loc = uri_base uri @ (if CHR ''?'' \<in> set (uri_base uri) then ''&'' else ''?'')
      @ encode_params P (error_params e extra)"
proof -
  let ?sep = "if CHR ''?'' \<in> set (uri_base uri) then ''&'' else ''?''"
  let ?q = "uri_base uri @ ?sep @ encode_params P (error_params e extra)"
  have "to_redirect_with_params P e uri False extra = redirect (?q @ uri_fragment uri)"
    by (auto simp: to_redirect_with_params_def split_once_parts Let_def uri_fragment_hash
        dest: uri_fragment_Nil)
  moreover have "CHR ''#'' \<notin> set ?q"
    using hash_notin_encode_params [of P "error_params e extra"] assms hash_notin_uri_base [of uri] by auto
  moreover have "uri_fragment uri = [] \<or> hd (uri_fragment uri) = CHR ''#''"
    using uri_fragment_hash [of uri] by (metis list.sel(1))
  ultimately show ?thesis
    using uri_base_append uri_fragment_append by blast
qed

theorem error_redirect_keeps_fragment_witness:
  "\<exists>loc. to_redirect_with_params (sample_platform (\<lambda>w. (0, w)) []) (invalid_request ''x'')
       ''https://rp/cb?a=1#top'' False [] = redirect loc \<and>
     uri_fragment loc = uri_fragment ''https://rp/cb?a=1#top''"
proof -
  have "\<forall>s. CHR ''#'' \<notin> set (urlencode_bytes (sample_platform (\<lambda>w. (0, w)) []) s)"
    by (simp add: sample_platform_def)
  from error_redirect_keeps_fragment [OF this, of "invalid_request ''x''" "''https://rp/cb?a=1#top''" "[]"]
  show ?thesis by blast
qed

end
