(* ===== verification/Jwt.thy ===== *)
theory Jwt
  imports OAuth_Error
begin

text \<open>
  \<^verbatim>\<open>src/jwt.rs\<close> and the read-only part of \<^verbatim>\<open>src/keys.rs\<close>: signing keys, the signing and verification
  wrappers over \<^verbatim>\<open>jose-rs\<close>, the OIDC token hash and the algorithm classification.
\<close>

section \<open>Signing keys\<close>

text \<open>The signer is opaque: \<open>sk_signer\<close> names the key it signs with.\<close>

record signing_key =
  sk_signer :: string
  sk_public_jwk :: jwk
  sk_alg :: jws_algorithm
  sk_kid :: "string option"

definition to_public_jwks :: "signing_key \<Rightarrow> jwk_set" where
  "to_public_jwks k = [sk_public_jwk k]"

text \<open>
  The \<^verbatim>\<open>Debug\<close> form of an optional string, as the error for an unknown curve prints it.  Beyond ASCII the standard
  library also escapes what its Unicode tables call unprintable; only the control characters are escaped here.
\<close>

definition debug_char :: "codepoint \<Rightarrow> codepoint list" where
  "debug_char c =
     (if c = 0 then [92, 48] else if c = 9 then [92, 116] else if c = 10 then [92, 110] else if c = 13 then [92, 114]
      else if c = 34 \<or> c = 92 then [92, c] else if is_control c then escape_unicode c else [c])"

definition debug_opt_str :: "string option \<Rightarrow> string" where
  "debug_opt_str v =
     (case v of
        None \<Rightarrow> ''None''
      | Some s \<Rightarrow> ''Some('' @ from_chars ([34] @ concat (List.map debug_char (chars s)) @ [34]) @ '')'')"

definition default_alg :: "jwk \<Rightarrow> (error, jws_algorithm) result" where
  "default_alg j =
     (if jwk_kty j = ''RSA'' then Inr RS256
      else if jwk_kty j = ''EC'' then
        (if jwk_crv j = Some ''P-256'' then Inr ES256
         else if jwk_crv j = Some ''P-384'' then Inr ES384
         else if jwk_crv j = Some ''P-521'' then Inr ES512
         else Inl (Crypto (''unsupported EC curve: '' @ debug_opt_str (jwk_crv j))))
      else if jwk_kty j = ''OKP'' then Inr EdDSA
      else if jwk_kty j = ''oct'' then Inr HS256
      else Inl (Crypto (''unsupported kty: '' @ jwk_kty j)))"

section \<open>Signing and verifying\<close>

definition jwt_sign :: "'w platform \<Rightarrow> signing_key \<Rightarrow> claims \<Rightarrow> string option \<Rightarrow> ('w, error, string) prog" where
  "jwt_sign P key claims typ =
     mapErrP Jose (jwt_encode P (sk_signer key)
       \<lparr>h_alg = alg_str (sk_alg key), h_typ = typ, h_kid = sk_kid key, h_jwk = None\<rparr> claims)"

definition verify_with_jwks ::
    "'w platform \<Rightarrow> jwk_set \<Rightarrow> string \<Rightarrow> validation \<Rightarrow> ('w, error, claims) prog" where
  "verify_with_jwks P jwks token v = mapErrP Jose (jwt_decode_with_jwkset P jwks token v)"

definition verify_with_jwk ::
    "'w platform \<Rightarrow> jwk \<Rightarrow> string \<Rightarrow> validation \<Rightarrow> ('w, error, claims) prog" where
  "verify_with_jwk P key token v = mapErrP Jose (jwt_decode_with_jwk P key token v)"

definition peek_header :: "'w platform \<Rightarrow> string \<Rightarrow> (error, jose_header) result" where
  "peek_header P token = map_err Jose (jws_decode_header P token)"

text \<open>\<^verbatim>\<open>splitn(3, '.')\<close>.\<close>

definition splitn3 :: "string \<Rightarrow> string list" where
  "splitn3 s =
     (case split_once (CHR ''.'') s of
        None \<Rightarrow> [s]
      | Some (a, r) \<Rightarrow>
          (case split_once (CHR ''.'') r of None \<Rightarrow> [a, r] | Some (b, c) \<Rightarrow> [a, b, c]))"

definition peek_claims_unverified :: "'w platform \<Rightarrow> string \<Rightarrow> (error, claims) result" where
  "peek_claims_unverified P token =
     (case splitn3 token of
        [_, part, _] \<Rightarrow>
          res_bind (map_err Jose (jose_b64url_decode P part)) (\<lambda>payload.
          map_err Json (claims_from_slice P payload))
      | _ \<Rightarrow> Inl (BadRequest ''malformed JWT''))"

section \<open>Token hashes\<close>

definition oidc_digest :: "'w platform \<Rightarrow> jws_algorithm \<Rightarrow> (string \<Rightarrow> string) option" where
  "oidc_digest P alg =
     (if alg \<in> {RS256, PS256, ES256, ES256K, HS256} then Some (sha256 P)
      else if alg \<in> {RS384, PS384, ES384, HS384} then Some (sha384 P)
      else if alg \<in> {RS512, PS512, ES512, HS512} then Some (sha512 P)
      else None)"

definition oidc_token_hash :: "'w platform \<Rightarrow> jws_algorithm \<Rightarrow> string \<Rightarrow> (error, string) result" where
  "oidc_token_hash P alg val =
     (case oidc_digest P alg of
        None \<Rightarrow> Inl (Crypto (alg_str alg @ '' does not define an OIDC token-hash function''))
      | Some h \<Rightarrow> let digest = h val
                  in Inr (b64url_encode P (take (length digest div 2) digest)))"

definition supports_oidc_token_hash :: "jws_algorithm \<Rightarrow> bool" where
  "supports_oidc_token_hash alg \<longleftrightarrow>
     alg \<in> {RS256, PS256, ES256, ES256K, HS256, RS384, PS384, ES384, HS384, RS512, PS512, ES512, HS512}"

definition jws_algorithms :: "jws_algorithm list" where
  "jws_algorithms =
     [HS256, HS384, HS512, RS256, RS384, RS512, PS256, PS384, PS512, ES256, ES384, ES512, EdDSA, ES256K]"

definition is_symmetric_jws_algorithm :: "jws_algorithm \<Rightarrow> bool" where
  "is_symmetric_jws_algorithm alg \<longleftrightarrow> alg \<in> {HS256, HS384, HS512}"

lemma oidc_token_hash_Inr: "supports_oidc_token_hash alg \<Longrightarrow> \<exists>h. oidc_token_hash P alg v = Inr h"
  by (auto simp: supports_oidc_token_hash_def oidc_token_hash_def oidc_digest_def Let_def)

text \<open>
  \<^verbatim>\<open>supports_oidc_token_hash\<close> answers exactly for which algorithms \<^verbatim>\<open>oidc_token_hash\<close> succeeds,
  so a caller that checked it never gets the error; every algorithm of \<^verbatim>\<open>JWS_ALGORITHMS\<close> except
  \<^verbatim>\<open>EdDSA\<close> is supported.
\<close>

theorem token_hash_support_agrees:
  "((\<exists>h. oidc_token_hash P alg v = Inr h) \<longleftrightarrow> supports_oidc_token_hash alg) \<and>
   filter (\<lambda>a. \<not> supports_oidc_token_hash a) jws_algorithms = [EdDSA]"
proof
  show "(\<exists>h. oidc_token_hash P alg v = Inr h) \<longleftrightarrow> supports_oidc_token_hash alg"
    by (cases alg)
      (simp_all add: supports_oidc_token_hash_def oidc_token_hash_def oidc_digest_def Let_def)
  show "filter (\<lambda>a. \<not> supports_oidc_token_hash a) jws_algorithms = [EdDSA]"
    by (simp add: jws_algorithms_def supports_oidc_token_hash_def)
qed

end
