(* ===== verification/Metadata.thy ===== *)
theory Metadata
  imports Jwt
begin

text \<open>
  \<^verbatim>\<open>src/metadata.rs\<close>: the provider metadata record, its code-flow defaults and its serialised form.
\<close>

record provider_metadata =
  md_issuer :: string
  md_authorization_endpoint :: string
  md_token_endpoint :: string
  md_userinfo_endpoint :: "string option"
  md_jwks_uri :: string
  md_registration_endpoint :: "string option"
  md_scopes_supported :: "string list"
  md_response_types_supported :: "string list"
  md_response_modes_supported :: "string list"
  md_grant_types_supported :: "string list"
  md_subject_types_supported :: "string list"
  md_id_token_signing_alg_values_supported :: "string list"
  md_token_endpoint_auth_methods_supported :: "string list"
  md_claims_supported :: "string list"
  md_code_challenge_methods_supported :: "string list"
  md_claims_parameter_supported :: bool
  md_request_parameter_supported :: bool
  md_dpop_signing_alg_values_supported :: "string list"
  md_extra :: "json btree"

definition metadata_new :: "string \<Rightarrow> string \<Rightarrow> provider_metadata" where
  "metadata_new issuer base0 =
     (let base = trim_end_matches (CHR ''/'') base0
      in \<lparr>md_issuer = issuer,
          md_authorization_endpoint = base @ ''/authorization'',
          md_token_endpoint = base @ ''/token'',
          md_userinfo_endpoint = Some (base @ ''/userinfo''),
          md_jwks_uri = base @ ''/jwks'',
          md_registration_endpoint = None,
          md_scopes_supported = [''openid'', ''profile'', ''email''],
          md_response_types_supported = [''code''],
          md_response_modes_supported = [''query'', ''fragment''],
          md_grant_types_supported = [''authorization_code'', ''client_credentials'', ''refresh_token''],
          md_subject_types_supported = [''public''],
          md_id_token_signing_alg_values_supported = [''RS256'', ''ES256''],
          md_token_endpoint_auth_methods_supported =
            [''client_secret_basic'', ''client_secret_post'', ''private_key_jwt''],
          md_claims_supported = [''sub'', ''iss'', ''aud'', ''exp''],
          md_code_challenge_methods_supported = [''S256''],
          md_claims_parameter_supported = False,
          md_request_parameter_supported = False,
          md_dpop_signing_alg_values_supported = [],
          md_extra = []\<rparr>)"

definition json_strings :: "string list \<Rightarrow> json" where
  "json_strings xs = JArray (List.map JString xs)"

definition opt_json :: "string \<Rightarrow> string option \<Rightarrow> (string \<times> json) list" where
  "opt_json k v = (case v of None \<Rightarrow> [] | Some s \<Rightarrow> [(k, JString s)])"

text \<open>The members of the discovery document in declaration order, the flattened \<^verbatim>\<open>extra\<close> last.  A
  \<^verbatim>\<open>Value\<close> keeps the last of two members with one name; \<^verbatim>\<open>userinfo_endpoint\<close> and
  \<^verbatim>\<open>registration_endpoint\<close> are skipped when absent, \<^verbatim>\<open>dpop_signing_alg_values_supported\<close> when empty.\<close>

definition metadata_members :: "provider_metadata \<Rightarrow> (string \<times> json) list" where
  "metadata_members m =
     [(''issuer'', JString (md_issuer m)),
      (''authorization_endpoint'', JString (md_authorization_endpoint m)),
      (''token_endpoint'', JString (md_token_endpoint m))]
     @ opt_json ''userinfo_endpoint'' (md_userinfo_endpoint m)
     @ [(''jwks_uri'', JString (md_jwks_uri m))]
     @ opt_json ''registration_endpoint'' (md_registration_endpoint m)
     @ [(''scopes_supported'', json_strings (md_scopes_supported m)),
        (''response_types_supported'', json_strings (md_response_types_supported m)),
        (''response_modes_supported'', json_strings (md_response_modes_supported m)),
        (''grant_types_supported'', json_strings (md_grant_types_supported m)),
        (''subject_types_supported'', json_strings (md_subject_types_supported m)),
        (''id_token_signing_alg_values_supported'', json_strings (md_id_token_signing_alg_values_supported m)),
        (''token_endpoint_auth_methods_supported'', json_strings (md_token_endpoint_auth_methods_supported m)),
        (''claims_supported'', json_strings (md_claims_supported m)),
        (''code_challenge_methods_supported'', json_strings (md_code_challenge_methods_supported m)),
        (''claims_parameter_supported'', JBool (md_claims_parameter_supported m)),
        (''request_parameter_supported'', JBool (md_request_parameter_supported m))]
     @ (if md_dpop_signing_alg_values_supported m = [] then []
        else [(''dpop_signing_alg_values_supported'', json_strings (md_dpop_signing_alg_values_supported m))])
     @ md_extra m"

definition metadata_to_json :: "provider_metadata \<Rightarrow> json" where
  "metadata_to_json m = JObject (foldl (\<lambda>b (k, v). bt_insert k v b) [] (metadata_members m))"

lemma map_of_insert_all:
  "map_of (foldl (\<lambda>b (k, v). bt_insert k v b) b ms) k =
     (case map_of (rev ms) k of None \<Rightarrow> map_of b k | Some v \<Rightarrow> Some v)"
  by (induction ms arbitrary: b) (auto simp: map_of_bt_insert map_add_def split: option.splits)

lemma metadata_to_json_get: "json_get (metadata_to_json m) k = map_of (rev (metadata_members m)) k"
  by (simp add: metadata_to_json_def map_of_insert_all split: option.splits)

end
