(* ===== verification/Tokens.thy ===== *)
theory Tokens
  imports Jwt
begin

text \<open>
  \<^verbatim>\<open>src/tokens.rs\<close>: authorization codes, access tokens and refresh tokens as encrypted JSON
  payloads.  The serde attributes of each payload are its \<open>_to_json\<close> and \<open>_from_json\<close>; a failed
  deserialisation is \<open>None\<close>.  (Serde also reads a struct from a JSON array of its fields; no token
  is written in that form and the model does not read it.)
\<close>

section \<open>Keys\<close>

definition HKDF_SALT :: string where
  "HKDF_SALT = ''tunnelbana-oidc-token-v1''"

definition HKDF_INFO :: string where
  "HKDF_INFO = ''tunnelbana oidc token seal: dir+A256GCM''"

definition derive_key :: "'w platform \<Rightarrow> string \<Rightarrow> string" where
  "derive_key P secret = hkdf_sha256 P HKDF_SALT secret HKDF_INFO"

text \<open>The key list is never empty: both constructors below keep a first key.\<close>

record token_codec =
  tc_keys :: "string list"

definition codec_new :: "'w platform \<Rightarrow> string \<Rightarrow> token_codec" where
  "codec_new P secret = \<lparr>tc_keys = [derive_key P secret]\<rparr>"

definition with_previous_secrets :: "'w platform \<Rightarrow> string list \<Rightarrow> token_codec \<Rightarrow> token_codec" where
  "with_previous_secrets P secrets c =
     c\<lparr>tc_keys := tc_keys c @ List.map (derive_key P) (filter (\<lambda>s. s \<noteq> []) secrets)\<rparr>"

section \<open>Payloads\<close>

record auth_code_payload =
  ac_client_id :: string
  ac_redirect_uri :: string
  ac_scope :: string
  ac_sub :: string
  ac_nonce :: "string option"
  ac_code_challenge :: "string option"
  ac_code_challenge_method :: "string option"
  ac_claims :: "json btree"
  ac_auth_time :: u64
  ac_exp :: u64
  ac_acr :: "string option"

record access_token_payload =
  at_client_id :: string
  at_sub :: string
  at_scope :: string
  at_claims :: "json btree"
  at_exp :: u64
  at_cnf_jkt :: "string option"

record refresh_token_payload =
  rt_client_id :: string
  rt_sub :: string
  rt_scope :: string
  rt_nonce :: "string option"
  rt_claims :: "json btree"
  rt_auth_time :: u64
  rt_exp :: u64
  rt_acr :: "string option"
  rt_cnf_jkt :: "string option"

text \<open>\<^verbatim>\<open>skip_serializing_if = "Option::is_none"\<close>, and the readers of the field kinds.\<close>

definition opt_member :: "string \<Rightarrow> string option \<Rightarrow> (string \<times> json) list" where
  "opt_member k v = (case v of None \<Rightarrow> [] | Some s \<Rightarrow> [(k, JString s)])"

definition str_field :: "json \<Rightarrow> string \<Rightarrow> string option" where
  "str_field j k = Option.bind (json_get j k) as_str"

definition u64_field :: "json \<Rightarrow> string \<Rightarrow> u64 option" where
  "u64_field j k = Option.bind (json_get j k) as_u64"

definition opt_str_field :: "json \<Rightarrow> string \<Rightarrow> string option option" where
  "opt_str_field j k =
     (case json_get j k of
        None \<Rightarrow> Some None
      | Some JNull \<Rightarrow> Some None
      | Some (JString s) \<Rightarrow> Some (Some s)
      | Some _ \<Rightarrow> None)"

definition map_field :: "json \<Rightarrow> string \<Rightarrow> json btree option" where
  "map_field j k = (case json_get j k of None \<Rightarrow> Some [] | Some v \<Rightarrow> as_object v)"

definition code_to_json :: "auth_code_payload \<Rightarrow> json" where
  "code_to_json p = JObject (
     [(''client_id'', JString (ac_client_id p)), (''redirect_uri'', JString (ac_redirect_uri p)),
      (''scope'', JString (ac_scope p)), (''sub'', JString (ac_sub p))]
     @ opt_member ''nonce'' (ac_nonce p)
     @ opt_member ''code_challenge'' (ac_code_challenge p)
     @ opt_member ''code_challenge_method'' (ac_code_challenge_method p)
     @ [(''claims'', JObject (ac_claims p)), (''auth_time'', JPosInt (ac_auth_time p)),
        (''exp'', JPosInt (ac_exp p))]
     @ opt_member ''acr'' (ac_acr p))"

definition code_from_json :: "json \<Rightarrow> auth_code_payload option" where
  "code_from_json j =
     Option.bind (str_field j ''client_id'') (\<lambda>client_id.
     Option.bind (str_field j ''redirect_uri'') (\<lambda>redirect_uri.
     Option.bind (str_field j ''scope'') (\<lambda>scope.
     Option.bind (str_field j ''sub'') (\<lambda>sub.
     Option.bind (opt_str_field j ''nonce'') (\<lambda>nonce.
     Option.bind (opt_str_field j ''code_challenge'') (\<lambda>code_challenge.
     Option.bind (opt_str_field j ''code_challenge_method'') (\<lambda>code_challenge_method.
     Option.bind (map_field j ''claims'') (\<lambda>claims.
     Option.bind (u64_field j ''auth_time'') (\<lambda>auth_time.
     Option.bind (u64_field j ''exp'') (\<lambda>exp.
     Option.bind (opt_str_field j ''acr'') (\<lambda>acr.
     Some \<lparr>ac_client_id = client_id, ac_redirect_uri = redirect_uri, ac_scope = scope, ac_sub = sub,
       ac_nonce = nonce, ac_code_challenge = code_challenge,
       ac_code_challenge_method = code_challenge_method, ac_claims = claims,
       ac_auth_time = auth_time, ac_exp = exp, ac_acr = acr\<rparr>)))))))))))"

definition access_to_json :: "access_token_payload \<Rightarrow> json" where
  "access_to_json p = JObject (
     [(''client_id'', JString (at_client_id p)), (''sub'', JString (at_sub p)),
      (''scope'', JString (at_scope p)), (''claims'', JObject (at_claims p)),
      (''exp'', JPosInt (at_exp p))]
     @ opt_member ''cnf_jkt'' (at_cnf_jkt p))"

definition access_from_json :: "json \<Rightarrow> access_token_payload option" where
  "access_from_json j =
     Option.bind (str_field j ''client_id'') (\<lambda>client_id.
     Option.bind (str_field j ''sub'') (\<lambda>sub.
     Option.bind (str_field j ''scope'') (\<lambda>scope.
     Option.bind (map_field j ''claims'') (\<lambda>claims.
     Option.bind (u64_field j ''exp'') (\<lambda>exp.
     Option.bind (opt_str_field j ''cnf_jkt'') (\<lambda>cnf_jkt.
     Some \<lparr>at_client_id = client_id, at_sub = sub, at_scope = scope, at_claims = claims, at_exp = exp,
       at_cnf_jkt = cnf_jkt\<rparr>))))))"

definition refresh_to_json :: "refresh_token_payload \<Rightarrow> json" where
  "refresh_to_json p = JObject (
     [(''client_id'', JString (rt_client_id p)), (''sub'', JString (rt_sub p)),
      (''scope'', JString (rt_scope p))]
     @ opt_member ''nonce'' (rt_nonce p)
     @ [(''claims'', JObject (rt_claims p)), (''auth_time'', JPosInt (rt_auth_time p)),
        (''exp'', JPosInt (rt_exp p))]
     @ opt_member ''acr'' (rt_acr p)
     @ opt_member ''cnf_jkt'' (rt_cnf_jkt p))"

definition refresh_from_json :: "json \<Rightarrow> refresh_token_payload option" where
  "refresh_from_json j =
     Option.bind (str_field j ''client_id'') (\<lambda>client_id.
     Option.bind (str_field j ''sub'') (\<lambda>sub.
     Option.bind (str_field j ''scope'') (\<lambda>scope.
     Option.bind (opt_str_field j ''nonce'') (\<lambda>nonce.
     Option.bind (map_field j ''claims'') (\<lambda>claims.
     Option.bind (u64_field j ''auth_time'') (\<lambda>auth_time.
     Option.bind (u64_field j ''exp'') (\<lambda>exp.
     Option.bind (opt_str_field j ''acr'') (\<lambda>acr.
     Option.bind (opt_str_field j ''cnf_jkt'') (\<lambda>cnf_jkt.
     Some \<lparr>rt_client_id = client_id, rt_sub = sub, rt_scope = scope, rt_nonce = nonce,
       rt_claims = claims, rt_auth_time = auth_time, rt_exp = exp, rt_acr = acr,
       rt_cnf_jkt = cnf_jkt\<rparr>)))))))))"

section \<open>Sealing and opening\<close>

definition TYP_CODE :: string where "TYP_CODE = ''code''"
definition TYP_ACCESS :: string where "TYP_ACCESS = ''at''"
definition TYP_REFRESH :: string where "TYP_REFRESH = ''rt''"

definition sealed_envelope :: "string \<Rightarrow> json \<Rightarrow> json" where
  "sealed_envelope typ p = JObject [(''typ'', JString typ), (''p'', p)]"

definition opened_envelope :: "(json \<Rightarrow> 'a option) \<Rightarrow> json \<Rightarrow> (string \<times> 'a) option" where
  "opened_envelope from_json j =
     Option.bind (case json_get j ''typ'' of None \<Rightarrow> Some [] | Some v \<Rightarrow> as_str v) (\<lambda>typ.
     Option.bind (Option.bind (json_get j ''p'') from_json) (\<lambda>p.
     Some (typ, p)))"

definition token_seal :: "'w platform \<Rightarrow> token_codec \<Rightarrow> string \<Rightarrow> json \<Rightarrow> ('w, error, string) prog" where
  "token_seal P c typ val =
     bindP (liftR (map_err Json (json_to_vec P (sealed_envelope typ val)))) (\<lambda>plaintext.
     mapErrP (\<lambda>e. Crypto (''token seal: '' @ e)) (jwe_encrypt P (hd (tc_keys c)) plaintext))"

definition open_plaintext ::
    "'w platform \<Rightarrow> string \<Rightarrow> (json \<Rightarrow> 'a option) \<Rightarrow> string \<Rightarrow> string \<Rightarrow> (error, 'a) result" where
  "open_plaintext P ty from_json expected_typ plaintext =
     res_bind (map_err Json (json_from_slice P plaintext)) (\<lambda>j.
     res_bind (ok_or (opened_envelope from_json j) (Json (de_error P ty plaintext))) (\<lambda>(typ, p).
     if typ \<noteq> expected_typ
     then Inl (Authn (''token type mismatch: expected '' @ expected_typ @ '', got '' @ typ))
     else Inr p))"

fun open_keys ::
    "'w platform \<Rightarrow> string \<Rightarrow> (json \<Rightarrow> 'a option) \<Rightarrow> string \<Rightarrow> string \<Rightarrow> string list \<Rightarrow> string \<Rightarrow>
     (error, 'a) result" where
  "open_keys P ty from_json expected_typ token [] last_err = Inl (Authn (''token open: '' @ last_err))"
| "open_keys P ty from_json expected_typ token (key # ks) last_err =
     (case jwe_decrypt P key token of
        Inr plaintext \<Rightarrow> open_plaintext P ty from_json expected_typ plaintext
      | Inl e \<Rightarrow> open_keys P ty from_json expected_typ token ks e)"

definition token_open ::
    "'w platform \<Rightarrow> token_codec \<Rightarrow> string \<Rightarrow> (json \<Rightarrow> 'a option) \<Rightarrow> string \<Rightarrow> string \<Rightarrow> (error, 'a) result" where
  "token_open P c ty from_json expected_typ token =
     open_keys P ty from_json expected_typ token (tc_keys c) []"

definition seal_code :: "'w platform \<Rightarrow> token_codec \<Rightarrow> auth_code_payload \<Rightarrow> ('w, error, string) prog" where
  "seal_code P c payload = token_seal P c TYP_CODE (code_to_json payload)"

definition open_code :: "'w platform \<Rightarrow> token_codec \<Rightarrow> string \<Rightarrow> ('w, error, auth_code_payload) prog" where
  "open_code P c token =
     bindP (liftR (token_open P c ''AuthCodePayload'' code_from_json TYP_CODE token)) (\<lambda>payload.
     bindP (effP (now_secs P)) (\<lambda>now.
     guardP (\<not> ac_exp payload \<le> now) (Authn ''authorization code expired'') (retP payload)))"

definition seal_access_token ::
    "'w platform \<Rightarrow> token_codec \<Rightarrow> access_token_payload \<Rightarrow> ('w, error, string) prog" where
  "seal_access_token P c payload = token_seal P c TYP_ACCESS (access_to_json payload)"

definition open_access_token ::
    "'w platform \<Rightarrow> token_codec \<Rightarrow> string \<Rightarrow> ('w, error, access_token_payload) prog" where
  "open_access_token P c token =
     bindP (liftR (token_open P c ''AccessTokenPayload'' access_from_json TYP_ACCESS token)) (\<lambda>payload.
     bindP (effP (now_secs P)) (\<lambda>now.
     guardP (\<not> at_exp payload \<le> now) (Authn ''access token expired'') (retP payload)))"

definition seal_refresh_token ::
    "'w platform \<Rightarrow> token_codec \<Rightarrow> refresh_token_payload \<Rightarrow> ('w, error, string) prog" where
  "seal_refresh_token P c payload = token_seal P c TYP_REFRESH (refresh_to_json payload)"

definition open_refresh_token ::
    "'w platform \<Rightarrow> token_codec \<Rightarrow> string \<Rightarrow> ('w, error, refresh_token_payload) prog" where
  "open_refresh_token P c token =
     bindP (liftR (token_open P c ''RefreshTokenPayload'' refresh_from_json TYP_REFRESH token)) (\<lambda>payload.
     bindP (effP (now_secs P)) (\<lambda>now.
     guardP (\<not> rt_exp payload \<le> now) (Authn ''refresh token expired'') (retP payload)))"

lemmas token_type_defs = TYP_CODE_def TYP_ACCESS_def TYP_REFRESH_def

section \<open>What the codec relies on\<close>

text \<open>
  Authenticated encryption: a token decrypts to its plaintext under the key it was made with, and
  under no other.  \<open>json_trip P v\<close>: \<^verbatim>\<open>serde_json\<close> reads back the text it wrote for \<open>v\<close>.
\<close>

definition aead_sound :: "'w platform \<Rightarrow> bool" where
  "aead_sound P \<longleftrightarrow> (\<forall>k pt w tok w'. jwe_encrypt P k pt w = (Inr tok, w') \<longrightarrow>
     jwe_decrypt P k tok = Inr pt \<and> (\<forall>k'. k' \<noteq> k \<longrightarrow> (\<exists>e. jwe_decrypt P k' tok = Inl e)))"

definition json_trip :: "'w platform \<Rightarrow> json \<Rightarrow> bool" where
  "json_trip P v \<longleftrightarrow> (\<exists>t. json_to_vec P v = Inr t \<and> json_from_slice P t = Inr (json_norm v))"

text \<open>Every \<^verbatim>\<open>BTreeMap<String, Value>\<close> is normal.\<close>

definition claims_normal :: "json btree \<Rightarrow> bool" where
  "claims_normal cl \<longleftrightarrow> json_norm (JObject cl) = JObject cl"

section \<open>Round trips\<close>

lemma map_of_norm_members:
  "map_of (foldr (\<lambda>(k, v). bt_insert k (json_norm v)) m []) k = map_option json_norm (map_of m k)"
  by (induction m) (auto simp: map_of_bt_insert)

lemma json_get_norm [simp]: "json_get (json_norm (JObject m)) k = map_option json_norm (map_of m k)"
  by (simp add: map_of_norm_members del: foldr.simps)

lemma map_of_opt_member [simp]:
  "map_of (opt_member k v) k' = (if k' = k then map_option JString v else None)"
  by (auto simp: opt_member_def split: option.splits)

lemma map_add_apply [simp]: "(m ++ n) k = (case n k of None \<Rightarrow> m k | Some v \<Rightarrow> Some v)"
  by (simp add: map_add_def)

lemmas field_defs = str_field_def u64_field_def opt_str_field_def map_field_def

lemma code_json_roundtrip:
  "claims_normal (ac_claims p) \<Longrightarrow> code_from_json (json_norm (code_to_json p)) = Some p"
  unfolding code_from_json_def code_to_json_def field_defs json_get_norm
  by (cases "ac_nonce p"; cases "ac_code_challenge p"; cases "ac_code_challenge_method p"; cases "ac_acr p")
    (simp_all add: claims_normal_def)

lemma access_json_roundtrip:
  "claims_normal (at_claims p) \<Longrightarrow> access_from_json (json_norm (access_to_json p)) = Some p"
  unfolding access_from_json_def access_to_json_def field_defs json_get_norm
  by (cases "at_cnf_jkt p") (simp_all add: claims_normal_def)

lemma refresh_json_roundtrip:
  "claims_normal (rt_claims p) \<Longrightarrow> refresh_from_json (json_norm (refresh_to_json p)) = Some p"
  unfolding refresh_from_json_def refresh_to_json_def field_defs json_get_norm
  by (cases "rt_nonce p"; cases "rt_acr p"; cases "rt_cnf_jkt p") (simp_all add: claims_normal_def)

lemma opened_sealed:
  "opened_envelope from_json (json_norm (sealed_envelope typ v)) =
     map_option (Pair typ) (from_json (json_norm v))"
  unfolding opened_envelope_def sealed_envelope_def json_get_norm
  by (cases "from_json (json_norm v)") simp_all

lemma open_keys_find:
  assumes "k \<in> set ks" and "jwe_decrypt P k tok = Inr pt"
    and "\<forall>k'. k' \<noteq> k \<longrightarrow> (\<exists>e. jwe_decrypt P k' tok = Inl e)"
  shows "open_keys P ty from_json expected tok ks le = open_plaintext P ty from_json expected pt"
  using assms
proof (induction ks arbitrary: le)
  case (Cons k' ks)
  then show ?case by (cases "k' = k") auto
qed simp

lemma open_sealed:
  assumes seal: "token_seal P c typ v w = (Inr tok, w')" and "aead_sound P" and "hd (tc_keys c) \<in> set (tc_keys c')"
    and trip: "json_trip P (sealed_envelope typ v)"
  shows "token_open P c' ty from_json expected tok =
     (case from_json (json_norm v) of
        None \<Rightarrow> Inl (Json (de_error P ty (projr (json_to_vec P (sealed_envelope typ v)))))
      | Some p \<Rightarrow> if typ = expected then Inr p
          else Inl (Authn (''token type mismatch: expected '' @ expected @ '', got '' @ typ)))"
proof -
  from trip obtain t where t: "json_to_vec P (sealed_envelope typ v) = Inr t"
      "json_from_slice P t = Inr (json_norm (sealed_envelope typ v))"
    by (auto simp: json_trip_def)
  with seal have "jwe_encrypt P (hd (tc_keys c)) t w = (Inr tok, w')"
    by (auto simp: token_seal_def prog_ok)
  with assms(2) have "jwe_decrypt P (hd (tc_keys c)) tok = Inr t"
      "\<forall>k'. k' \<noteq> hd (tc_keys c) \<longrightarrow> (\<exists>e. jwe_decrypt P k' tok = Inl e)"
    unfolding aead_sound_def by blast+
  then have "token_open P c' ty from_json expected tok = open_plaintext P ty from_json expected t"
    using assms(3) by (simp add: token_open_def open_keys_find)
  then show ?thesis by (auto simp: open_plaintext_def t opened_sealed split: option.splits)
qed

lemma rotation_keeps_key:
  "s = s' \<or> (s \<noteq> [] \<and> s \<in> set secrets) \<Longrightarrow>
     hd (tc_keys (codec_new P s)) \<in> set (tc_keys (with_previous_secrets P secrets (codec_new P s')))"
  by (auto simp: codec_new_def with_previous_secrets_def)

lemma open_sealed_own:
  assumes "token_seal P c typ v w = (Inr tok, w')" and "aead_sound P" and "hd (tc_keys c) \<in> set (tc_keys c')"
    and "json_trip P (sealed_envelope typ v)" and "from_json (json_norm v) = Some p"
  shows "token_open P c' ty from_json typ tok = Inr p"
  using open_sealed [OF assms(1-4), of ty from_json "typ"] assms(5) by simp

text \<open>What a codec holding the sealing key makes of a sealed token of each kind.\<close>

lemma open_sealed_code:
  assumes "seal_code P c p w = (Inr tok, w1)" and "aead_sound P" and "hd (tc_keys c) \<in> set (tc_keys c')"
    and "json_trip P (sealed_envelope TYP_CODE (code_to_json p))" and "claims_normal (ac_claims p)"
  shows "open_code P c' tok w2 = (case now_secs P w2 of (now, w3) \<Rightarrow>
     (if now < ac_exp p then Inr p else Inl (Authn ''authorization code expired''), w3))"
  using open_sealed_own [where from_json = code_from_json, OF assms(1) [unfolded seal_code_def] assms(2-4) code_json_roundtrip [OF assms(5)]]
  by (auto simp: open_code_def bindP_def effP_def guardP_def split: prod.splits)

lemma open_sealed_access:
  assumes "seal_access_token P c p w = (Inr tok, w1)" and "aead_sound P" and "hd (tc_keys c) \<in> set (tc_keys c')"
    and "json_trip P (sealed_envelope TYP_ACCESS (access_to_json p))" and "claims_normal (at_claims p)"
  shows "open_access_token P c' tok w2 = (case now_secs P w2 of (now, w3) \<Rightarrow>
     (if now < at_exp p then Inr p else Inl (Authn ''access token expired''), w3))"
  using open_sealed_own [where from_json = access_from_json, OF assms(1) [unfolded seal_access_token_def] assms(2-4) access_json_roundtrip [OF assms(5)]]
  by (auto simp: open_access_token_def bindP_def effP_def guardP_def split: prod.splits)

lemma open_sealed_refresh:
  assumes "seal_refresh_token P c p w = (Inr tok, w1)" and "aead_sound P" and "hd (tc_keys c) \<in> set (tc_keys c')"
    and "json_trip P (sealed_envelope TYP_REFRESH (refresh_to_json p))" and "claims_normal (rt_claims p)"
  shows "open_refresh_token P c' tok w2 = (case now_secs P w2 of (now, w3) \<Rightarrow>
     (if now < rt_exp p then Inr p else Inl (Authn ''refresh token expired''), w3))"
  using open_sealed_own [where from_json = refresh_from_json, OF assms(1) [unfolded seal_refresh_token_def] assms(2-4) refresh_json_roundtrip [OF assms(5)]]
  by (auto simp: open_refresh_token_def bindP_def effP_def guardP_def split: prod.splits)

lemma sealed_opens_own_type:
  assumes "token_seal P c typ v w = (Inr tok, w1)" and "aead_sound P" and "hd (tc_keys c) \<in> set (tc_keys c')"
    and "json_trip P (sealed_envelope typ v)" and "token_open P c' ty from_json expected tok = Inr p"
  shows "typ = expected"
  using open_sealed [OF assms(1-4), of ty from_json expected] assms(5)
  by (auto split: option.splits if_splits)

section \<open>Properties\<close>

text \<open>The hypotheses on the environment hold on the concrete platform.\<close>

lemma sample_aead: "aead_sound (sample_platform clock vals)"
  by (auto simp: aead_sound_def sample_platform_def)

lemma sample_json_trip: "v \<in> set vals \<Longrightarrow> json_trip (sample_platform clock vals) v"
  by (auto simp: json_trip_def sample_platform_def dest!: position_Some)

definition sample_code :: auth_code_payload where
  "sample_code = \<lparr>ac_client_id = ''rp'', ac_redirect_uri = ''https://rp/cb'', ac_scope = ''openid'',
     ac_sub = ''alice'', ac_nonce = Some ''n'', ac_code_challenge = None, ac_code_challenge_method = None,
     ac_claims = [(''email'', JString ''a@b''), (''sub'', JString ''alice'')], ac_auth_time = 90, ac_exp = 100,
     ac_acr = None\<rparr>"

definition sample_refresh :: refresh_token_payload where
  "sample_refresh = \<lparr>rt_client_id = ''rp'', rt_sub = ''alice'', rt_scope = ''openid'', rt_nonce = None,
     rt_claims = [], rt_auth_time = 90, rt_exp = 100, rt_acr = None, rt_cnf_jkt = None\<rparr>"

text \<open>The sample clock is the world, a \<^typ>\<open>u64\<close>, and does not advance.\<close>

definition tick :: "u64 \<Rightarrow> u64 \<times> u64" where
  "tick w = (w, w)"

definition token_platform :: "u64 platform" where
  "token_platform = sample_platform tick
     [sealed_envelope TYP_CODE (code_to_json sample_code),
      sealed_envelope TYP_REFRESH (refresh_to_json sample_refresh)]"

text \<open>
  C28.  An authorization code opens to exactly the payload that was sealed, until its expiry and not
  after, also when the provider has meanwhile rotated to a new secret and kept the sealing secret
  among the previous ones.  The hypotheses are authenticated encryption and that \<^verbatim>\<open>serde_json\<close> reads
  back this envelope; claims are \<^verbatim>\<open>serde_json\<close> values.
\<close>

theorem code_opens_after_rotation:
  assumes "seal_code P (codec_new P s) p w = (Inr tok, w1)" and "aead_sound P"
    and "json_trip P (sealed_envelope TYP_CODE (code_to_json p))" and "claims_normal (ac_claims p)"
    and "s = s' \<or> (s \<noteq> [] \<and> s \<in> set secrets)"
  shows "open_code P (with_previous_secrets P secrets (codec_new P s')) tok w2 =
    (case now_secs P w2 of (now, w3) \<Rightarrow>
       (if now < ac_exp p then Inr p else Inl (Authn ''authorization code expired''), w3))"
  using open_sealed_code [OF assms(1,2) rotation_keeps_key [OF assms(5)] assms(3,4)] .

theorem code_opens_after_rotation_witness:
  "\<exists>tok. seal_code token_platform (codec_new token_platform ''old'') sample_code 90 = (Inr tok, 90) \<and>
     open_code token_platform (with_previous_secrets token_platform [''old''] (codec_new token_platform ''new'')) tok 95
       = (Inr sample_code, 95)"
proof -
  have s: "seal_code token_platform (codec_new token_platform ''old'') sample_code 90 = (Inr (pad32 ''old''), 90)"
    by (simp add: seal_code_def token_seal_def token_platform_def sample_platform_def codec_new_def
        derive_key_def pad32_def mapErrP_def bindP_def)
  have "open_code token_platform (with_previous_secrets token_platform [''old''] (codec_new token_platform ''new''))
      (pad32 ''old'') 95 = (case now_secs token_platform 95 of (now, w3) \<Rightarrow>
       (if now < ac_exp sample_code then Inr sample_code else Inl (Authn ''authorization code expired''), w3))"
    by (rule code_opens_after_rotation [OF s])
      (simp_all add: token_platform_def sample_aead sample_json_trip claims_normal_def sample_code_def)
  with s show ?thesis by (auto simp: token_platform_def sample_platform_def tick_def sample_code_def)
qed

text \<open>
  C12.  No token of one kind is accepted as another: whatever \<^verbatim>\<open>seal_code\<close>, \<^verbatim>\<open>seal_access_token\<close> and
  \<^verbatim>\<open>seal_refresh_token\<close> produce under a key the opening codec holds, an authorization code opens only
  as a code, an access token only as an access token and a refresh token only as a refresh token,
  although the JSON of a refresh token has every field of an access token.
\<close>

theorem token_kinds_not_confused:
  assumes "aead_sound P" and "hd (tc_keys c) \<in> set (tc_keys c')" and "json_trip P (sealed_envelope typ v)"
    and "token_seal P c typ v w = (Inr tok, w1)"
  shows "(open_code P c' tok w2 = (Inr pc, w3) \<longrightarrow> typ = TYP_CODE) \<and>
    (open_access_token P c' tok w2 = (Inr pa, w3) \<longrightarrow> typ = TYP_ACCESS) \<and>
    (open_refresh_token P c' tok w2 = (Inr pr, w3) \<longrightarrow> typ = TYP_REFRESH) \<and>
    distinct [TYP_CODE, TYP_ACCESS, TYP_REFRESH]"
  using sealed_opens_own_type [OF assms(4,1,2,3), where from_json = code_from_json]
    sealed_opens_own_type [OF assms(4,1,2,3), where from_json = access_from_json]
    sealed_opens_own_type [OF assms(4,1,2,3), where from_json = refresh_from_json]
  by (auto simp: open_code_def open_access_token_def open_refresh_token_def prog_ok token_type_defs)

theorem token_kinds_not_confused_witness:
  "\<exists>tok. seal_refresh_token token_platform (codec_new token_platform ''k'') sample_refresh 90 = (Inr tok, 90) \<and>
     access_from_json (json_norm (refresh_to_json sample_refresh)) \<noteq> None \<and>
     (\<forall>p. open_access_token token_platform (codec_new token_platform ''k'') tok 90 \<noteq> (Inr p, 90))"
proof -
  have s: "token_seal token_platform (codec_new token_platform ''k'') TYP_REFRESH (refresh_to_json sample_refresh) 90
      = (Inr (pad32 ''k'' @ ''1''), 90)"
    by (simp add: token_seal_def token_platform_def sample_platform_def codec_new_def
        derive_key_def pad32_def mapErrP_def bindP_def sealed_envelope_def token_type_defs)
  have t: "json_trip token_platform (sealed_envelope TYP_REFRESH (refresh_to_json sample_refresh))"
    by (simp add: token_platform_def sample_json_trip)
  have a: "aead_sound token_platform" by (simp add: token_platform_def sample_aead)
  have k: "hd (tc_keys (codec_new token_platform ''k'')) \<in> set (tc_keys (codec_new token_platform ''k''))"
    by (simp add: codec_new_def)
  have "open_access_token token_platform (codec_new token_platform ''k'') (pad32 ''k'' @ ''1'') 90 \<noteq> (Inr p, 90)" for p
    using token_kinds_not_confused [OF a k t s, of 90 undefined 90 p undefined] by (auto simp: token_type_defs)
  moreover have "access_from_json (json_norm (refresh_to_json sample_refresh)) \<noteq> None"
    by (simp add: access_from_json_def refresh_to_json_def sample_refresh_def field_defs opt_member_def)
  ultimately show ?thesis using s by (auto simp: seal_refresh_token_def)
qed

end
