(* ===== verification/Request.thy ===== *)
theory Request
  imports OAuth_Error
begin

text \<open>
  \<^verbatim>\<open>src/request.rs\<close>: parsing an authorization request from its ordered parameters, the
  \<^verbatim>\<open>response_type\<close> comparison, and the validators of the authorization endpoint.
\<close>

section \<open>Response types as sets\<close>

fun response_type_values :: "string set \<Rightarrow> string list \<Rightarrow> string set option" where
  "response_type_values r [] = (if r = {} then None else Some r)"
| "response_type_values r (v # vs) =
     (if v = [] \<or> v \<in> r then None else response_type_values (insert v r) vs)"

definition response_type_eq :: "string \<Rightarrow> string \<Rightarrow> bool" where
  "response_type_eq left right =
     (case (response_type_values {} (split_char (CHR '' '') left),
            response_type_values {} (split_char (CHR '' '') right)) of
        (Some a, Some b) \<Rightarrow> a = b
      | _ \<Rightarrow> False)"

section \<open>The request\<close>

record authorization_request =
  ar_client_id :: string
  ar_redirect_uri :: string
  ar_response_type :: string
  ar_scope :: string
  ar_state :: "string option"
  ar_nonce :: "string option"
  ar_code_challenge :: "string option"
  ar_code_challenge_method :: "string option"
  ar_response_mode :: "string option"
  ar_prompt :: "string option"
  ar_acr_values :: "string option"
  ar_claims :: "json option"
  ar_request_object :: "string option"
  ar_resources :: "string list"
  ar_extra :: "string btree"

definition known_params :: "string list" where
  "known_params =
     [''client_id'', ''response_type'', ''redirect_uri'', ''scope'', ''state'', ''nonce'',
      ''code_challenge'', ''code_challenge_method'', ''response_mode'', ''prompt'', ''acr_values'',
      ''claims'', ''request'', ''resource'']"

definition from_params :: "'w platform \<Rightarrow> string btree \<Rightarrow> (oauth_error, authorization_request) result" where
  "from_params P params =
     res_bind (ok_or (bt_get params ''client_id'') (invalid_request ''missing client_id'')) (\<lambda>client_id.
     res_bind (ok_or (bt_get params ''response_type'') (invalid_request ''missing response_type'')) (\<lambda>response_type.
     res_bind (ok_or (bt_get params ''redirect_uri'') (invalid_request ''missing redirect_uri'')) (\<lambda>redirect_uri.
     let scope = (case bt_get params ''scope'' of Some s \<Rightarrow> s | None \<Rightarrow> []) in
     if (case bt_get params ''state'' of Some state \<Rightarrow> \<not> is_valid_state state | None \<Rightarrow> False)
     then Inl (invalid_request ''invalid state parameter'')
     else
     res_bind (case bt_get params ''claims'' of
         Some s \<Rightarrow> map_err (\<lambda>_. invalid_request ''invalid claims parameter'')
                      (res_bind (json_from_slice P s) (\<lambda>v. Inr (Some v)))
       | None \<Rightarrow> Inr None) (\<lambda>claims.
     Inr \<lparr>ar_client_id = client_id, ar_redirect_uri = redirect_uri, ar_response_type = response_type,
          ar_scope = scope, ar_state = bt_get params ''state'', ar_nonce = bt_get params ''nonce'',
          ar_code_challenge = bt_get params ''code_challenge'',
          ar_code_challenge_method = bt_get params ''code_challenge_method'',
          ar_response_mode = bt_get params ''response_mode'', ar_prompt = bt_get params ''prompt'',
          ar_acr_values = bt_get params ''acr_values'', ar_claims = claims,
          ar_request_object = bt_get params ''request'', ar_resources = [],
          ar_extra = filter (\<lambda>(k, _). k \<notin> set known_params) params\<rparr>))))"

text \<open>The loop of \<^verbatim>\<open>from_pairs\<close>: repeated \<^verbatim>\<open>resource\<close> values are collected, any other repeated name
  is an error.\<close>

fun from_pairs_loop ::
    "string btree \<Rightarrow> string list \<Rightarrow> (string \<times> string) list \<Rightarrow>
     (oauth_error, string btree \<times> string list) result" where
  "from_pairs_loop unique resources [] = Inr (unique, resources)"
| "from_pairs_loop unique resources ((name, value) # ps) =
     (if name = ''resource'' then from_pairs_loop unique (resources @ [value]) ps
      else res_bind
        (insert_unique map_of bt_insert
          (\<lambda>n. invalid_request (''duplicate authorization parameter: '' @ n)) name value unique)
        (\<lambda>unique'. from_pairs_loop unique' resources ps))"

definition from_pairs ::
    "'w platform \<Rightarrow> (string \<times> string) list \<Rightarrow> (oauth_error, authorization_request) result" where
  "from_pairs P params =
     res_bind (from_pairs_loop [] [] params) (\<lambda>(unique, resources).
     res_bind (from_params P unique) (\<lambda>request.
     Inr (request\<lparr>ar_resources := resources\<rparr>)))"

definition scopes :: "authorization_request \<Rightarrow> string list" where
  "scopes r = split_whitespace (ar_scope r)"

definition is_oidc :: "authorization_request \<Rightarrow> bool" where
  "is_oidc r \<longleftrightarrow> ''openid'' \<in> set (scopes r)"

definition prompt_values :: "string \<Rightarrow> string list" where
  "prompt_values prompt = filter (\<lambda>v. v \<noteq> []) (split_char (CHR '' '') prompt)"

definition has_prompt :: "authorization_request \<Rightarrow> string \<Rightarrow> bool" where
  "has_prompt r expected =
     (case ar_prompt r of None \<Rightarrow> False | Some prompt \<Rightarrow> expected \<in> set (prompt_values prompt))"

fun prompt_scan :: "nat \<times> bool \<Rightarrow> string list \<Rightarrow> nat \<times> bool" where
  "prompt_scan (value_count, has_none) [] = (value_count, has_none)"
| "prompt_scan (value_count, has_none) (v # vs) =
     prompt_scan (value_count + 1, has_none \<or> v = ''none'') vs"

definition validate_prompt :: "authorization_request \<Rightarrow> (oauth_error, unit) result" where
  "validate_prompt r =
     (case ar_prompt r of
        None \<Rightarrow> Inr ()
      | Some prompt \<Rightarrow>
          (case prompt_scan (0, False) (prompt_values prompt) of
             (value_count, has_none) \<Rightarrow>
               if has_none \<and> value_count \<noteq> 1
               then Inl (with_state (ar_state r) (invalid_request ''prompt=none must be the sole prompt value''))
               else Inr ()))"

definition wants_code :: "authorization_request \<Rightarrow> bool" where
  "wants_code r \<longleftrightarrow> ''code'' \<in> set (split_whitespace (ar_response_type r))"

definition wants_id_token :: "authorization_request \<Rightarrow> bool" where
  "wants_id_token r \<longleftrightarrow> ''id_token'' \<in> set (split_whitespace (ar_response_type r))"

definition wants_access_token :: "authorization_request \<Rightarrow> bool" where
  "wants_access_token r \<longleftrightarrow> ''token'' \<in> set (split_whitespace (ar_response_type r))"

definition use_fragment :: "authorization_request \<Rightarrow> bool" where
  "use_fragment r =
     (if ar_response_mode r = Some ''fragment'' then True
      else if ar_response_mode r = Some ''query'' then False
      else wants_id_token r \<or> wants_access_token r)"

definition supported_response_types :: "string list" where
  "supported_response_types =
     [''code'', ''id_token'', ''id_token token'', ''code id_token'', ''code token'', ''code id_token token'']"

definition validate_response_type :: "authorization_request \<Rightarrow> (oauth_error, unit) result" where
  "validate_response_type r =
     (if \<not> list_ex (response_type_eq (ar_response_type r)) supported_response_types
      then Inl (with_state (ar_state r)
             (oauth_error_new UnsupportedResponseType (''unsupported response_type: '' @ ar_response_type r)))
      else if wants_id_token r \<and> \<not> is_oidc r
      then Inl (with_state (ar_state r)
             (oauth_error_new InvalidScope ''response_type containing id_token requires the openid scope''))
      else Inr ())"

definition validate_response_mode :: "authorization_request \<Rightarrow> (oauth_error, unit) result" where
  "validate_response_mode r =
     (case ar_response_mode r of
        None \<Rightarrow> Inr ()
      | Some mode \<Rightarrow>
          if mode = ''fragment'' then Inr ()
          else if mode = ''query'' then
            (if \<not> wants_id_token r \<and> \<not> wants_access_token r then Inr ()
             else Inl (with_state (ar_state r)
               (invalid_request ''response_mode=query is not allowed for token-bearing responses'')))
          else Inl (with_state (ar_state r) (invalid_request (''unsupported response_mode: '' @ mode))))"

section \<open>Response types\<close>

lemma response_type_values_eq:
  "response_type_values r vs =
     (if distinct vs \<and> [] \<notin> set vs \<and> set vs \<inter> r = {} \<and> r \<union> set vs \<noteq> {}
      then Some (r \<union> set vs) else None)"
  by (induction r vs rule: response_type_values.induct) auto

definition well_formed_type :: "string \<Rightarrow> bool" where
  "well_formed_type t \<longleftrightarrow> distinct (split_char (CHR '' '') t) \<and> [] \<notin> set (split_char (CHR '' '') t)"

lemma split_char_nonempty [simp]: "split_char c s \<noteq> []"
  by (simp add: split_char_def)

lemma response_type_eq_iff:
  "response_type_eq a b \<longleftrightarrow> well_formed_type a \<and> well_formed_type b \<and>
     set (split_char (CHR '' '') a) = set (split_char (CHR '' '') b)"
  by (auto simp: response_type_eq_def response_type_values_eq well_formed_type_def)

text \<open>
  \<^verbatim>\<open>response_type_eq\<close> compares space-delimited sets: it holds exactly when both sides are free of
  empty and repeated members and have the same members, whatever their order.
\<close>

theorem response_type_eq_sets:
  "response_type_eq a b \<longleftrightarrow>
     distinct (split_char (CHR '' '') a) \<and> [] \<notin> set (split_char (CHR '' '') a) \<and>
     distinct (split_char (CHR '' '') b) \<and> [] \<notin> set (split_char (CHR '' '') b) \<and>
     set (split_char (CHR '' '') a) = set (split_char (CHR '' '') b)"
  by (auto simp: response_type_eq_iff well_formed_type_def)

text \<open>On text whose only whitespace is the space character, \<^verbatim>\<open>split_whitespace\<close> is the
  space-separated list without empty members.\<close>

definition plain_text :: "string \<Rightarrow> bool" where
  "plain_text s \<longleftrightarrow> ascii s \<and> list_all (\<lambda>c. is_whitespace (of_char c) \<longrightarrow> c = CHR '' '') s"

lemma split_by_map_of_char:
  "list_all (\<lambda>c. is_whitespace (of_char c) \<longrightarrow> c = CHR '' '') s \<Longrightarrow>
     split_by is_whitespace (map of_char s) = map (map of_char) (split_char (CHR '' '') s)"
proof (induction s)
  case (Cons c s)
  have "is_whitespace (of_char (CHR '' ''))" by (simp add: is_whitespace_def)
  then show ?case
    using Cons by (cases "c = CHR '' ''") (auto simp: split_char_def split: list.splits)
qed (simp add: split_char_def)

lemma split_char_ascii: "ascii s \<Longrightarrow> t \<in> set (split_char c s) \<Longrightarrow> ascii t"
  by (auto simp: ascii_def list_all_iff split_char_def dest: split_by_parts)

lemma split_whitespace_plain:
  assumes "plain_text s"
  shows "split_whitespace s = filter (\<lambda>v. v \<noteq> []) (split_char (CHR '' '') s)"
proof -
  have "split_whitespace s =
      map from_chars (filter (\<lambda>v. v \<noteq> []) (map (map of_char) (split_char (CHR '' '') s)))"
    using assms by (simp add: split_whitespace_def plain_text_def chars_ascii split_by_map_of_char)
  also have "\<dots> = map (from_chars \<circ> map of_char) (filter (\<lambda>v. v \<noteq> []) (split_char (CHR '' '') s))"
    by (simp add: filter_map o_def)
  also have "\<dots> = filter (\<lambda>v. v \<noteq> []) (split_char (CHR '' '') s)"
    using assms by (intro map_idI) (auto simp: plain_text_def from_chars_of_char split_char_ascii)
  finally show ?thesis .
qed

lemma plain_text_join:
  "list_all plain_text ts \<Longrightarrow> plain_text (join '' '' ts)"
  by (induction "'' ''" ts rule: join.induct) (auto simp: plain_text_def ascii_def)

definition supported_members :: "string list" where
  "supported_members = [''code'', ''id_token'', ''token'']"

lemma supported_type_members:
  "t \<in> set supported_response_types \<Longrightarrow>
     set (split_char (CHR '' '') t) \<subseteq> set supported_members \<and>
     (''code'' \<in> set (split_char (CHR '' '') t) \<or> ''id_token'' \<in> set (split_char (CHR '' '') t))"
  by (auto simp: supported_response_types_def supported_members_def split_char_def)

lemma plain_members: "m \<in> set supported_members \<Longrightarrow> plain_text m"
  by (auto simp: supported_members_def plain_text_def ascii_def is_whitespace_def)

lemma supported_split_whitespace:
  assumes "response_type_eq rt t" and "t \<in> set supported_response_types"
  shows "set (split_whitespace rt) = set (split_char (CHR '' '') t)"
proof -
  from assms have eq: "set (split_char (CHR '' '') rt) = set (split_char (CHR '' '') t)"
    and wf: "[] \<notin> set (split_char (CHR '' '') rt)"
    by (auto simp: response_type_eq_iff well_formed_type_def)
  have "list_all plain_text (split_char (CHR '' '') rt)"
    using eq supported_type_members [OF assms(2)] plain_members by (auto simp: list_all_iff)
  then have "plain_text rt" using plain_text_join [of "split_char (CHR '' '') rt"]
    by (simp add: join_split_char)
  then show ?thesis using eq wf by (auto simp: split_whitespace_plain)
qed

definition sample_pairs :: "(string \<times> string) list" where
  "sample_pairs = [(''client_id'', ''rp''), (''response_type'', ''code id_token''), (''scope'', ''openid''),
     (''redirect_uri'', ''https://rp/cb''), (''state'', ''s''), (''nonce'', ''n''),
     (''resource'', ''a''), (''resource'', ''b''), (''x'', ''y'')]"

definition sample_request :: authorization_request where
  "sample_request = \<lparr>ar_client_id = ''rp'', ar_redirect_uri = ''https://rp/cb'',
     ar_response_type = ''code id_token'', ar_scope = ''openid'', ar_state = Some ''s'',
     ar_nonce = Some ''n'', ar_code_challenge = None, ar_code_challenge_method = None,
     ar_response_mode = None, ar_prompt = None, ar_acr_values = None, ar_claims = None,
     ar_request_object = None, ar_resources = [''a'', ''b''], ar_extra = [(''x'', ''y'')]\<rparr>"

lemma sample_request_parses: "from_pairs (sample_platform (\<lambda>w. (0, w)) []) sample_pairs = Inr sample_request"
  by code_simp

lemma sample_request_valid:
  "validate_response_type sample_request = Inr ()" "validate_response_mode sample_request = Inr ()"
  "wants_id_token sample_request"
  by code_simp+

text \<open>
  A request that passes \<^verbatim>\<open>validate_response_type\<close> asks for a code or an ID token, asks for nothing
  but codes, ID tokens and access tokens, and asks for an ID token only in an OpenID request.
\<close>

theorem validated_response_type:
  assumes "validate_response_type r = Inr ()"
  shows "(wants_code r \<or> wants_id_token r) \<and> (wants_id_token r \<longrightarrow> is_oidc r) \<and>
    set (split_whitespace (ar_response_type r)) \<subseteq> {''code'', ''id_token'', ''token''}"
proof -
  from assms obtain t where t: "t \<in> set supported_response_types" "response_type_eq (ar_response_type r) t"
    by (auto simp: validate_response_type_def list_ex_iff split: if_splits)
  have "wants_id_token r \<longrightarrow> is_oidc r"
    using assms by (auto simp: validate_response_type_def split: if_splits)
  then show ?thesis
    using supported_split_whitespace [OF t(2,1)] supported_type_members [OF t(1)]
    by (auto simp: wants_code_def wants_id_token_def supported_members_def)
qed

theorem validated_response_type_witness:
  "set (split_whitespace ''code id_token'') \<subseteq> {''code'', ''id_token'', ''token''}"
  using validated_response_type [OF sample_request_valid(1)] by (simp add: sample_request_def)

section \<open>Response modes and prompts\<close>

text \<open>
  A request that passes \<^verbatim>\<open>validate_response_mode\<close> and asks for an ID token or an access token is
  answered in the fragment: no token is put into a URL query.
\<close>

theorem tokens_never_in_query:
  assumes "validate_response_mode r = Inr ()" and "wants_id_token r \<or> wants_access_token r"
  shows "use_fragment r"
  using assms by (auto simp: validate_response_mode_def use_fragment_def split: option.splits if_splits)

theorem tokens_never_in_query_witness: "use_fragment sample_request"
  by (rule tokens_never_in_query [OF sample_request_valid(2)]) (simp add: sample_request_valid)

lemma prompt_scan_eq: "prompt_scan (n, b) vs = (n + length vs, b \<or> ''none'' \<in> set vs)"
  by (induction vs arbitrary: n b) auto

lemma validate_prompt_none:
  "validate_prompt r = Inr () \<longleftrightarrow>
     (has_prompt r ''none'' \<longrightarrow> (\<exists>p. ar_prompt r = Some p \<and> prompt_values p = [''none'']))"
proof (cases "ar_prompt r")
  case (Some p)
  have "''none'' \<in> set (prompt_values p) \<Longrightarrow> length (prompt_values p) = 1 \<longleftrightarrow> prompt_values p = [''none'']"
    by (cases "prompt_values p") auto
  with Some show ?thesis
    by (auto simp: validate_prompt_def has_prompt_def prompt_scan_eq)
qed (simp add: validate_prompt_def has_prompt_def)

section \<open>Parsing\<close>

lemma from_pairs_loop_collect:
  "from_pairs_loop unique resources ps =
     res_bind (collect_unique map_of bt_insert
         (\<lambda>n. invalid_request (''duplicate authorization parameter: '' @ n)) unique
         (filter (\<lambda>(n, _). n \<noteq> ''resource'') ps))
       (\<lambda>u. Inr (u, resources @ map snd (filter (\<lambda>(n, _). n = ''resource'') ps)))"
proof (induction unique resources ps rule: from_pairs_loop.induct)
  case (2 unique resources name val ps)
  then show ?case
    by (cases "insert_unique map_of bt_insert
        (\<lambda>n. invalid_request (''duplicate authorization parameter: '' @ n)) name val unique") auto
qed simp

lemma from_params_ok:
  assumes "from_params P u = Inr r"
  shows "map_of u ''client_id'' = Some (ar_client_id r)"
    and "map_of u ''redirect_uri'' = Some (ar_redirect_uri r)"
    and "map_of u ''response_type'' = Some (ar_response_type r)"
    and "ar_state r = map_of u ''state''"
    and "ar_nonce r = map_of u ''nonce''"
    and "ar_code_challenge r = map_of u ''code_challenge''"
    and "ar_code_challenge_method r = map_of u ''code_challenge_method''"
    and "ar_response_mode r = map_of u ''response_mode''"
    and "\<forall>s. ar_state r = Some s \<longrightarrow> is_valid_state s"
    and "ar_extra r = filter (\<lambda>(k, _). k \<notin> set known_params) u"
proof -
  obtain c t d where
    eqs: "map_of u ''client_id'' = Some c" "map_of u ''response_type'' = Some t"
      "map_of u ''redirect_uri'' = Some d"
    using assms by (auto simp: from_params_def res_bind_eq_Inr ok_or_eq_Inr)
  have st: "\<not> (case map_of u ''state'' of Some state \<Rightarrow> \<not> is_valid_state state | None \<Rightarrow> False)"
    using assms by (auto simp: from_params_def eqs Let_def)
  then show "map_of u ''client_id'' = Some (ar_client_id r)"
    and "map_of u ''redirect_uri'' = Some (ar_redirect_uri r)"
    and "map_of u ''response_type'' = Some (ar_response_type r)"
    and "ar_state r = map_of u ''state''"
    and "ar_nonce r = map_of u ''nonce''"
    and "ar_code_challenge r = map_of u ''code_challenge''"
    and "ar_code_challenge_method r = map_of u ''code_challenge_method''"
    and "ar_response_mode r = map_of u ''response_mode''"
    and "ar_extra r = filter (\<lambda>(k, _). k \<notin> set known_params) u"
    using assms unfolding from_params_def eqs Let_def
    by (clarsimp simp: res_bind_eq_Inr)+
  then show "\<forall>s. ar_state r = Some s \<longrightarrow> is_valid_state s"
    using st by (auto split: option.splits)
qed

text \<open>
  A successful parse of an authorization request read each parameter exactly as sent: no name
  but \<^verbatim>\<open>resource\<close> occurs twice, every field is the value of its parameter, repeated resources are
  kept in order, and unknown parameters are preserved.
\<close>

theorem from_pairs_faithful:
  assumes "from_pairs P ps = Inr r"
  shows "distinct (map fst (filter (\<lambda>(n, _). n \<noteq> ''resource'') ps)) \<and>
    map_of ps ''client_id'' = Some (ar_client_id r) \<and>
    map_of ps ''redirect_uri'' = Some (ar_redirect_uri r) \<and>
    map_of ps ''response_type'' = Some (ar_response_type r) \<and>
    ar_state r = map_of ps ''state'' \<and> ar_nonce r = map_of ps ''nonce'' \<and>
    ar_code_challenge r = map_of ps ''code_challenge'' \<and>
    ar_code_challenge_method r = map_of ps ''code_challenge_method'' \<and>
    ar_response_mode r = map_of ps ''response_mode'' \<and>
    (\<forall>s. ar_state r = Some s \<longrightarrow> is_valid_state s) \<and>
    ar_resources r = map snd (filter (\<lambda>(n, _). n = ''resource'') ps) \<and>
    (\<forall>k. k \<notin> set known_params \<longrightarrow> map_of (ar_extra r) k = map_of ps k)"
proof -
  let ?err = "\<lambda>n. invalid_request (''duplicate authorization parameter: '' @ n)"
  let ?qs = "filter (\<lambda>(n, _). n \<noteq> ''resource'') ps"
  from assms obtain u q where u: "collect_unique map_of bt_insert ?err [] ?qs = Inr u"
    and q: "from_params P u = Inr q"
    and r: "r = q\<lparr>ar_resources := map snd (filter (\<lambda>(n, _). n = ''resource'') ps)\<rparr>"
    by (auto simp: from_pairs_def from_pairs_loop_collect res_bind_eq_Inr)
  have get: "map_of u k = map_of ps k" if "k \<noteq> ''resource''" for k
    using that btmap.collect_get(2) [OF u, of k] by (simp add: map_of_filter_key)
  have known: "''resource'' \<in> set known_params" by (simp add: known_params_def)
  have extra: "map_of (filter (\<lambda>(k, _). k \<notin> set known_params) u) k = map_of ps k"
    if "k \<notin> set known_params" for k
    using that get [of k] known by (auto simp: map_of_filter_key)
  note ok = from_params_ok [OF q]
  show ?thesis
    using btmap.collect_get(1) [OF u] ok extra by (simp add: r get)
qed

theorem from_pairs_faithful_witness:
  "map_of sample_pairs ''client_id'' = Some ''rp'' \<and> [''a'', ''b''] = map snd (filter (\<lambda>(n, _). n = ''resource'') sample_pairs)"
  using from_pairs_faithful [OF sample_request_parses] by (simp add: sample_request_def)

end
