(* ===== verification/Client.thy ===== *)
theory Client
  imports Request
begin

text \<open>
  \<^verbatim>\<open>src/client.rs\<close>: client registrations and the in-memory client store with optional expiry.  The
  trait \<^verbatim>\<open>ClientStore\<close> is the locale \<open>client_store\<close>; \<^verbatim>\<open>InMemoryClientStore\<close> interprets it.  The time
  an operation reads is its argument \<open>now\<close>.
\<close>

abbreviation AUTH_NONE :: string where
  "AUTH_NONE \<equiv> ''none''"

abbreviation AUTH_CLIENT_SECRET_BASIC :: string where
  "AUTH_CLIENT_SECRET_BASIC \<equiv> ''client_secret_basic''"

abbreviation AUTH_CLIENT_SECRET_POST :: string where
  "AUTH_CLIENT_SECRET_POST \<equiv> ''client_secret_post''"

abbreviation AUTH_PRIVATE_KEY_JWT :: string where
  "AUTH_PRIVATE_KEY_JWT \<equiv> ''private_key_jwt''"

record client =
  cl_client_id :: string
  cl_client_secret :: "string option"
  cl_redirect_uris :: "string list"
  cl_response_types :: "string list"
  cl_grant_types :: "string list"
  cl_token_endpoint_auth_method :: string
  cl_jwks :: "jwk_set option"
  cl_scope :: "string option"
  cl_subject_type :: string
  cl_client_name :: "string option"

definition default_response_types :: "string list" where
  "default_response_types = [''code'']"

definition default_grant_types :: "string list" where
  "default_grant_types = [''authorization_code'']"

definition default_auth_method :: string where
  "default_auth_method = AUTH_CLIENT_SECRET_BASIC"

definition default_subject_type :: string where
  "default_subject_type = ''public''"

definition allows_redirect :: "client \<Rightarrow> string \<Rightarrow> bool" where
  "allows_redirect c uri \<longleftrightarrow> uri \<in> set (cl_redirect_uris c)"

definition allows_response_type :: "client \<Rightarrow> string \<Rightarrow> bool" where
  "allows_response_type c rt = list_ex (\<lambda>registered. response_type_eq registered rt) (cl_response_types c)"

section \<open>The in-memory store\<close>

record client_entry =
  ce_client :: client
  ce_expires_at :: "u64 option"

record client_map =
  cm_poisoned :: bool
  cm_inner :: "string \<rightharpoonup> client_entry"

definition client_map_new :: client_map where
  "client_map_new = \<lparr>cm_poisoned = False, cm_inner = Map.empty\<rparr>"

fun insert_clients :: "(string \<rightharpoonup> client_entry) \<Rightarrow> client list \<Rightarrow> (string \<rightharpoonup> client_entry)" where
  "insert_clients g [] = g"
| "insert_clients g (c # cs) =
     insert_clients (g(cl_client_id c \<mapsto> \<lparr>ce_client = c, ce_expires_at = None\<rparr>)) cs"

definition with_clients :: "client list \<Rightarrow> client_map" where
  "with_clients clients = client_map_new\<lparr>cm_inner := insert_clients (cm_inner client_map_new) clients\<rparr>"

definition live :: "u64 \<Rightarrow> client_entry \<Rightarrow> bool" where
  "live now e = (case ce_expires_at e of Some exp \<Rightarrow> now < exp | None \<Rightarrow> True)"

definition client_map_get :: "u64 \<Rightarrow> string \<Rightarrow> client_map \<Rightarrow> client option \<times> client_map" where
  "client_map_get now client_id s =
     (if cm_poisoned s then (None, s)
      else case cm_inner s client_id of
        None \<Rightarrow> (None, s)
      | Some entry \<Rightarrow>
          (case ce_expires_at entry of
             Some exp \<Rightarrow>
               if exp \<le> now then (None, s\<lparr>cm_inner := (cm_inner s)(client_id := None)\<rparr>)
               else (Some (ce_client entry), s)
           | None \<Rightarrow> (Some (ce_client entry), s)))"

definition client_map_put :: "client \<Rightarrow> client_map \<Rightarrow> client_map" where
  "client_map_put c s =
     (if cm_poisoned s then s
      else s\<lparr>cm_inner := (cm_inner s)(cl_client_id c \<mapsto> \<lparr>ce_client = c, ce_expires_at = None\<rparr>)\<rparr>)"

definition retain :: "('v \<Rightarrow> bool) \<Rightarrow> (string \<rightharpoonup> 'v) \<Rightarrow> (string \<rightharpoonup> 'v)" where
  "retain p m = (\<lambda>k. case m k of Some v \<Rightarrow> if p v then Some v else None | None \<Rightarrow> None)"

definition client_map_put_with_ttl :: "u64 \<Rightarrow> client \<Rightarrow> u64 \<Rightarrow> client_map \<Rightarrow> client_map" where
  "client_map_put_with_ttl now c ttl s =
     (if cm_poisoned s then s
      else s\<lparr>cm_inner := (retain (live now) (cm_inner s))
               (cl_client_id c \<mapsto> \<lparr>ce_client = c, ce_expires_at = Some (now + ttl)\<rparr>)\<rparr>)"

text \<open>The default of the trait for a store that only implements \<^verbatim>\<open>put\<close>: the lifetime is ignored.\<close>

definition default_put_with_ttl :: "(client \<Rightarrow> 's \<Rightarrow> 's) \<Rightarrow> client \<Rightarrow> u64 \<Rightarrow> 's \<Rightarrow> 's" where
  "default_put_with_ttl put client ttl = put client"

lemma retain_Some: "retain p m k = Some v \<longleftrightarrow> m k = Some v \<and> p v"
  by (auto simp: retain_def split: option.splits)

section \<open>The interface\<close>

text \<open>
  \<open>registered s now\<close> is what the store answers at time \<open>now\<close>.  An operation at time \<open>now\<close> may
  forget registrations that have ended by then, never later ones.
\<close>

locale client_store =
  fixes get :: "u64 \<Rightarrow> string \<Rightarrow> 's \<Rightarrow> client option \<times> 's"
    and put :: "client \<Rightarrow> 's \<Rightarrow> 's"
    and put_with_ttl :: "u64 \<Rightarrow> client \<Rightarrow> u64 \<Rightarrow> 's \<Rightarrow> 's"
    and registered :: "'s \<Rightarrow> u64 \<Rightarrow> string \<Rightarrow> client option"
    and usable :: "'s \<Rightarrow> bool"
  assumes get_registered: "fst (get now cid s) = registered s now cid"
    and get_keeps: "now \<le> t \<Longrightarrow> registered (snd (get now cid s)) t = registered s t"
    and get_usable: "usable s \<Longrightarrow> usable (snd (get now cid s))"
    and put_registered:
      "usable s \<Longrightarrow> registered (put c s) t = (registered s t)(cl_client_id c \<mapsto> c)"
    and put_usable: "usable s \<Longrightarrow> usable (put c s)"
    and put_ttl_registered:
      "usable s \<Longrightarrow> now \<le> t \<Longrightarrow>
         registered (put_with_ttl now c ttl s) t =
           (registered s t)(cl_client_id c := if t < now + ttl then Some c else None)"
    and put_ttl_usable: "usable s \<Longrightarrow> usable (put_with_ttl now c ttl s)"
begin

text \<open>A registration with a lifetime is answered until it ends and not after.\<close>

lemma ttl_window:
  assumes "usable s" and "now \<le> t1" and "t1 \<le> t2"
  shows "fst (get t2 (cl_client_id c) (snd (get t1 cid' (put_with_ttl now c ttl s)))) =
    (if t2 < now + ttl then Some c else None)"
  using assms by (simp add: get_registered get_keeps put_ttl_registered)

text \<open>A lookup is stable: looking up any client earlier does not change a later answer.\<close>

lemma get_get: "t1 \<le> t2 \<Longrightarrow> fst (get t2 cid (snd (get t1 cid' s))) = fst (get t2 cid s)"
  by (simp add: get_registered get_keeps)

end

definition map_registered :: "client_map \<Rightarrow> u64 \<Rightarrow> string \<Rightarrow> client option" where
  "map_registered s now cid =
     (if cm_poisoned s then None
      else case cm_inner s cid of
        Some e \<Rightarrow> if live now e then Some (ce_client e) else None | None \<Rightarrow> None)"

definition map_usable :: "client_map \<Rightarrow> bool" where
  "map_usable s \<longleftrightarrow> \<not> cm_poisoned s"

lemma live_mono: "now \<le> t \<Longrightarrow> live t e \<Longrightarrow> live now e"
  by (auto simp: live_def split: option.splits)

lemma client_map_get_eq: "fst (client_map_get now cid s) = map_registered s now cid"
  by (auto simp: client_map_get_def map_registered_def live_def split: option.splits)

lemma client_map_get_keeps:
  "now \<le> t \<Longrightarrow> map_registered (snd (client_map_get now cid s)) t = map_registered s t"
  by (auto simp: client_map_get_def map_registered_def live_def fun_eq_iff
      split: option.splits)

lemma client_map_put_ttl_registered:
  assumes "map_usable s" and "now \<le> t"
  shows "map_registered (client_map_put_with_ttl now c ttl s) t =
    (map_registered s t)(cl_client_id c := if t < now + ttl then Some c else None)"
proof
  fix cid
  have "retain (live now) (cm_inner s) cid = (case cm_inner s cid of
      Some e \<Rightarrow> if live now e then Some e else None | None \<Rightarrow> None)"
    by (simp add: retain_def)
  then show "map_registered (client_map_put_with_ttl now c ttl s) t cid =
      ((map_registered s t)(cl_client_id c := if t < now + ttl then Some c else None)) cid"
    using assms live_mono [OF assms(2)]
    by (auto simp: client_map_put_with_ttl_def map_registered_def map_usable_def
        live_def [of t "\<lparr>ce_client = c, ce_expires_at = Some (now + ttl)\<rparr>"] split: option.splits)
qed

interpretation memclients: client_store client_map_get client_map_put client_map_put_with_ttl
  map_registered map_usable
proof unfold_locales
  fix s :: client_map and now t ttl :: u64 and c :: client and cid :: string
  show "fst (client_map_get now cid s) = map_registered s now cid" by (rule client_map_get_eq)
  show "now \<le> t \<Longrightarrow> map_registered (snd (client_map_get now cid s)) t = map_registered s t"
    by (rule client_map_get_keeps)
  show "map_usable s \<Longrightarrow> map_usable (snd (client_map_get now cid s))"
    by (auto simp: map_usable_def client_map_get_def split: option.splits)
  show "map_usable s \<Longrightarrow> map_registered (client_map_put c s) t = (map_registered s t)(cl_client_id c \<mapsto> c)"
    by (auto simp: map_registered_def map_usable_def client_map_put_def live_def fun_eq_iff)
  show "map_usable s \<Longrightarrow> map_usable (client_map_put c s)"
    by (simp add: map_usable_def client_map_put_def)
  show "map_usable s \<Longrightarrow> now \<le> t \<Longrightarrow> map_registered (client_map_put_with_ttl now c ttl s) t =
      (map_registered s t)(cl_client_id c := if t < now + ttl then Some c else None)"
    by (rule client_map_put_ttl_registered)
  show "map_usable s \<Longrightarrow> map_usable (client_map_put_with_ttl now c ttl s)"
    by (simp add: map_usable_def client_map_put_with_ttl_def)
qed

section \<open>Entries are stored under their own id\<close>

definition client_map_ok :: "client_map \<Rightarrow> bool" where
  "client_map_ok s \<longleftrightarrow> (\<forall>cid e. cm_inner s cid = Some e \<longrightarrow> cl_client_id (ce_client e) = cid)"

lemma client_map_ok_new: "client_map_ok client_map_new"
  by (simp add: client_map_ok_def client_map_new_def)

lemma client_map_ok_get: "client_map_ok s \<Longrightarrow> client_map_ok (snd (client_map_get now cid s))"
  by (auto simp: client_map_ok_def client_map_get_def split: option.splits if_splits)

lemma client_map_ok_put: "client_map_ok s \<Longrightarrow> client_map_ok (client_map_put c s)"
  by (auto simp: client_map_ok_def client_map_put_def split: if_splits)

lemma client_map_ok_put_with_ttl:
  "client_map_ok s \<Longrightarrow> client_map_ok (client_map_put_with_ttl now c ttl s)"
  by (auto simp: client_map_ok_def client_map_put_with_ttl_def retain_Some split: if_splits)

lemma insert_clients_keyed:
  "\<forall>k e. g k = Some e \<longrightarrow> cl_client_id (ce_client e) = k \<Longrightarrow>
     insert_clients g cs k = Some e \<Longrightarrow> cl_client_id (ce_client e) = k"
proof (induction cs arbitrary: g)
  case (Cons c cs)
  let ?g = "g(cl_client_id c \<mapsto> \<lparr>ce_client = c, ce_expires_at = None\<rparr>)"
  have "\<forall>k e. ?g k = Some e \<longrightarrow> cl_client_id (ce_client e) = k" using Cons.prems(1) by simp
  moreover have "insert_clients ?g cs k = Some e" using Cons.prems(2) by (simp only: insert_clients.simps)
  ultimately show ?case by (rule Cons.IH)
qed simp

lemma client_map_ok_with_clients: "client_map_ok (with_clients cs)"
  using insert_clients_keyed [of Map.empty cs]
  by (simp add: client_map_ok_def with_clients_def client_map_new_def)

lemma client_map_get_id:
  "client_map_ok s \<Longrightarrow> fst (client_map_get now cid s) = Some c \<Longrightarrow> cl_client_id c = cid"
  by (auto simp: client_map_ok_def client_map_get_eq map_registered_def split: option.splits if_splits)

text \<open>
  In the in-memory client store a registration put with a lifetime is found, under its own id,
  at every time before \<open>now + ttl\<close> and at no time from then on, however many lookups (each of which
  may drop expired entries) happened in between; another client's registration is not affected.
\<close>

theorem client_registration_window:
  assumes "\<not> cm_poisoned s" and "now \<le> t1" and "t1 \<le> t2"
  shows "fst (client_map_get t2 (cl_client_id c)
      (snd (client_map_get t1 cid' (client_map_put_with_ttl now c ttl s)))) =
      (if t2 < now + ttl then Some c else None) \<and>
    (cid \<noteq> cl_client_id c \<longrightarrow>
      fst (client_map_get t2 cid (client_map_put_with_ttl now c ttl s)) = fst (client_map_get t2 cid s))"
proof
  have u: "map_usable s" using assms(1) by (simp add: map_usable_def)
  show "fst (client_map_get t2 (cl_client_id c)
      (snd (client_map_get t1 cid' (client_map_put_with_ttl now c ttl s)))) =
      (if t2 < now + ttl then Some c else None)"
    using u assms(2,3) by (rule memclients.ttl_window)
  have "now \<le> t2" using assms(2,3) by simp
  then show "cid \<noteq> cl_client_id c \<longrightarrow>
      fst (client_map_get t2 cid (client_map_put_with_ttl now c ttl s)) = fst (client_map_get t2 cid s)"
    using u by (simp add: memclients.get_registered memclients.put_ttl_registered)
qed

definition sample_client :: client where
  "sample_client = \<lparr>cl_client_id = ''rp'', cl_client_secret = Some ''s3cret'',
     cl_redirect_uris = [''https://rp.example/cb''], cl_response_types = [''code''],
     cl_grant_types = [''authorization_code'', ''refresh_token''],
     cl_token_endpoint_auth_method = ''client_secret_basic'', cl_jwks = None, cl_scope = None,
     cl_subject_type = ''public'', cl_client_name = None\<rparr>"

theorem client_registration_window_witness:
  "fst (client_map_get 150 ''rp'' (snd (client_map_get 120 ''x''
      (client_map_put_with_ttl 100 sample_client 60 client_map_new)))) = Some sample_client"
  using client_registration_window [of client_map_new 100 120 150 sample_client "''x''" 60 "''y''"]
  by (simp add: client_map_new_def sample_client_def)

end
