(* ===== verification/Token_Use_Store.thy ===== *)
theory Token_Use_Store
  imports Client
begin

text \<open>
  The one-time-use stores of \<^verbatim>\<open>src/provider.rs\<close>.  The trait \<^verbatim>\<open>TokenUseStore\<close> is the locale
  \<open>token_use_store\<close>, \<^verbatim>\<open>InMemoryTokenUseStore\<close> its interpretation, with the time each call reads as an
  argument.  The Redis store is given by the reply of the server to \<^verbatim>\<open>SET key 1 EX ttl NX\<close>.
\<close>

section \<open>The in-memory store\<close>

record token_use_inner =
  tu_poisoned :: bool
  tu_entries :: "string \<rightharpoonup> u64"
  tu_next_purge :: u64

definition token_use_new :: token_use_inner where
  "token_use_new = \<lparr>tu_poisoned = False, tu_entries = Map.empty, tu_next_purge = 0\<rparr>"

definition purge_interval :: u64 where
  "purge_interval = 60"

definition purge :: "u64 \<Rightarrow> token_use_inner \<Rightarrow> token_use_inner" where
  "purge now g =
     (if tu_next_purge g \<le> now
      then g\<lparr>tu_entries := retain (\<lambda>exp. now < exp) (tu_entries g), tu_next_purge := now + purge_interval\<rparr>
      else g)"

definition mem_consume ::
    "u64 \<Rightarrow> string \<Rightarrow> u64 \<Rightarrow> token_use_inner \<Rightarrow> (string, bool) result \<times> token_use_inner" where
  "mem_consume now token_hash ttl_secs s =
     (if tu_poisoned s then (Inl ''token-use store lock poisoned'', s)
      else
        let g = purge now s
        in if (case tu_entries g token_hash of Some exp \<Rightarrow> now < exp | None \<Rightarrow> False)
           then (Inr False, g)
           else (Inr True, g\<lparr>tu_entries := (tu_entries g)(token_hash \<mapsto> now + max ttl_secs 1)\<rparr>))"

section \<open>The Redis store\<close>

datatype redis_value = Okay | SimpleString string | Nil_reply | OtherReply string

definition redis_key :: "string \<Rightarrow> string \<Rightarrow> string" where
  "redis_key key_prefix token_hash = key_prefix @ token_hash"

definition redis_default_key_prefix :: string where
  "redis_default_key_prefix = ''grindvakt:token-use:''"

text \<open>\<open>error_text\<close> is the display text the \<^verbatim>\<open>redis\<close> crate gives an unexpected reply.\<close>

fun redis_reply :: "(redis_value \<Rightarrow> string) \<Rightarrow> redis_value \<Rightarrow> (string, bool) result" where
  "redis_reply error_text Okay = Inr True"
| "redis_reply error_text (SimpleString s) =
     (if eq_ignore_ascii_case s ''OK'' then Inr True
      else Inl (error_text (SimpleString s)))"
| "redis_reply error_text Nil_reply = Inr False"
| "redis_reply error_text (OtherReply v) = Inl (error_text (OtherReply v))"

definition redis_consume ::
    "(redis_value \<Rightarrow> string) \<Rightarrow> (string \<Rightarrow> u64 \<Rightarrow> ('w, string, redis_value) prog) \<Rightarrow> string \<Rightarrow>
     string \<Rightarrow> u64 \<Rightarrow> ('w, string, bool) prog" where
  "redis_consume error_text set_ex_nx key_prefix token_hash ttl_secs =
     bindP (set_ex_nx (redis_key key_prefix token_hash) (max ttl_secs 1)) (\<lambda>response.
     liftR (redis_reply error_text response))"

section \<open>The interface\<close>

text \<open>
  \<open>held s h t\<close>: the store refuses \<open>h\<close> at every time before \<open>t\<close>.  A successful call holds its
  token for its lifetime; no call before \<open>t\<close> releases it.
\<close>

type_synonym consume_call = "u64 \<times> string \<times> u64"

abbreviation call_time :: "consume_call \<Rightarrow> u64" where
  "call_time c \<equiv> fst c"

abbreviation call_hash :: "consume_call \<Rightarrow> string" where
  "call_hash c \<equiv> fst (snd c)"

fun consume_run ::
    "(u64 \<Rightarrow> string \<Rightarrow> u64 \<Rightarrow> 's \<Rightarrow> (string, bool) result \<times> 's) \<Rightarrow> consume_call list \<Rightarrow> 's \<Rightarrow>
     (string, bool) result list \<times> 's" where
  "consume_run consume [] s = ([], s)"
| "consume_run consume ((now, h, ttl) # calls) s =
     (let (r, s1) = consume now h ttl s; (rs, s2) = consume_run consume calls s1 in (r # rs, s2))"

definition deadline :: "u64 \<Rightarrow> u64 \<Rightarrow> nat" where
  "deadline now ttl = unat now + max 1 (unat ttl)"

locale token_use_store =
  fixes consume :: "u64 \<Rightarrow> string \<Rightarrow> u64 \<Rightarrow> 's \<Rightarrow> (string, bool) result \<times> 's"
    and held :: "'s \<Rightarrow> string \<Rightarrow> nat \<Rightarrow> bool"
  assumes consume_holds:
      "consume now h ttl s = (Inr True, s') \<Longrightarrow> deadline now ttl < 2 ^ 64 \<Longrightarrow> held s' h (deadline now ttl)"
    and held_refused: "held s h t \<Longrightarrow> unat now < t \<Longrightarrow> fst (consume now h ttl s) \<noteq> Inr True"
    and held_kept: "held s h t \<Longrightarrow> unat now < t \<Longrightarrow> held (snd (consume now h' ttl s)) h t"
begin

lemma run_keeps_held:
  "held s h t \<Longrightarrow> \<forall>c \<in> set calls. unat (call_time c) < t \<Longrightarrow> held (snd (consume_run consume calls s)) h t"
proof (induction calls arbitrary: s)
  case Nil
  then show ?case by simp
next
  case (Cons c calls)
  obtain now h' ttl where c: "c = (now, h', ttl)" by (cases c)
  have "held (snd (consume now h' ttl s)) h t" using Cons.prems by (simp add: c held_kept)
  then have "held (snd (consume_run consume calls (snd (consume now h' ttl s)))) h t"
    using Cons.prems by (intro Cons.IH) auto
  then show ?case by (simp add: c case_prod_beta Let_def)
qed

lemma run_refuses:
  "held s h t \<Longrightarrow> \<forall>c \<in> set calls. unat (call_time c) < t \<Longrightarrow>
     i < length calls \<Longrightarrow> call_hash (calls ! i) = h \<Longrightarrow> fst (consume_run consume calls s) ! i \<noteq> Inr True"
proof (induction calls arbitrary: s i)
  case Nil
  then show ?case by simp
next
  case (Cons c calls)
  obtain now h' ttl where c: "c = (now, h', ttl)" by (cases c)
  have kept: "held (snd (consume now h' ttl s)) h t" using Cons.prems by (simp add: c held_kept)
  show ?case
  proof (cases i)
    case 0
    with Cons.prems show ?thesis by (simp add: c case_prod_beta Let_def held_refused)
  next
    case (Suc j)
    then have "fst (consume_run consume calls (snd (consume now h' ttl s))) ! j \<noteq> Inr True"
      using Cons.prems kept by (intro Cons.IH) auto
    then show ?thesis by (simp add: c Suc case_prod_beta Let_def)
  qed
qed

lemma at_most_once:
  assumes run: "consume_run consume ((now, h, ttl) # calls) s = (Inr True # rs, s')"
    and fits: "deadline now ttl < 2 ^ 64"
    and times: "\<forall>c \<in> set calls. unat (call_time c) < deadline now ttl"
    and i: "i < length calls" "call_hash (calls ! i) = h"
  shows "rs ! i \<noteq> Inr True"
proof -
  obtain s1 where c: "consume now h ttl s = (Inr True, s1)" and rs: "rs = fst (consume_run consume calls s1)"
    using run by (auto split: prod.splits)
  from c fits have "held s1 h (deadline now ttl)" by (rule consume_holds)
  then show ?thesis unfolding rs using times i by (rule run_refuses)
qed

end

definition mem_held :: "token_use_inner \<Rightarrow> string \<Rightarrow> nat \<Rightarrow> bool" where
  "mem_held s h t \<longleftrightarrow> tu_poisoned s \<or> (\<exists>exp. tu_entries s h = Some exp \<and> t \<le> unat exp)"

lemma purge_entries:
  "tu_entries (purge now s) h = Some e \<longleftrightarrow>
     tu_entries s h = Some e \<and> (tu_next_purge s \<le> now \<longrightarrow> now < e)"
  by (auto simp: purge_def retain_Some)

lemma purge_poisoned [simp]: "tu_poisoned (purge now s) = tu_poisoned s"
  by (simp add: purge_def)

lemma unat_deadline: "deadline now ttl < 2 ^ 64 \<Longrightarrow> unat (now + max ttl 1) = deadline now ttl"
  unfolding deadline_def by (subst unat_add_no_wrap) (simp_all add: unat_max_one max.commute [of _ "1::nat"] del: max.commute)

lemma mem_consume_holds:
  "mem_consume now h ttl s = (Inr True, s') \<Longrightarrow> deadline now ttl < 2 ^ 64 \<Longrightarrow>
     mem_held s' h (deadline now ttl)"
  by (auto simp: mem_consume_def mem_held_def Let_def unat_deadline split: if_splits)

lemma mem_held_refused:
  assumes "mem_held s h t" and "unat now < t"
  shows "fst (mem_consume now h ttl s) \<noteq> Inr True"
proof (cases "tu_poisoned s")
  case False
  with assms obtain e where e: "tu_entries s h = Some e" "now < e"
    by (auto simp: mem_held_def word_less_nat_alt)
  then have "tu_entries (purge now s) h = Some e" by (simp add: purge_entries)
  with e False show ?thesis by (simp add: mem_consume_def Let_def)
qed (simp add: mem_consume_def)

lemma mem_held_kept:
  assumes "mem_held s h t" and "unat now < t"
  shows "mem_held (snd (mem_consume now h' ttl s)) h t"
proof (cases "tu_poisoned s")
  case False
  with assms obtain e where e: "tu_entries s h = Some e" "now < e" "t \<le> unat e"
    by (auto simp: mem_held_def word_less_nat_alt)
  then have p: "tu_entries (purge now s) h = Some e" by (simp add: purge_entries)
  show ?thesis
  proof (cases "h' = h")
    case True
    with p e False show ?thesis by (auto simp: mem_consume_def mem_held_def Let_def)
  next
    case False
    with p e \<open>\<not> tu_poisoned s\<close> show ?thesis by (auto simp: mem_consume_def mem_held_def Let_def)
  qed
qed (simp add: mem_consume_def mem_held_def)

interpretation memuse: token_use_store mem_consume mem_held
  by unfold_locales (fact mem_consume_holds mem_held_refused mem_held_kept)+

section \<open>The sweep is invisible\<close>

text \<open>The specification: the same store without a sweep.\<close>

definition spec_consume ::
    "u64 \<Rightarrow> string \<Rightarrow> u64 \<Rightarrow> (string \<rightharpoonup> u64) \<Rightarrow> (string, bool) result \<times> (string \<rightharpoonup> u64)" where
  "spec_consume now h ttl m =
     (if (case m h of Some exp \<Rightarrow> now < exp | None \<Rightarrow> False) then (Inr False, m)
      else (Inr True, m(h \<mapsto> now + max ttl 1)))"

definition agrees :: "u64 \<Rightarrow> token_use_inner \<Rightarrow> (string \<rightharpoonup> u64) \<Rightarrow> bool" where
  "agrees now s m \<longleftrightarrow> \<not> tu_poisoned s \<and>
     (\<forall>h e. now < e \<longrightarrow> (tu_entries s h = Some e \<longleftrightarrow> m h = Some e))"

lemma agrees_later: "agrees now s m \<Longrightarrow> now \<le> t \<Longrightarrow> agrees t s m"
  by (auto simp: agrees_def)

lemma agrees_purge: "agrees now s m \<Longrightarrow> agrees now (purge now s) m"
  by (auto simp: agrees_def purge_entries)

lemma agrees_live:
  "agrees now s m \<Longrightarrow> (case tu_entries s h of Some exp \<Rightarrow> now < exp | None \<Rightarrow> False) =
     (case m h of Some exp \<Rightarrow> now < exp | None \<Rightarrow> False)"
  by (auto simp: agrees_def split: option.splits) (metis option.inject option.distinct(1))+

lemma mem_consume_refines:
  assumes "agrees now s m"
  shows "fst (mem_consume now h ttl s) = fst (spec_consume now h ttl m)"
    and "agrees now (snd (mem_consume now h ttl s)) (snd (spec_consume now h ttl m))"
proof -
  note p = agrees_purge [OF assms]
  note l = agrees_live [OF p, of h]
  have np: "\<not> tu_poisoned s" using assms by (simp add: agrees_def)
  show "fst (mem_consume now h ttl s) = fst (spec_consume now h ttl m)"
    using np l by (simp add: mem_consume_def spec_consume_def Let_def)
  show "agrees now (snd (mem_consume now h ttl s)) (snd (spec_consume now h ttl m))"
    using np l p by (auto simp: mem_consume_def spec_consume_def Let_def agrees_def)
qed

lemma run_refines:
  "agrees now s m \<Longrightarrow> sorted (now # List.map fst calls) \<Longrightarrow>
     fst (consume_run mem_consume calls s) = fst (consume_run spec_consume calls m)"
proof (induction calls arbitrary: now s m)
  case Nil
  then show ?case by simp
next
  case (Cons c calls)
  obtain t h ttl where c: "c = (t, h, ttl)" by (cases c)
  have "agrees t s m" using Cons.prems by (auto simp: c intro: agrees_later)
  note step = mem_consume_refines [OF this, of h ttl]
  have "fst (consume_run mem_consume calls (snd (mem_consume t h ttl s))) =
      fst (consume_run spec_consume calls (snd (spec_consume t h ttl m)))"
    using Cons.prems step(2) by (intro Cons.IH [of t]) (auto simp: c)
  then show ?case by (simp add: c case_prod_beta Let_def step(1))
qed

text \<open>
  The in-memory store consumes a token at most once: after a call that answered \<^verbatim>\<open>Ok(true)\<close> at
  second \<open>now\<close> for lifetime \<open>ttl\<close>, in whatever sequence of further calls, for whatever tokens, no
  call for the same token before \<open>now + max(1, ttl)\<close> answers \<^verbatim>\<open>Ok(true)\<close> again, even though the
  sweep removes entries in between.
\<close>

theorem token_use_at_most_once:
  assumes "consume_run mem_consume ((now, h, ttl) # calls) s = (Inr True # rs, s')"
    and "deadline now ttl < 2 ^ 64"
    and "\<forall>c \<in> set calls. unat (call_time c) < deadline now ttl"
    and "i < length calls" and "call_hash (calls ! i) = h"
  shows "rs ! i \<noteq> Inr True"
  using assms by (rule memuse.at_most_once)

theorem token_use_at_most_once_witness:
  "[Inr True, Inr False] ! 1 \<noteq> (Inr True :: (string, bool) result)"
  by (rule token_use_at_most_once [where now = 10 and h = "''a''" and ttl = 30 and s = token_use_new and
        calls = "[(11, ''b'', 5), (39, ''a'', 5)]"
        and s' = "snd (consume_run mem_consume [(10, ''a'', 30), (11, ''b'', 5), (39, ''a'', 5)] token_use_new)"])
    (simp_all add: mem_consume_def token_use_new_def purge_def purge_interval_def retain_def deadline_def max_def word_le_nat_alt)

text \<open>
  The expiry sweep is invisible: on a clock that does not go backwards every sequence of calls to
  the in-memory store, which drops expired entries at most once a minute, gets exactly the answers of
  a store that never forgets an entry.
\<close>

theorem token_use_sweep_invisible:
  assumes "sorted (List.map fst calls)"
  shows "fst (consume_run mem_consume calls token_use_new) = fst (consume_run spec_consume calls Map.empty)"
  using assms by (intro run_refines [of 0]) (auto simp: agrees_def token_use_new_def)

theorem token_use_sweep_invisible_witness:
  "fst (consume_run mem_consume [(10, ''a'', 30), (80, ''b'', 5), (90, ''a'', 1)] token_use_new) =
   fst (consume_run spec_consume [(10, ''a'', 30), (80, ''b'', 5), (90, ''a'', 1)] Map.empty)"
  by (rule token_use_sweep_invisible) simp

section \<open>What the sweep leaves\<close>

text \<open>
  \<open>swept now s\<close>: as of the last call, at second \<open>now\<close>, the next sweep is due within a minute and every entry is younger than
  that.
\<close>

definition swept :: "u64 \<Rightarrow> token_use_inner \<Rightarrow> bool" where
  "swept now s \<longleftrightarrow> unat (tu_next_purge s) \<le> unat now + 60 \<and>
     (\<forall>h e. tu_entries s h = Some e \<longrightarrow> unat (tu_next_purge s) < unat e + 60)"

lemma swept_later: "swept now s \<Longrightarrow> now \<le> t \<Longrightarrow> swept t s"
  by (auto simp: swept_def word_le_nat_alt)

lemma unat_add_interval: "unat (now + purge_interval) = unat now + 60" if "unat now < 2 ^ 63"
  using that by (simp add: purge_interval_def unat_add_no_wrap)

lemma swept_purge:
  assumes "swept now s" and "unat now < 2 ^ 63"
  shows "swept now (purge now s) \<and> now < tu_next_purge (purge now s)"
proof (cases "tu_next_purge s \<le> now")
  case True
  then show ?thesis
    using unat_add_interval [OF assms(2)] by (auto simp: swept_def purge_def retain_Some word_less_nat_alt)
next
  case False
  with assms show ?thesis by (auto simp: purge_def)
qed

lemma swept_consume:
  assumes "swept now s" and "unat now < 2 ^ 63" and "deadline now ttl < 2 ^ 64" and "\<not> tu_poisoned s"
  shows "swept now (snd (mem_consume now h ttl s)) \<and> now < tu_next_purge (snd (mem_consume now h ttl s)) \<and>
    \<not> tu_poisoned (snd (mem_consume now h ttl s))"
proof -
  let ?g = "purge now s" and ?e = "now + max ttl 1"
  have g: "swept now ?g" "now < tu_next_purge ?g" using swept_purge [OF assms(1,2)] by simp_all
  have "unat (tu_next_purge ?g) \<le> unat now + 60" using g(1) by (simp add: swept_def)
  moreover have "unat now < unat ?e" using unat_deadline [OF assms(3)] by (simp add: deadline_def)
  ultimately have "unat (tu_next_purge ?g) < unat ?e + 60" by linarith
  then have "swept now (?g\<lparr>tu_entries := (tu_entries ?g)(h \<mapsto> ?e)\<rparr>)" using g(1) by (auto simp: swept_def)
  then show ?thesis using g assms(4) by (simp add: mem_consume_def Let_def)
qed

lemma swept_run:
  assumes "swept now s" and "\<not> tu_poisoned s" and "sorted (now # List.map call_time calls)" and "calls \<noteq> []"
    and "\<forall>c \<in> set calls. unat (call_time c) < 2 ^ 63 \<and> deadline (call_time c) (snd (snd c)) < 2 ^ 64"
    and "tu_entries (snd (consume_run mem_consume calls s)) h = Some e"
  shows "unat (call_time (last calls)) < unat e + 60"
  using assms
proof (induction calls arbitrary: now s)
  case (Cons c calls)
  obtain t h' ttl where c: "c = (t, h', ttl)" by (cases c)
  have "swept t s" using Cons.prems(1,3) by (auto simp: c intro: swept_later)
  then have s: "swept t (snd (mem_consume t h' ttl s))" "t < tu_next_purge (snd (mem_consume t h' ttl s))"
      "\<not> tu_poisoned (snd (mem_consume t h' ttl s))"
    using swept_consume [of t s ttl h'] Cons.prems(2,5) by (simp_all add: c)
  have e: "tu_entries (snd (consume_run mem_consume calls (snd (mem_consume t h' ttl s)))) h = Some e"
    using Cons.prems(6) by (simp add: c case_prod_beta Let_def)
  show ?case
  proof (cases "calls = []")
    case True
    with e s(1) have "unat (tu_next_purge (snd (mem_consume t h' ttl s))) < unat e + 60" by (simp add: swept_def)
    with s(2) True show ?thesis by (simp add: c word_less_nat_alt)
  next
    case False
    then show ?thesis using Cons.IH [OF s(1,3) _ False _ e] Cons.prems(3,5) by (simp add: c)
  qed
qed simp

text \<open>
  C24.  Expired entries do not pile up in the in-memory store.  After any sequence of calls on a clock that does not go
  backwards, for whatever tokens and lifetimes, every entry the store still has expired less than a minute before
  the last call, or not yet.  Times
  before $2^{63}$ seconds and lifetimes that do not overflow them are assumed.
\<close>

theorem expired_entries_swept:
  assumes "sorted (List.map call_time calls)" and "calls \<noteq> []"
    and "\<forall>c \<in> set calls. unat (call_time c) < 2 ^ 63 \<and> deadline (call_time c) (snd (snd c)) < 2 ^ 64"
    and "tu_entries (snd (consume_run mem_consume calls token_use_new)) h = Some e"
  shows "unat (call_time (last calls)) < unat e + 60"
  using assms by (intro swept_run [of 0 token_use_new]) (auto simp: swept_def token_use_new_def)

theorem expired_entries_swept_witness:
  "tu_entries (snd (consume_run mem_consume [(10, ''a'', 30), (20, ''b'', 100)] token_use_new)) ''b'' = Some 120 \<and>
   (20 :: nat) < 120 + 60"
proof -
  have e: "tu_entries (snd (consume_run mem_consume [(10, ''a'', 30), (20, ''b'', 100)] token_use_new)) ''b'' = Some 120"
    by (simp add: mem_consume_def token_use_new_def purge_def purge_interval_def retain_def word_le_nat_alt max_def)
  from expired_entries_swept [OF _ _ _ this] e show ?thesis by (simp add: deadline_def)
qed

end
