(* ===== verification/World.thy ===== *)
theory World
  imports Token_Use_Store
begin

text \<open>
  A single-process deployment: the state the in-memory stores keep, and the clock.  \<open>w_times\<close> are
  the readings \<^verbatim>\<open>now_secs()\<close> will give, one per call; the last one repeats.  The stores of
  \<^verbatim>\<open>Provider\<close> (\<open>w_uses\<close>, \<open>w_clients\<close>) read that clock.  The sources have no replay store for DPoP but the placeholder;
  \<open>w_replays\<close> and \<open>replays_record\<close> are one a host may have, of the same kind, for the examples of \<open>Dpop\<close>.
\<close>

record world =
  w_times :: "u64 list"
  w_uses :: token_use_inner
  w_replays :: token_use_inner
  w_clients :: client_map

definition world_clock :: "world \<Rightarrow> u64 \<times> world" where
  "world_clock w =
     (case w_times w of
        [] \<Rightarrow> (0, w)
      | [t] \<Rightarrow> (t, w)
      | t # ts \<Rightarrow> (t, w\<lparr>w_times := ts\<rparr>))"

definition uses_consume :: "string \<Rightarrow> u64 \<Rightarrow> (world, string, bool) prog" where
  "uses_consume h ttl w =
     (case world_clock w of (now, w1) \<Rightarrow>
        case mem_consume now h ttl (w_uses w1) of (r, u) \<Rightarrow> (r, w1\<lparr>w_uses := u\<rparr>))"

definition replays_record :: "string \<Rightarrow> u64 \<Rightarrow> (world, string, bool) prog" where
  "replays_record h ttl w =
     (case world_clock w of (now, w1) \<Rightarrow>
        case mem_consume now h ttl (w_replays w1) of (r, u) \<Rightarrow> (r, w1\<lparr>w_replays := u\<rparr>))"

definition clients_get :: "string \<Rightarrow> world \<Rightarrow> client option \<times> world" where
  "clients_get cid w =
     (case world_clock w of (now, w1) \<Rightarrow>
        case client_map_get now cid (w_clients w1) of (r, c) \<Rightarrow> (r, w1\<lparr>w_clients := c\<rparr>))"

definition fresh_world :: "u64 list \<Rightarrow> client list \<Rightarrow> world" where
  "fresh_world ts cs = \<lparr>w_times = ts, w_uses = token_use_new, w_replays = token_use_new,
     w_clients = with_clients cs\<rparr>"

text \<open>\<open>drift w w'\<close>: an action of the environment used some clock readings and left the stores alone.\<close>

definition drift :: "world \<Rightarrow> world \<Rightarrow> bool" where
  "drift w w' \<longleftrightarrow> (\<exists>n < max 1 (length (w_times w)). w' = w\<lparr>w_times := drop n (w_times w)\<rparr>)"

lemma drift_refl [simp]: "drift w w"
  unfolding drift_def by (intro exI [of _ 0]) simp

lemma drift_trans: "drift w1 w2 \<Longrightarrow> drift w2 w3 \<Longrightarrow> drift w1 w3"
proof -
  assume "drift w1 w2" and "drift w2 w3"
  then obtain m n where m: "m < max 1 (length (w_times w1))" "w2 = w1\<lparr>w_times := drop m (w_times w1)\<rparr>"
      and n: "n < max 1 (length (w_times w2))" "w3 = w2\<lparr>w_times := drop n (w_times w2)\<rparr>"
    by (auto simp: drift_def)
  have "m + n < max 1 (length (w_times w1))" using m n by (auto simp: max_def split: if_splits)
  moreover have "w3 = w1\<lparr>w_times := drop (m + n) (w_times w1)\<rparr>" using m n by (simp add: add.commute)
  ultimately show ?thesis unfolding drift_def by blast
qed

lemma world_clock_drift: "world_clock w = (t, w') \<Longrightarrow> drift w w'"
  by (auto simp: world_clock_def drift_def split: list.splits intro: exI [of _ 0])

lemma world_clock_in: "world_clock w = (t, w') \<Longrightarrow> w_times w \<noteq> [] \<Longrightarrow> t \<in> set (w_times w)"
  by (auto simp: world_clock_def split: list.splits)

lemma drift_times: "drift w w' \<Longrightarrow> set (w_times w') \<subseteq> set (w_times w)"
  by (auto simp: drift_def dest: in_set_dropD)

lemma drift_nonempty: "drift w w' \<Longrightarrow> w_times w \<noteq> [] \<Longrightarrow> w_times w' \<noteq> []"
  by (cases "w_times w") (auto simp: drift_def)

lemma drift_sorted: "drift w w' \<Longrightarrow> sorted (w_times w) \<Longrightarrow> sorted (w_times w')"
  by (auto simp: drift_def sorted_wrt_drop)

lemma drift_stores:
  "drift w w' \<Longrightarrow> w_uses w' = w_uses w \<and> w_replays w' = w_replays w \<and> w_clients w' = w_clients w"
  by (auto simp: drift_def)

text \<open>On a clock that does not go backwards a reading is at most every later one.\<close>

lemma world_clock_le:
  "world_clock w = (t, w') \<Longrightarrow> sorted (w_times w) \<Longrightarrow> w_times w \<noteq> [] \<Longrightarrow> \<forall>t' \<in> set (w_times w'). t \<le> t'"
  by (auto simp: world_clock_def split: list.splits)

text \<open>
  \<open>before t w\<close>: the clock has readings and all of them are before second \<open>t\<close>.  \<open>use_held t h w\<close>
  adds that the token-use store refuses \<open>h\<close> until \<open>t\<close>.
\<close>

definition before :: "nat \<Rightarrow> world \<Rightarrow> bool" where
  "before t w \<longleftrightarrow> w_times w \<noteq> [] \<and> (\<forall>x \<in> set (w_times w). unat x < t)"

definition use_held :: "nat \<Rightarrow> string \<Rightarrow> world \<Rightarrow> bool" where
  "use_held t h w \<longleftrightarrow> before t w \<and> mem_held (w_uses w) h t"

lemma before_drift: "before t w \<Longrightarrow> drift w w' \<Longrightarrow> before t w'"
  unfolding before_def using drift_times drift_nonempty by blast

lemma use_held_drift: "use_held t h w \<Longrightarrow> drift w w' \<Longrightarrow> use_held t h w'"
  unfolding use_held_def using before_drift drift_stores by metis

lemma before_reading: "before t w \<Longrightarrow> world_clock w = (x, w') \<Longrightarrow> unat x < t"
  using world_clock_in unfolding before_def by blast

lemma uses_consume_held:
  assumes "use_held t h w"
  shows "use_held t h (snd (uses_consume h' ttl w))"
proof -
  obtain x w1 where c: "world_clock w = (x, w1)" by (cases "world_clock w")
  have h1: "use_held t h w1" using use_held_drift [OF assms world_clock_drift [OF c]] .
  have "unat x < t" using assms c before_reading use_held_def by blast
  then have "mem_held (snd (mem_consume x h' ttl (w_uses w1))) h t"
    using h1 memuse.held_kept unfolding use_held_def by blast
  then show ?thesis using h1 by (simp add: uses_consume_def c use_held_def before_def case_prod_beta)
qed

lemma uses_consume_refused:
  assumes "use_held t h w"
  shows "fst (uses_consume h ttl w) \<noteq> Inr True"
proof -
  obtain x w1 where c: "world_clock w = (x, w1)" by (cases "world_clock w")
  have h1: "use_held t h w1" using use_held_drift [OF assms world_clock_drift [OF c]] .
  have "unat x < t" using assms c before_reading use_held_def by blast
  then have "fst (mem_consume x h ttl (w_uses w1)) \<noteq> Inr True"
    using h1 memuse.held_refused unfolding use_held_def by blast
  then show ?thesis by (simp add: uses_consume_def c case_prod_beta)
qed

lemma clients_get_held: "use_held t h w \<Longrightarrow> use_held t h (snd (clients_get cid w))"
proof -
  assume a: "use_held t h w"
  obtain x w1 where c: "world_clock w = (x, w1)" by (cases "world_clock w")
  have "use_held t h w1" using use_held_drift [OF a world_clock_drift [OF c]] .
  then show ?thesis by (simp add: clients_get_def c use_held_def before_def case_prod_beta)
qed

lemma before_consume: "before t w \<Longrightarrow> before t (snd (uses_consume h ttl w))"
proof -
  assume a: "before t w"
  obtain x w1 where c: "world_clock w = (x, w1)" by (cases "world_clock w")
  have "before t w1" using before_drift [OF a world_clock_drift [OF c]] .
  then show ?thesis by (simp add: uses_consume_def c before_def case_prod_beta)
qed

end
