(* ===== verification/Dpop.thy ===== *)
theory Dpop
  imports Tokens World
begin

text \<open>
  \<^verbatim>\<open>src/dpop.rs\<close>: validation of DPoP proofs, replay recording and stateless nonces.  Arithmetic on
  \<^verbatim>\<open>i64\<close> is that of an optimised build, which wraps around.
\<close>

section \<open>Configuration and results\<close>

definition iat_future_skew_secs :: int where
  "iat_future_skew_secs = 30"

record dpop_config =
  dc_proof_max_age_secs :: int
  dc_require_nonce :: bool
  dc_nonce_lifetime_secs :: int
  dc_nonce_secret :: string

definition dpop_config_default :: dpop_config where
  "dpop_config_default = \<lparr>dc_proof_max_age_secs = 300, dc_require_nonce = False,
     dc_nonce_lifetime_secs = 300, dc_nonce_secret = []\<rparr>"

record dpop_proof =
  jkt :: string

datatype dpop_error = Invalid string | Replay | NonceRequired | Server string

fun dpop_error_display :: "dpop_error \<Rightarrow> string" where
  "dpop_error_display (Invalid m) = ''invalid DPoP proof: '' @ m"
| "dpop_error_display Replay = ''DPoP proof replayed''"
| "dpop_error_display NonceRequired = ''DPoP nonce required''"
| "dpop_error_display (Server m) = ''DPoP server error: '' @ m"

text \<open>The replay store is a callback; \<^verbatim>\<open>NoReplayStore\<close> is the one the library has.\<close>

type_synonym 'w replay_record = "string \<Rightarrow> u64 \<Rightarrow> ('w, string, bool) prog"

definition no_replay_store :: "'w replay_record" where
  "no_replay_store jti ttl_secs = failP ''NoReplayStore cannot provide DPoP replay protection''"

section \<open>Claims\<close>

record dpop_claims =
  dp_jti :: string
  dp_htm :: string
  dp_htu :: string
  dp_iat :: int
  dp_nonce :: "string option"
  dp_ath :: "string option"

definition as_i64_number :: "json \<Rightarrow> int option" where
  "as_i64_number j =
     (case j of JPosInt n \<Rightarrow> if uint n < 2 ^ 63 then Some (uint n) else None
      | JNegInt i \<Rightarrow> Some i | _ \<Rightarrow> None)"

definition i64_field :: "json \<Rightarrow> string \<Rightarrow> int option" where
  "i64_field j k = Option.bind (json_get j k) as_i64_number"

definition dpop_claims_from_json :: "json \<Rightarrow> dpop_claims option" where
  "dpop_claims_from_json j =
     Option.bind (str_field j ''jti'') (\<lambda>jti.
     Option.bind (str_field j ''htm'') (\<lambda>htm.
     Option.bind (str_field j ''htu'') (\<lambda>htu.
     Option.bind (i64_field j ''iat'') (\<lambda>iat.
     Option.bind (opt_str_field j ''nonce'') (\<lambda>nonce.
     Option.bind (opt_str_field j ''ath'') (\<lambda>ath.
     Some \<lparr>dp_jti = jti, dp_htm = htm, dp_htu = htu, dp_iat = iat, dp_nonce = nonce, dp_ath = ath\<rparr>))))))"

section \<open>Nonces\<close>

fun be_bytes :: "nat \<Rightarrow> int \<Rightarrow> string" where
  "be_bytes 0 x = []"
| "be_bytes (Suc k) x = be_bytes k (x div 256) @ [char_of (nat (x mod 256))]"

definition from_be :: "string \<Rightarrow> int" where
  "from_be s = foldl (\<lambda>a c. a * 256 + int (of_char c)) 0 s"

definition i64_to_be_bytes :: "int \<Rightarrow> string" where
  "i64_to_be_bytes ts = be_bytes 8 (ts mod 2 ^ 64)"

definition i64_from_be_bytes :: "string \<Rightarrow> int" where
  "i64_from_be_bytes s = i64_wrap (from_be s)"

definition nonce_mac_len :: nat where
  "nonce_mac_len = 16"

definition issue_nonce :: "'w platform \<Rightarrow> dpop_config \<Rightarrow> 'w \<Rightarrow> string \<times> 'w" where
  "issue_nonce P config w =
     (case now_secs P w of (now, w1) \<Rightarrow>
        let ts_bytes = i64_to_be_bytes (as_i64 now);
            mac = hmac_sha256 P (dc_nonce_secret config) ts_bytes
        in (b64url_encode P (ts_bytes @ take nonce_mac_len mac), w1))"

definition validate_nonce :: "'w platform \<Rightarrow> dpop_config \<Rightarrow> string \<Rightarrow> 'w \<Rightarrow> bool \<times> 'w" where
  "validate_nonce P config nonce w =
     (case b64url_decode P nonce of
        None \<Rightarrow> (False, w)
      | Some raw \<Rightarrow>
          if length raw \<noteq> 8 + nonce_mac_len then (False, w)
          else let ts_bytes = take 8 raw; mac = drop 8 raw;
                   expected = hmac_sha256 P (dc_nonce_secret config) ts_bytes
               in if \<not> ct_eq P mac (take nonce_mac_len expected) then (False, w)
                  else case now_secs P w of (now, w1) \<Rightarrow>
                    let ts = i64_from_be_bytes ts_bytes; age = i64_wrap (as_i64 now - ts)
                    in (0 \<le> age \<and> age \<le> dc_nonce_lifetime_secs config, w1))"

section \<open>Proof validation\<close>

definition normalize_htu :: "string \<Rightarrow> string" where
  "normalize_htu uri = hd (split_char (CHR ''?'') (hd (split_char (CHR ''#'') uri)))"

definition ath_of :: "'w platform \<Rightarrow> string \<Rightarrow> string" where
  "ath_of P access_token = b64url_encode P (sha256 P access_token)"

record validated =
  vd_jkt :: string
  vd_jti :: string

text \<open>Steps 1 to 5: header, embedded key, signature, claims.\<close>

definition read_proof :: "'w platform \<Rightarrow> string \<Rightarrow> (dpop_error, jwk \<times> dpop_claims) result" where
  "read_proof P proof =
     res_bind (map_err (\<lambda>e. Invalid (''undecodable header: '' @ e)) (jws_decode_header P proof)) (\<lambda>header.
     if h_typ header \<noteq> Some ''dpop+jwt'' then Inl (Invalid ''typ must be dpop+jwt'')
     else if h_alg header \<noteq> ''ES256''
     then Inl (Invalid (''alg must be ES256, got '' @ display_safe (h_alg header)))
     else
       res_bind (ok_or (h_jwk header) (Invalid ''header is missing jwk'')) (\<lambda>jwk_value.
       res_bind (map_err (\<lambda>e. Invalid (''bad jwk: '' @ e)) (jwk_from_json P (json_to_string P jwk_value))) (\<lambda>jwk.
       if jwk_d jwk \<noteq> None \<or> jwk_priv jwk \<noteq> None
       then Inl (Invalid ''jwk must not contain private key'')
       else
         res_bind (map_err (\<lambda>e. Invalid (''signature verification failed: '' @ e))
           (jws_verify_with_jwk P jwk proof)) (\<lambda>payload.
         res_bind (map_err (\<lambda>e. Invalid (''undecodable claims: '' @ e)) (json_from_slice P payload)) (\<lambda>j.
         res_bind (ok_or (dpop_claims_from_json j)
           (Invalid (''undecodable claims: '' @ de_error P ''DpopClaims'' payload))) (\<lambda>claims.
         Inr (jwk, claims)))))))"

definition check_binding ::
    "'w platform \<Rightarrow> dpop_claims \<Rightarrow> string \<Rightarrow> string \<Rightarrow> string option \<Rightarrow> (dpop_error, unit) result" where
  "check_binding P claims htm htu expected_ath =
     (if \<not> eq_ignore_ascii_case (dp_htm claims) htm
      then Inl (Invalid (''htm mismatch: proof='' @ display_safe (dp_htm claims) @ '', request='' @ display_safe htm))
      else if normalize_htu (dp_htu claims) \<noteq> normalize_htu htu
      then Inl (Invalid (''htu mismatch: proof='' @ display_safe (dp_htu claims) @ '', request='' @ display_safe htu))
      else case expected_ath of
        None \<Rightarrow> Inr ()
      | Some expected \<Rightarrow>
          (case dp_ath claims of
             Some got \<Rightarrow> if ct_eq P got expected then Inr () else Inl (Invalid ''ath missing or mismatched'')
           | None \<Rightarrow> Inl (Invalid ''ath missing or mismatched'')))"

definition check_nonce :: "'w platform \<Rightarrow> dpop_config \<Rightarrow> dpop_claims \<Rightarrow> ('w, dpop_error, unit) prog" where
  "check_nonce P config claims =
     (if dc_require_nonce config then
        (case dp_nonce claims of
           Some n \<Rightarrow> bindP (effP (validate_nonce P config n)) (\<lambda>ok. guardP ok NonceRequired (retP ()))
         | None \<Rightarrow> failP NonceRequired)
      else retP ())"

definition validate_proof_inner ::
    "'w platform \<Rightarrow> dpop_config \<Rightarrow> string \<Rightarrow> string \<Rightarrow> string \<Rightarrow> string option \<Rightarrow>
     ('w, dpop_error, validated) prog" where
  "validate_proof_inner P config proof htm htu expected_ath =
     bindP (liftR (read_proof P proof)) (\<lambda>(jwk, claims).
     bindP (liftR (check_binding P claims htm htu expected_ath)) (\<lambda>_.
     bindP (effP (now_secs P)) (\<lambda>t. let now = as_i64 t in
     guardP (\<not> i64_wrap (now + iat_future_skew_secs) < dp_iat claims) (Invalid ''iat is in the future'') (
     guardP (\<not> dc_proof_max_age_secs config < i64_wrap (now - dp_iat claims)) (Invalid ''proof is too old'') (
     bindP (check_nonce P config claims) (\<lambda>_.
     bindP (liftR (map_err (\<lambda>e. Server (''thumbprint failed: '' @ e)) (jwk_thumbprint P jwk))) (\<lambda>thumb.
     retP \<lparr>vd_jkt = thumb, vd_jti = dp_jti claims\<rparr>)))))))"

definition validate_and_record ::
    "'w platform \<Rightarrow> 'w replay_record \<Rightarrow> dpop_config \<Rightarrow> string \<Rightarrow> string \<Rightarrow> string \<Rightarrow> string option \<Rightarrow>
     ('w, dpop_error, dpop_proof) prog" where
  "validate_and_record P store config proof htm htu expected_ath =
     bindP (validate_proof_inner P config proof htm htu expected_ath) (\<lambda>v.
     bindP (mapErrP Server (store (vd_jti v) (of_int (max 0 (dc_proof_max_age_secs config))))) (\<lambda>newly.
     guardP newly Replay (retP \<lparr>jkt = vd_jkt v\<rparr>)))"

definition validate_proof ::
    "'w platform \<Rightarrow> 'w replay_record \<Rightarrow> dpop_config \<Rightarrow> string \<Rightarrow> string \<Rightarrow> string \<Rightarrow>
     ('w, dpop_error, dpop_proof) prog" where
  "validate_proof P store config proof htm htu = validate_and_record P store config proof htm htu None"

definition validate_resource_proof ::
    "'w platform \<Rightarrow> 'w replay_record \<Rightarrow> dpop_config \<Rightarrow> string \<Rightarrow> string \<Rightarrow> string \<Rightarrow> string \<Rightarrow>
     ('w, dpop_error, dpop_proof) prog" where
  "validate_resource_proof P store config proof htm htu access_token =
     validate_and_record P store config proof htm htu (Some (ath_of P access_token))"

section \<open>Nonce lemmas\<close>

lemma length_be_bytes [simp]: "length (be_bytes k x) = k"
  by (induction k arbitrary: x) simp_all

lemma from_be_append: "from_be (s @ [c]) = from_be s * 256 + int (of_char c)"
  by (simp add: from_be_def)

lemma from_be_be_bytes: "0 \<le> x \<Longrightarrow> from_be (be_bytes k x) = x mod 256 ^ k"
proof (induction k arbitrary: x)
  case 0
  then show ?case by (simp add: from_be_def)
next
  case (Suc k)
  have "x mod (256 * 256 ^ k) = 256 * (x div 256 mod 256 ^ k) + x mod 256"
    by (rule zmod_zmult2_eq) simp
  moreover have "int (of_char (char_of (nat (x mod 256)) :: char)) = x mod 256"
    by (simp add: of_char_of nat_less_iff)
  ultimately show ?case using Suc by (simp add: from_be_append)
qed

lemma i64_be_roundtrip: "- (2 ^ 63) \<le> ts \<Longrightarrow> ts < 2 ^ 63 \<Longrightarrow> i64_from_be_bytes (i64_to_be_bytes ts) = ts"
  by (simp add: i64_from_be_bytes_def i64_to_be_bytes_def from_be_be_bytes i64_wrap_def mod_add_left_eq)

lemma as_i64_small: "uint n < 2 ^ 63 \<Longrightarrow> as_i64 n = uint n"
  unfolding as_i64_def using uint_ge_0 [of n] by (intro i64_wrap_id) linarith+

text \<open>What the nonces rely on: HMAC-SHA256 yields 32 bytes, base64url decodes what it encodes, and
  \<^verbatim>\<open>kryptering\<close>'s comparison is equality.\<close>

definition nonce_primitives :: "'w platform \<Rightarrow> bool" where
  "nonce_primitives P \<longleftrightarrow> (\<forall>k m. length (hmac_sha256 P k m) = 32) \<and>
     (\<forall>s. b64url_decode P (b64url_encode P s) = Some s) \<and> (\<forall>a b. ct_eq P a b \<longleftrightarrow> a = b)"

lemma validate_issued:
  assumes P: "nonce_primitives P" and "now_secs P w2 = (t2, w3)"
    and "uint t1 < 2 ^ 63" and "uint t2 < 2 ^ 63"
    and "now_secs P w = (t1, w1)" and "issue_nonce P config w = (n, w1)"
  shows "fst (validate_nonce P config n w2) \<longleftrightarrow>
    uint t1 \<le> uint t2 \<and> uint t2 - uint t1 \<le> dc_nonce_lifetime_secs config"
proof -
  let ?ts = "i64_to_be_bytes (uint t1)"
  let ?mac = "take nonce_mac_len (hmac_sha256 P (dc_nonce_secret config) ?ts)"
  have len: "length ?ts = 8" "length ?mac = nonce_mac_len"
    using P by (auto simp: i64_to_be_bytes_def nonce_primitives_def nonce_mac_len_def)
  have ts: "i64_from_be_bytes ?ts = uint t1" using assms(3) uint_ge_0 [of t1] by (intro i64_be_roundtrip) linarith+
  have "n = b64url_encode P (?ts @ ?mac)"
    using assms(3,5,6) by (simp add: issue_nonce_def as_i64_small Let_def)
  then have raw: "b64url_decode P n = Some (?ts @ ?mac)" using P by (simp add: nonce_primitives_def)
  have "i64_wrap (uint t2 - uint t1) = uint t2 - uint t1"
    using assms(3,4) uint_ge_0 [of t1] uint_ge_0 [of t2] by (intro i64_wrap_id) linarith+
  then show ?thesis
    using P assms(2,4) unfolding validate_nonce_def raw
    by (simp add: Let_def len ts as_i64_small nonce_primitives_def nonce_mac_len_def)
qed

text \<open>
  A DPoP nonce needs no store: the provider accepts a nonce it issued exactly from the second of
  its issue until \<^verbatim>\<open>nonce_lifetime_secs\<close> later.  The hypotheses are the documented behaviour of the
  cryptographic crates, and clock readings that fit an \<^verbatim>\<open>i64\<close>.
\<close>

theorem dpop_nonce_window:
  assumes "nonce_primitives P" and "now_secs P w = (t1, w1)" and "issue_nonce P config w = (n, w1)"
    and "now_secs P w2 = (t2, w3)" and "uint t1 < 2 ^ 63" and "uint t2 < 2 ^ 63"
  shows "fst (validate_nonce P config n w2) \<longleftrightarrow>
    uint t1 \<le> uint t2 \<and> uint t2 - uint t1 \<le> dc_nonce_lifetime_secs config"
  using validate_issued [OF assms(1,4,5,6,2,3)] .

lemma length_pad32 [simp]: "length (pad32 s) = 32"
  unfolding pad32_def by (simp only: length_take length_append length_replicate)

lemma sample_nonce_primitives: "nonce_primitives (sample_platform clock vals)"
  by (simp add: nonce_primitives_def sample_platform_def sample_b64_decode_def sample_suffix_def)

theorem dpop_nonce_window_witness:
  "\<exists>n. issue_nonce (sample_platform tick []) dpop_config_default 100 = (n, 100) \<and>
     fst (validate_nonce (sample_platform tick []) dpop_config_default n 400) \<and>
     \<not> fst (validate_nonce (sample_platform tick []) dpop_config_default n 401)"
proof -
  obtain n where n: "issue_nonce (sample_platform tick []) dpop_config_default 100 = (n, 100)"
    by (simp add: issue_nonce_def sample_platform_def tick_def Let_def)
  have c: "now_secs (sample_platform tick []) t = (t, t)" for t
    by (simp add: sample_platform_def tick_def)
  note w = dpop_nonce_window [OF sample_nonce_primitives c n c]
  show ?thesis using w [of 400] w [of 401] n by (simp add: dpop_config_default_def)
qed

section \<open>Accepted proofs\<close>

text \<open>What \<open>read_proof\<close> established about a proof it accepted; the key is the one in the header of the proof.\<close>

definition signed_by :: "'w platform \<Rightarrow> jwk \<Rightarrow> string \<Rightarrow> dpop_claims \<Rightarrow> bool" where
  "signed_by P key proof claims \<longleftrightarrow>
     (\<exists>header payload j. jws_decode_header P proof = Inr header \<and> h_typ header = Some ''dpop+jwt'' \<and>
        h_alg header = ''ES256'' \<and> (\<exists>v. h_jwk header = Some v \<and> jwk_from_json P (json_to_string P v) = Inr key) \<and>
        jwk_d key = None \<and> jwk_priv key = None \<and>
        jws_verify_with_jwk P key proof = Inr payload \<and> json_from_slice P payload = Inr j \<and>
        dpop_claims_from_json j = Some claims)"

lemma read_proof_signed: "read_proof P proof = Inr (key, claims) \<Longrightarrow> signed_by P key proof claims"
  by (auto simp: read_proof_def signed_by_def result_simps split: if_splits)

lemma check_binding_ok:
  "check_binding P claims htm htu ath = Inr u \<longleftrightarrow>
     eq_ignore_ascii_case (dp_htm claims) htm \<and> normalize_htu (dp_htu claims) = normalize_htu htu \<and>
     (\<forall>a. ath = Some a \<longrightarrow> (\<exists>got. dp_ath claims = Some got \<and> ct_eq P got a))"
  by (auto simp: check_binding_def split: option.splits if_splits)

lemma check_nonce_ok:
  "check_nonce P config claims w = (Inr u, w') \<Longrightarrow>
     dc_require_nonce config \<longrightarrow> (\<exists>n. dp_nonce claims = Some n \<and> validate_nonce P config n w = (True, w'))"
  by (auto simp: check_nonce_def prog_ok split: option.splits if_splits)

lemma age_unwrapped:
  assumes "uint t < 2 ^ 62" and "- (2 ^ 62) \<le> n"
  shows "n \<le> i64_wrap (as_i64 t + 30) \<longleftrightarrow> n \<le> uint t + 30"
    and "n \<le> uint t + 30 \<Longrightarrow> i64_wrap (as_i64 t - n) = uint t - n"
proof -
  have t: "as_i64 t = uint t" using assms by (intro as_i64_small) simp
  have "i64_wrap (uint t + 30) = uint t + 30" using assms uint_ge_0 [of t] by (intro i64_wrap_id) simp_all
  then show "n \<le> i64_wrap (as_i64 t + 30) \<longleftrightarrow> n \<le> uint t + 30" by (simp add: t)
  show "i64_wrap (as_i64 t - n) = uint t - n" if "n \<le> uint t + 30"
    using assms that uint_ge_0 [of t] unfolding t by (intro i64_wrap_id) simp_all
qed

text \<open>
  C23.  A DPoP proof for a resource request is accepted only if it is an ES256 signature, made by the
  public key its own header carries, over claims that name this request's method and URI (query and
  fragment apart) and the hash of the very access token presented, that pass the age test at the clock
  reading taken, that carry a currently valid nonce when nonces are required, and whose identifier
  the replay store newly recorded; the key thumbprint returned is that key's.  The age test is computed modulo
  $2^{64}$: for a clock before $2^{62}$ and an \<^verbatim>\<open>iat\<close> from $-2^{62}$ on it means that the proof is at most
  \<^verbatim>\<open>proof_max_age_secs\<close> old and at most 30 seconds ahead; for an \<^verbatim>\<open>iat\<close> before that see \<open>dpop_freshness_wraps\<close>.
\<close>

theorem dpop_proof_binds:
  assumes "validate_resource_proof P store config proof htm htu token w = (Inr p, w')"
  shows "\<exists>key claims t w1 w2. signed_by P key proof claims \<and> jwk_thumbprint P key = Inr (jkt p) \<and>
    eq_ignore_ascii_case (dp_htm claims) htm \<and> normalize_htu (dp_htu claims) = normalize_htu htu \<and>
    (\<exists>got. dp_ath claims = Some got \<and> ct_eq P got (ath_of P token)) \<and>
    now_secs P w = (t, w1) \<and> dp_iat claims \<le> i64_wrap (as_i64 t + 30) \<and>
    i64_wrap (as_i64 t - dp_iat claims) \<le> dc_proof_max_age_secs config \<and>
    (uint t < 2 ^ 62 \<and> - (2 ^ 62) \<le> dp_iat claims \<longrightarrow>
       uint t - dp_iat claims \<le> dc_proof_max_age_secs config \<and> dp_iat claims \<le> uint t + 30) \<and>
    (dc_require_nonce config \<longrightarrow> (\<exists>n. dp_nonce claims = Some n \<and> validate_nonce P config n w1 = (True, w2))) \<and>
    store (dp_jti claims) (of_int (max 0 (dc_proof_max_age_secs config))) w2 = (Inr True, w')"
proof -
  from assms obtain v w2 where inner: "validate_proof_inner P config proof htm htu (Some (ath_of P token)) w = (Inr v, w2)"
      and rec: "store (vd_jti v) (of_int (max 0 (dc_proof_max_age_secs config))) w2 = (Inr True, w')"
      and p: "p = \<lparr>jkt = vd_jkt v\<rparr>"
    by (auto simp: validate_resource_proof_def validate_and_record_def prog_ok)
  from inner obtain key claims t w1 where f: "read_proof P proof = Inr (key, claims)"
      "check_binding P claims htm htu (Some (ath_of P token)) = Inr ()" "now_secs P w = (t, w1)"
      "\<not> i64_wrap (as_i64 t + iat_future_skew_secs) < dp_iat claims"
      "\<not> dc_proof_max_age_secs config < i64_wrap (as_i64 t - dp_iat claims)"
      "check_nonce P config claims w1 = (Inr (), w2)" "jwk_thumbprint P key = Inr (vd_jkt v)"
      "vd_jti v = dp_jti claims"
    by (auto simp: validate_proof_inner_def prog_ok Let_def)
  then have "signed_by P key proof claims \<and> jwk_thumbprint P key = Inr (jkt p) \<and>
    eq_ignore_ascii_case (dp_htm claims) htm \<and> normalize_htu (dp_htu claims) = normalize_htu htu \<and>
    (\<exists>got. dp_ath claims = Some got \<and> ct_eq P got (ath_of P token)) \<and>
    now_secs P w = (t, w1) \<and> dp_iat claims \<le> i64_wrap (as_i64 t + 30) \<and>
    i64_wrap (as_i64 t - dp_iat claims) \<le> dc_proof_max_age_secs config \<and>
    (dc_require_nonce config \<longrightarrow> (\<exists>n. dp_nonce claims = Some n \<and> validate_nonce P config n w1 = (True, w2)))"
    using read_proof_signed [OF f(1)] check_nonce_ok [OF f(6)] p
    by (simp add: check_binding_ok iat_future_skew_secs_def not_less)
  moreover have "uint t < 2 ^ 62 \<and> - (2 ^ 62) \<le> dp_iat claims \<longrightarrow>
       uint t - dp_iat claims \<le> dc_proof_max_age_secs config \<and> dp_iat claims \<le> uint t + 30"
    using f(4,5) age_unwrapped [of t "dp_iat claims"] unfolding iat_future_skew_secs_def not_less by metis
  ultimately show ?thesis using rec f(8) by metis
qed

text \<open>A concrete proof, its claims, and a platform that reads it.  Where a host's replay store is needed in an
  example, it is \<open>replays_record\<close> of \<open>World\<close>, which behaves as the trait asks.\<close>

definition sample_key :: jwk where
  "sample_key = \<lparr>jwk_kty = ''EC'', jwk_crv = Some ''P-256'', jwk_kid = None, jwk_alg = None, jwk_d = None,
     jwk_priv = None, jwk_members = [], jwk_extra = []\<rparr>"

definition sample_proof_claims :: "json \<Rightarrow> json" where
  "sample_proof_claims iat = JObject [(''ath'', JString (pad32 ''token'' @ sample_suffix)), (''htm'', JString ''GET''),
     (''htu'', JString ''https://op/u''), (''iat'', iat), (''jti'', JString ''j'')]"

definition dpop_on :: "('w \<Rightarrow> u64 \<times> 'w) \<Rightarrow> json \<Rightarrow> 'w platform" where
  "dpop_on clock iat = (sample_platform clock [sample_proof_claims iat])
     \<lparr>jws_decode_header := (\<lambda>_. Inr \<lparr>h_alg = ''ES256'', h_typ = Some ''dpop+jwt'', h_kid = None, h_jwk = Some JNull\<rparr>),
      jwk_from_json := (\<lambda>_. Inr sample_key), jws_verify_with_jwk := (\<lambda>_ _. Inr []),
      jwk_thumbprint := (\<lambda>_. Inr ''thumb'')\<rparr>"

abbreviation dpop_platform :: "json \<Rightarrow> world platform" where
  "dpop_platform \<equiv> dpop_on world_clock"

lemma dpop_on_reads:
  "as_i64_number iat = Some n \<Longrightarrow> json_norm iat = iat \<Longrightarrow> read_proof (dpop_on clock iat) proof =
     Inr (sample_key, \<lparr>dp_jti = ''j'', dp_htm = ''GET'', dp_htu = ''https://op/u'', dp_iat = n, dp_nonce = None,
       dp_ath = Some (pad32 ''token'' @ sample_suffix)\<rparr>)"
  by (simp add: read_proof_def dpop_on_def sample_platform_def sample_key_def sample_proof_claims_def
      dpop_claims_from_json_def field_defs i64_field_def)

lemma dpop_platform_fields [simp]:
  "now_secs (dpop_on clock iat) = clock" "jwk_thumbprint (dpop_on clock iat) k = Inr ''thumb''"
  "ct_eq (dpop_on clock iat) a b = (a = b)" "ath_of (dpop_on clock iat) t = pad32 t @ sample_suffix"
  by (simp_all add: dpop_on_def sample_platform_def ath_of_def)

lemma dpop_platform_accepts:
  assumes "as_i64_number iat = Some n" and "json_norm iat = iat" and "world_clock w = (t, w1)"
    and "n \<le> i64_wrap (as_i64 t + 30)" and "i64_wrap (as_i64 t - n) \<le> 300"
    and "replays_record ''j'' 300 w1 = (Inr True, w2)"
  shows "validate_resource_proof (dpop_platform iat) replays_record dpop_config_default proof
      ''GET'' ''https://op/u'' ''token'' w = (Inr \<lparr>jkt = ''thumb''\<rparr>, w2)"
  using assms
  by (simp add: validate_resource_proof_def validate_and_record_def validate_proof_inner_def bindP_def effP_def
      dpop_on_reads check_binding_def check_nonce_def dpop_config_default_def mapErrP_def guardP_def
      iat_future_skew_secs_def eq_ignore_ascii_case_def Let_def)

theorem dpop_proof_binds_witness:
  "\<exists>w' key claims. validate_resource_proof (dpop_platform (JPosInt 90)) replays_record dpop_config_default ''proof''
      ''GET'' ''https://op/u'' ''token'' (fresh_world [100] []) = (Inr \<lparr>jkt = ''thumb''\<rparr>, w') \<and>
    signed_by (dpop_platform (JPosInt 90)) key ''proof'' claims"
proof -
  have c: "world_clock (fresh_world [100] []) = (100, fresh_world [100] [])"
    by (simp add: world_clock_def fresh_world_def)
  obtain w2 where r: "replays_record ''j'' 300 (fresh_world [100] []) = (Inr True, w2)"
    by (simp add: replays_record_def world_clock_def fresh_world_def mem_consume_def token_use_new_def Let_def
        purge_def retain_def)
  have t: "as_i64 100 = 100" by (simp add: as_i64_def i64_wrap_def)
  have a: "validate_resource_proof (dpop_platform (JPosInt 90)) replays_record dpop_config_default ''proof''
      ''GET'' ''https://op/u'' ''token'' (fresh_world [100] []) = (Inr \<lparr>jkt = ''thumb''\<rparr>, w2)"
    by (rule dpop_platform_accepts [where n = 90, OF _ _ c _ _ r]) (simp_all add: as_i64_number_def t i64_wrap_def)
  from dpop_proof_binds [OF a] show ?thesis using a by blast
qed

section \<open>Replay\<close>

text \<open>
  What the trait \<^verbatim>\<open>ReplayStore\<close> asks of a host's store, and what is assumed of the clock: \<^verbatim>\<open>Ok(true)\<close> means the
  identifier was newly recorded and is held for \<^verbatim>\<open>ttl_secs\<close> from the call on; while it is held it is not new; no call
  releases it before its time.  \<open>time\<close> is the second a world is in, which never decreases.
\<close>

definition replay_honours ::
    "'w platform \<Rightarrow> 'w replay_record \<Rightarrow> ('w \<Rightarrow> nat) \<Rightarrow> ('w \<Rightarrow> string \<Rightarrow> nat \<Rightarrow> bool) \<Rightarrow> bool" where
  "replay_honours P store time holds \<longleftrightarrow>
     (\<forall>w. time w \<le> time (snd (now_secs P w)) \<and> (\<forall>jti t. holds w jti t \<longrightarrow> holds (snd (now_secs P w)) jti t)) \<and>
     (\<forall>jti ttl w. time w \<le> time (snd (store jti ttl w))) \<and>
     (\<forall>jti ttl w w'. store jti ttl w = (Inr True, w') \<longrightarrow> holds w' jti (time w + unat ttl)) \<and>
     (\<forall>jti ttl w w' t. store jti ttl w = (Inr True, w') \<longrightarrow> holds w jti t \<longrightarrow> t \<le> time w') \<and>
     (\<forall>jti jti' ttl w t. holds w jti t \<longrightarrow> time (snd (store jti' ttl w)) < t \<longrightarrow> holds (snd (store jti' ttl w)) jti t)"

lemma no_replay_store_honours:
  "replay_honours P no_replay_store time (\<lambda>_ _ _. True)" if "\<And>w. time w \<le> time (snd (now_secs P w))"
  using that by (simp add: replay_honours_def no_replay_store_def failP_def)

lemma validate_and_record_inv:
  assumes "validate_and_record P store config proof htm htu ath w = (Inr p, w')"
  shows "\<exists>key claims w1. read_proof P proof = Inr (key, claims) \<and>
    validate_proof_inner P config proof htm htu ath w = (Inr \<lparr>vd_jkt = jkt p, vd_jti = dp_jti claims\<rparr>, w1) \<and>
    store (dp_jti claims) (of_int (max 0 (dc_proof_max_age_secs config))) w1 = (Inr True, w')"
proof -
  from assms obtain v w1 where v: "validate_proof_inner P config proof htm htu ath w = (Inr v, w1)"
      "store (vd_jti v) (of_int (max 0 (dc_proof_max_age_secs config))) w1 = (Inr True, w')"
      "p = \<lparr>jkt = vd_jkt v\<rparr>"
    by (auto simp: validate_and_record_def prog_ok)
  from v(1) obtain key claims where "read_proof P proof = Inr (key, claims)" "vd_jti v = dp_jti claims"
    by (auto simp: validate_proof_inner_def prog_ok Let_def)
  with v show ?thesis by (cases v) auto
qed

lemma keeps_validate_and_record:
  fixes P :: "'w platform"
  assumes "\<And>w. I w \<Longrightarrow> I (snd (now_secs P w))" and "\<And>jti ttl. keeps I (store jti ttl)"
  shows "keeps I (validate_proof_inner P config proof htm htu ath)" "keeps I (validate_and_record P store config proof htm htu ath)"
proof -
  have "keeps I (effP (validate_nonce P config n) :: ('w, dpop_error, bool) prog)" for n
    using assms(1) by (intro keeps_effP) (auto simp: validate_nonce_def Let_def case_prod_beta split: option.splits)
  then have "keeps I (check_nonce P config claims)" for claims
    unfolding check_nonce_def by (intro keeps_intros)
  then show i: "keeps I (validate_proof_inner P config proof htm htu ath)"
    unfolding validate_proof_inner_def Let_def by (intro keeps_intros keeps_effP assms(1))
  show "keeps I (validate_and_record P store config proof htm htu ath)"
    unfolding validate_and_record_def by (intro keeps_intros i assms(2))
qed

lemma replay_honoursD:
  assumes "replay_honours P store time holds"
  shows "T \<le> time w \<Longrightarrow> T \<le> time (snd (now_secs P w))" and "holds w jti t \<Longrightarrow> holds (snd (now_secs P w)) jti t"
    and "T \<le> time w \<Longrightarrow> T \<le> time (snd (store jti' ttl w))"
    and "store jti ttl w = (Inr True, w') \<Longrightarrow> holds w' jti (time w + unat ttl)"
    and "store jti ttl w = (Inr True, w') \<Longrightarrow> holds w jti t \<Longrightarrow> t \<le> time w'"
    and "holds w jti t \<Longrightarrow> time (snd (store jti' ttl w)) < t \<Longrightarrow> holds (snd (store jti' ttl w)) jti t"
proof -
  have h: "time w \<le> time (snd (now_secs P w))" "time w \<le> time (snd (store jti' ttl w))"
    using assms unfolding replay_honours_def by simp_all
  show "T \<le> time w \<Longrightarrow> T \<le> time (snd (now_secs P w))" "T \<le> time w \<Longrightarrow> T \<le> time (snd (store jti' ttl w))"
    using h by (blast intro: order_trans)+
qed (use assms in \<open>simp_all add: replay_honours_def\<close>)

lemma honours_keeps:
  assumes "replay_honours P store time holds"
  shows "keeps (\<lambda>w. T \<le> time w) (validate_proof_inner P config proof htm htu ath)"
    and "keeps (\<lambda>w. T \<le> time w) (validate_and_record P store config proof htm htu ath)"
    and "keeps (\<lambda>w. time w < t \<longrightarrow> holds w jti t) (validate_proof_inner P config proof htm htu ath)"
    and "keeps (\<lambda>w. time w < t \<longrightarrow> holds w jti t) (validate_and_record P store config proof htm htu ath)"
proof -
  note h = replay_honoursD [OF assms]
  have s: "keeps (\<lambda>w. T \<le> time w) (store j ttl)" for j ttl using h(3) by (simp add: keeps_def)
  show "keeps (\<lambda>w. T \<le> time w) (validate_proof_inner P config proof htm htu ath)"
      "keeps (\<lambda>w. T \<le> time w) (validate_and_record P store config proof htm htu ath)"
    by (rule keeps_validate_and_record [of "\<lambda>w. T \<le> time w", OF h(1) s], assumption)+
  have c': "time (snd (now_secs P w)) < t \<longrightarrow> holds (snd (now_secs P w)) jti t" if "time w < t \<longrightarrow> holds w jti t" for w
    using h(1) [of "time w" w] h(2) [of w jti t] that by auto
  have s': "keeps (\<lambda>w. time w < t \<longrightarrow> holds w jti t) (store j ttl)" for j ttl
    unfolding keeps_def using h(3) [of "time _" _ j ttl] h(6) [of _ jti t j ttl] by (meson le_less_trans order_refl)
  show "keeps (\<lambda>w. time w < t \<longrightarrow> holds w jti t) (validate_proof_inner P config proof htm htu ath)"
      "keeps (\<lambda>w. time w < t \<longrightarrow> holds w jti t) (validate_and_record P store config proof htm htu ath)"
    by (rule keeps_validate_and_record [of "\<lambda>w. time w < t \<longrightarrow> holds w jti t", OF c' s'], assumption)+
qed

text \<open>Further proofs presented to the same endpoint or others, one after the other.\<close>

fun presentations ::
    "'w platform \<Rightarrow> 'w replay_record \<Rightarrow> dpop_config \<Rightarrow> (string \<times> string \<times> string \<times> string option) list \<Rightarrow> 'w \<Rightarrow> 'w" where
  "presentations P store config [] w = w"
| "presentations P store config ((proof, htm, htu, ath) # rest) w =
     presentations P store config rest (snd (validate_and_record P store config proof htm htu ath w))"

lemma presentations_keep:
  "(\<And>proof htm htu ath. keeps I (validate_and_record P store config proof htm htu ath)) \<Longrightarrow> I w \<Longrightarrow>
     I (presentations P store config ps w)"
  by (induction P store config ps w rule: presentations.induct) (simp_all add: keeps_def)

text \<open>
  C22.  With any replay store that does what the trait says, a proof accepted in a presentation that began at second
  \<open>time w\<close> is refused in every later presentation completed before \<open>time w\<close> plus \<^verbatim>\<open>proof_max_age_secs\<close>, for whatever
  method, URI or token, after any sequence of other presentations.  Assumed are \<open>replay_honours\<close>, the documented behaviour
  of the host's store and a clock that does not go backwards, and a configured maximum age that is not negative.
\<close>

theorem dpop_replay_refused:
  assumes "replay_honours P store time holds"
    and "validate_and_record P store config proof htm htu ath w = (Inr p, w1)"
    and "0 \<le> dc_proof_max_age_secs config" and "dc_proof_max_age_secs config < 2 ^ 63"
    and "validate_and_record P store config proof htm2 htu2 ath2 (presentations P store config others w1) = (r, w3)"
    and "time w3 < time w + nat (dc_proof_max_age_secs config)"
  shows "r \<noteq> Inr p2"
proof
  assume a: "r = Inr p2"
  let ?ttl = "of_int (max 0 (dc_proof_max_age_secs config)) :: u64"
  let ?w2 = "presentations P store config others w1"
  note h = replay_honoursD [OF assms(1)]
  obtain key claims w0 where f: "read_proof P proof = Inr (key, claims)"
      "validate_proof_inner P config proof htm htu ath w = (Inr \<lparr>vd_jkt = jkt p, vd_jti = dp_jti claims\<rparr>, w0)"
      "store (dp_jti claims) ?ttl w0 = (Inr True, w1)"
    using validate_and_record_inv [OF assms(2)] by blast
  obtain key2 claims2 w4 where g: "read_proof P proof = Inr (key2, claims2)"
      "validate_proof_inner P config proof htm2 htu2 ath2 ?w2 = (Inr \<lparr>vd_jkt = jkt p2, vd_jti = dp_jti claims2\<rparr>, w4)"
      "store (dp_jti claims2) ?ttl w4 = (Inr True, w3)"
    using validate_and_record_inv [OF assms(5) [unfolded a]] by blast
  have e: "claims2 = claims" using f(1) g(1) by simp
  let ?t = "time w0 + unat ?ttl" and ?held = "\<lambda>w. time w < time w0 + unat ?ttl \<longrightarrow> holds w (dp_jti claims) (time w0 + unat ?ttl)"
  have "unat ?ttl = nat (dc_proof_max_age_secs config)"
    using assms(3,4) take_bit_int_eq_self [of "dc_proof_max_age_secs config" 64]
    by (simp add: unat_eq_nat_uint uint_word_of_int_eq)
  moreover have "time w \<le> time w0" using keepsD [OF honours_keeps(1) [OF assms(1)] _ f(2), of "time w"] by simp
  ultimately have late: "time w3 < ?t" using assms(6) by simp
  have "holds w1 (dp_jti claims) ?t" using h(4) [OF f(3)] .
  then have "?held ?w2" using presentations_keep [of ?held, OF honours_keeps(4) [OF assms(1)]] by simp
  then have "?held w4" using keepsD [OF honours_keeps(3) [OF assms(1)] _ g(2)] by blast
  moreover have "time w4 \<le> time w3" using h(3) [of "time w4" w4 "dp_jti claims2" ?ttl] g(3) by simp
  ultimately have "holds w4 (dp_jti claims) ?t" using late by simp
  then have "?t \<le> time w3" using h(5) [OF g(3) [unfolded e]] by blast
  with late show False by simp
qed

text \<open>A store of a host: a table of identifiers and the second until which each is held, beside a clock that advances.\<close>

definition table_clock :: "u64 \<times> (string \<rightharpoonup> nat) \<Rightarrow> u64 \<times> u64 \<times> (string \<rightharpoonup> nat)" where
  "table_clock w = (fst w, saturating_add (fst w) 1, snd w)"

definition table_record :: "(u64 \<times> (string \<rightharpoonup> nat)) replay_record" where
  "table_record jti ttl w =
     (if (case snd w jti of Some e \<Rightarrow> unat (fst w) < e | None \<Rightarrow> False) then (Inr False, w)
      else (Inr True, fst w, (snd w)(jti \<mapsto> unat (fst w) + unat ttl)))"

lemma replay_table_honours:
  assumes "now_secs P = table_clock"
  shows "replay_honours P table_record (unat \<circ> fst) (\<lambda>w jti t. \<exists>e. snd w jti = Some e \<and> t \<le> e)"
proof -
  have "unat x \<le> unat (saturating_add x 1)" for x :: u64
    using unsigned_less [of x, where ?'a = nat] by (simp add: unat_saturating_add)
  then show ?thesis
    by (auto simp: replay_honours_def assms table_clock_def table_record_def split: option.splits if_splits)
qed

definition table_platform :: "(u64 \<times> (string \<rightharpoonup> nat)) platform" where
  "table_platform = dpop_on table_clock (JPosInt 90)"

lemma table_accepts:
  assumes "m ''j'' = None"
  shows "validate_and_record table_platform table_record dpop_config_default proof ''GET'' ''https://op/u'' None (100, m) =
    (Inr \<lparr>jkt = ''thumb''\<rparr>, 101, m(''j'' \<mapsto> 401))"
proof -
  have t: "as_i64 100 = 100" by (simp add: as_i64_def i64_wrap_def)
  have "saturating_add 100 1 = (101 :: u64)" by code_simp
  then show ?thesis using assms
    by (simp add: validate_and_record_def validate_proof_inner_def bindP_def effP_def table_platform_def dpop_on_reads
        as_i64_number_def check_binding_def check_nonce_def dpop_config_default_def mapErrP_def guardP_def t i64_wrap_def
        iat_future_skew_secs_def eq_ignore_ascii_case_def table_clock_def table_record_def Let_def)
qed

theorem dpop_replay_refused_witness:
  "validate_and_record table_platform table_record dpop_config_default ''proof'' ''GET'' ''https://op/u'' None (100, Map.empty) =
     (Inr \<lparr>jkt = ''thumb''\<rparr>, 101, [''j'' \<mapsto> 401]) \<and>
   fst (validate_and_record table_platform table_record dpop_config_default ''proof'' ''GET'' ''https://op/u'' None
     (101, [''j'' \<mapsto> 401])) \<noteq> Inr \<lparr>jkt = ''thumb''\<rparr>"
proof -
  let ?m = "[''j'' \<mapsto> 401 :: nat]"
  have a: "validate_and_record table_platform table_record dpop_config_default ''proof'' ''GET'' ''https://op/u'' None (100, Map.empty) =
     (Inr \<lparr>jkt = ''thumb''\<rparr>, 101, ?m)" by (rule table_accepts) simp
  have c: "now_secs table_platform = table_clock" by (simp add: table_platform_def dpop_on_def sample_platform_def)
  note h = replay_table_honours [OF c]
  obtain r w3 where v: "validate_and_record table_platform table_record dpop_config_default ''proof'' ''GET'' ''https://op/u'' None
      (101, ?m) = (r, w3)" by (metis surj_pair)
  have "saturating_add 101 1 = (102 :: u64)" by code_simp
  then have "fst w3 = 102"
    using v by (auto simp: validate_and_record_def validate_proof_inner_def bindP_def effP_def table_platform_def dpop_on_reads
        as_i64_number_def check_binding_def check_nonce_def dpop_config_default_def mapErrP_def guardP_def as_i64_def i64_wrap_def
        iat_future_skew_secs_def eq_ignore_ascii_case_def table_clock_def table_record_def Let_def)
  then have "r \<noteq> Inr \<lparr>jkt = ''thumb''\<rparr>"
    by (intro dpop_replay_refused [OF h a, where others = "[]" and ?w3.0 = w3]) (use v in \<open>simp_all add: dpop_config_default_def\<close>)
  with a v show ?thesis by simp
qed

section \<open>Where the protection falls short\<close>

text \<open>
  C39.  The replay protection ends before the proof does.  The identifier is remembered for
  \<^verbatim>\<open>proof_max_age_secs\<close> from its first use, but a proof whose \<^verbatim>\<open>iat\<close> lies in the tolerated future
  skew stays fresh for that long after its \<^verbatim>\<open>iat\<close>: under the default configuration a proof with
  \<^verbatim>\<open>iat\<close> 130 is accepted at second 100, and accepted again at second 400.
\<close>

theorem dpop_replay_after_window:
  "\<exists>w1 w2. validate_resource_proof (dpop_platform (JPosInt 130)) replays_record dpop_config_default ''proof''
        ''GET'' ''https://op/u'' ''token'' (fresh_world [100] []) = (Inr \<lparr>jkt = ''thumb''\<rparr>, w1) \<and>
     validate_resource_proof (dpop_platform (JPosInt 130)) replays_record dpop_config_default ''proof''
        ''GET'' ''https://op/u'' ''token'' (w1\<lparr>w_times := [400]\<rparr>) = (Inr \<lparr>jkt = ''thumb''\<rparr>, w2)"
proof -
  have t: "as_i64 100 = 100" "as_i64 400 = 400" by (simp_all add: as_i64_def i64_wrap_def)
  have c1: "world_clock (fresh_world [100] []) = (100, fresh_world [100] [])"
    by (simp add: world_clock_def fresh_world_def)
  obtain w1 where r1: "replays_record ''j'' 300 (fresh_world [100] []) = (Inr True, w1)"
      and w1: "w_replays w1 = \<lparr>tu_poisoned = False, tu_entries = [''j'' \<mapsto> 400], tu_next_purge = 160\<rparr>"
    by (simp add: replays_record_def world_clock_def fresh_world_def mem_consume_def token_use_new_def Let_def
        purge_def purge_interval_def retain_def max_def word_le_nat_alt)
  have c2: "world_clock (w1\<lparr>w_times := [400]\<rparr>) = (400, w1\<lparr>w_times := [400]\<rparr>)" by (simp add: world_clock_def)
  obtain w2 where r2: "replays_record ''j'' 300 (w1\<lparr>w_times := [400]\<rparr>) = (Inr True, w2)"
    by (simp add: replays_record_def world_clock_def mem_consume_def w1 Let_def purge_def retain_def)
  have "validate_resource_proof (dpop_platform (JPosInt 130)) replays_record dpop_config_default ''proof''
        ''GET'' ''https://op/u'' ''token'' (fresh_world [100] []) = (Inr \<lparr>jkt = ''thumb''\<rparr>, w1)"
    by (rule dpop_platform_accepts [where n = 130, OF _ _ c1 _ _ r1])
      (simp_all add: as_i64_number_def t i64_wrap_def)
  moreover have "validate_resource_proof (dpop_platform (JPosInt 130)) replays_record dpop_config_default ''proof''
        ''GET'' ''https://op/u'' ''token'' (w1\<lparr>w_times := [400]\<rparr>) = (Inr \<lparr>jkt = ''thumb''\<rparr>, w2)"
    by (rule dpop_platform_accepts [where n = 130, OF _ _ c2 _ _ r2])
      (simp_all add: as_i64_number_def t i64_wrap_def)
  ultimately show ?thesis by blast
qed

text \<open>
  C40.  The age test can be passed by a proof of any age: \<^verbatim>\<open>now - iat\<close> is computed in \<^verbatim>\<open>i64\<close>, and where
  arithmetic is unchecked an \<^verbatim>\<open>iat\<close> of $-2^{63}$ makes it wrap to a negative number.
\<close>

theorem dpop_freshness_wraps:
  "\<exists>w1. validate_resource_proof (dpop_platform (JNegInt (- (2 ^ 63)))) replays_record dpop_config_default ''proof''
     ''GET'' ''https://op/u'' ''token'' (fresh_world [1700000000] []) = (Inr \<lparr>jkt = ''thumb''\<rparr>, w1)"
proof -
  have t: "as_i64 1700000000 = 1700000000" by (simp add: as_i64_def i64_wrap_def)
  have c: "world_clock (fresh_world [1700000000] []) = (1700000000, fresh_world [1700000000] [])"
    by (simp add: world_clock_def fresh_world_def)
  obtain w1 where r: "replays_record ''j'' 300 (fresh_world [1700000000] []) = (Inr True, w1)"
    by (simp add: replays_record_def world_clock_def fresh_world_def mem_consume_def token_use_new_def Let_def
        purge_def retain_def)
  show ?thesis
    by (rule exI, rule dpop_platform_accepts [where n = "- (2 ^ 63)", OF _ _ c _ _ r])
      (simp_all add: as_i64_number_def t i64_wrap_def)
qed

end
