(* ===== verification/Pkce.thy ===== *)
theory Pkce
  imports OAuth_Error
begin

text \<open>
  \<^verbatim>\<open>src/pkce.rs\<close>: the code-verifier syntax, canonical S256 challenges and the verification of a
  verifier against a stored challenge, with the constant-time comparison written as the loop it is.
\<close>

definition constant_time_eq :: "string \<Rightarrow> string \<Rightarrow> bool" where
  "constant_time_eq a b = (if length a \<noteq> length b then False else ct_diff 0 (zip a b) = 0)"

definition is_valid_verifier :: "string \<Rightarrow> bool" where
  "is_valid_verifier v \<longleftrightarrow>
     43 \<le> length v \<and> length v \<le> 128 \<and>
     list_all (\<lambda>b. is_ascii_alphanumeric b \<or> b \<in> {CHR ''-'', CHR ''.'', CHR ''_'', CHR ''~''}) v"

definition is_valid_s256_challenge :: "'w platform \<Rightarrow> string \<Rightarrow> bool" where
  "is_valid_s256_challenge P v =
     (case b64url_decode P v of
        None \<Rightarrow> False
      | Some decoded \<Rightarrow> length decoded = 32 \<and> b64url_encode P decoded = v)"

definition s256_challenge :: "'w platform \<Rightarrow> string \<Rightarrow> string" where
  "s256_challenge P verifier = b64url_encode P (sha256 P verifier)"

definition pkce_verify :: "'w platform \<Rightarrow> string \<Rightarrow> string \<Rightarrow> string option \<Rightarrow> bool" where
  "pkce_verify P verifier challenge method =
     (if \<not> is_valid_verifier verifier then False
      else let m = (case method of Some m \<Rightarrow> m | None \<Rightarrow> ''plain'')
           in if m = ''S256'' \<and> is_valid_s256_challenge P challenge
              then constant_time_eq (s256_challenge P verifier) challenge
              else if m = ''plain'' then constant_time_eq verifier challenge
              else False)"

lemma constant_time_eq_iff: "constant_time_eq a b \<longleftrightarrow> a = b"
  by (auto simp: constant_time_eq_def ct_diff_zero zip_all_eq)

text \<open>
  The byte-wise OR-accumulating comparison of \<^verbatim>\<open>pkce.rs\<close> and \<^verbatim>\<open>provider.rs\<close> accepts exactly
  equal strings.
\<close>

theorem constant_time_eq_correct: "constant_time_eq a b = (a = b)"
  by (simp add: constant_time_eq_iff)

lemma pkce_verify_S256:
  "pkce_verify P v c (Some ''S256'') \<longleftrightarrow>
     is_valid_verifier v \<and> is_valid_s256_challenge P c \<and> s256_challenge P v = c"
  by (auto simp: pkce_verify_def constant_time_eq_iff)

text \<open>
  \<^verbatim>\<open>pkce::verify\<close> accepts exactly when the verifier has the RFC 7636 syntax and either the
  method is \<^verbatim>\<open>S256\<close> and the challenge is canonical and is the verifier's hash, or the method is
  \<^verbatim>\<open>plain\<close> (or absent) and verifier and challenge are equal.  Every other method is refused.
\<close>

theorem pkce_verify_spec:
  "pkce_verify P v c m \<longleftrightarrow> is_valid_verifier v \<and>
     (m = Some ''S256'' \<and> is_valid_s256_challenge P c \<and> b64url_encode P (sha256 P v) = c \<or>
      (m = Some ''plain'' \<or> m = None) \<and> v = c)"
  by (cases m) (auto simp: pkce_verify_def constant_time_eq_iff s256_challenge_def Let_def)

text \<open>
  An S256 challenge has one accepted spelling: two accepted challenges that decode to the same
  bytes are the same string.
\<close>

theorem s256_challenge_canonical:
  assumes "is_valid_s256_challenge P a" and "is_valid_s256_challenge P b"
    and "b64url_decode P a = b64url_decode P b"
  shows "a = b"
  using assms by (auto simp: is_valid_s256_challenge_def split: option.splits)

theorem s256_challenge_canonical_witness:
  "is_valid_s256_challenge (sample_platform (\<lambda>w. (0, w)) []) (replicate 43 (CHR ''A'')) \<and>
   replicate 43 (CHR ''A'') = replicate 43 (CHR ''A'')"
proof
  show *: "is_valid_s256_challenge (sample_platform (\<lambda>w. (0, w)) []) (replicate 43 (CHR ''A''))"
    by (simp add: is_valid_s256_challenge_def sample_platform_def sample_b64_decode_def sample_suffix_def
        replicate_add [symmetric])
  show "replicate 43 (CHR ''A'') = replicate 43 (CHR ''A'')"
    by (rule s256_challenge_canonical [OF * *]) simp
qed

end
