(* ===== verification/Provider_Core.thy ===== *)
theory Provider_Core
  imports Metadata Dpop Pkce
begin

text \<open>
  \<^verbatim>\<open>src/provider.rs\<close>, the parts every endpoint shares: the provider and its construction, claim
  release, replay-store keys, redirects and ID tokens.  The client store and the token-use store are
  the operations the provider was given; \<open>'w\<close> is the world they act on.
\<close>

section \<open>The provider\<close>

definition CLIENT_ASSERTION_TYPE :: string where
  "CLIENT_ASSERTION_TYPE = ''urn:ietf:params:oauth:client-assertion-type:jwt-bearer''"

record token_lifetimes =
  code_ttl :: u64
  access_token_ttl :: u64
  id_token_ttl :: u64
  refresh_token_ttl :: u64

definition lifetimes_default :: token_lifetimes where
  "lifetimes_default = \<lparr>code_ttl = 600, access_token_ttl = 3600, id_token_ttl = 3600,
     refresh_token_ttl = 2592000\<rparr>"

record 'w provider =
  pv_metadata :: provider_metadata
  pv_signing_key :: signing_key
  pv_clients :: "string \<Rightarrow> 'w \<Rightarrow> client option \<times> 'w"
  pv_codec :: token_codec
  pv_lifetimes :: token_lifetimes
  pv_token_use_store :: "string \<Rightarrow> u64 \<Rightarrow> ('w, string, bool) prog"
  pv_caller_managed_pairwise :: bool
  pv_client_assertion_max_age :: u64
  pv_emit_iss :: bool

record token_response =
  tr_access_token :: string
  tr_token_type :: string
  tr_expires_in :: u64
  tr_id_token :: "string option"
  tr_scope :: "string option"
  tr_refresh_token :: "string option"

text \<open>Its JSON, the members that are absent skipped.\<close>

definition token_response_json :: "token_response \<Rightarrow> json" where
  "token_response_json r = JObject (
     [(''access_token'', JString (tr_access_token r)), (''token_type'', JString (tr_token_type r)),
      (''expires_in'', JPosInt (tr_expires_in r))]
     @ opt_member ''id_token'' (tr_id_token r) @ opt_member ''scope'' (tr_scope r)
     @ opt_member ''refresh_token'' (tr_refresh_token r))"

definition default_client_assertion_max_age :: u64 where
  "default_client_assertion_max_age = 300"

definition advertised_metadata :: "provider_metadata \<Rightarrow> signing_key \<Rightarrow> provider_metadata" where
  "advertised_metadata m k = m\<lparr>
     md_id_token_signing_alg_values_supported := [alg_str (sk_alg k)],
     md_response_types_supported := [''code'', ''id_token'', ''code token''] @
       (if supports_oidc_token_hash (sk_alg k)
        then [''id_token token'', ''code id_token'', ''code id_token token''] else []),
     md_response_modes_supported := [''query'', ''fragment''],
     md_grant_types_supported := [''authorization_code'', ''implicit'', ''client_credentials'', ''refresh_token''],
     md_subject_types_supported := [''public''],
     md_token_endpoint_auth_methods_supported :=
       [AUTH_CLIENT_SECRET_BASIC, AUTH_CLIENT_SECRET_POST, AUTH_PRIVATE_KEY_JWT, AUTH_NONE],
     md_code_challenge_methods_supported := [''S256''],
     md_claims_parameter_supported := False,
     md_request_parameter_supported := False\<rparr>"

definition provider_new ::
    "provider_metadata \<Rightarrow> signing_key \<Rightarrow> (string \<Rightarrow> 'w \<Rightarrow> client option \<times> 'w) \<Rightarrow> token_codec \<Rightarrow>
     token_lifetimes \<Rightarrow> (string \<Rightarrow> u64 \<Rightarrow> ('w, string, bool) prog) \<Rightarrow> (error, 'w provider) result" where
  "provider_new metadata key clients codec lifetimes store =
     (if sk_alg key \<in> {HS256, HS384, HS512}
      then Inl (Config ''provider ID-token signing requires an asymmetric key; HS* algorithms require each client's own client_secret'')
      else Inr \<lparr>pv_metadata = advertised_metadata metadata key, pv_signing_key = key, pv_clients = clients,
             pv_codec = codec, pv_lifetimes = lifetimes, pv_token_use_store = store,
             pv_caller_managed_pairwise = False,
             pv_client_assertion_max_age = default_client_assertion_max_age, pv_emit_iss = False\<rparr>)"

definition with_token_use_store ::
    "(string \<Rightarrow> u64 \<Rightarrow> ('w, string, bool) prog) \<Rightarrow> 'w provider \<Rightarrow> 'w provider" where
  "with_token_use_store store p = p\<lparr>pv_token_use_store := store\<rparr>"

definition with_caller_managed_pairwise_subjects :: "'w provider \<Rightarrow> 'w provider" where
  "with_caller_managed_pairwise_subjects p = p\<lparr>pv_caller_managed_pairwise := True,
     pv_metadata := (pv_metadata p)\<lparr>md_subject_types_supported := [''public'', ''pairwise'']\<rparr>\<rparr>"

definition with_client_assertion_max_age :: "u64 \<Rightarrow> 'w provider \<Rightarrow> 'w provider" where
  "with_client_assertion_max_age secs p = p\<lparr>pv_client_assertion_max_age := secs\<rparr>"

definition with_authorization_response_iss :: "'w provider \<Rightarrow> 'w provider" where
  "with_authorization_response_iss p = p\<lparr>pv_emit_iss := True,
     pv_metadata := (pv_metadata p)\<lparr>md_extra :=
       bt_insert ''authorization_response_iss_parameter_supported'' (JBool True) (md_extra (pv_metadata p))\<rparr>\<rparr>"

definition discovery_document :: "'w provider \<Rightarrow> json" where
  "discovery_document p = metadata_to_json (pv_metadata p)"

definition jwks_document :: "'w provider \<Rightarrow> jwk_set" where
  "jwks_document p = to_public_jwks (pv_signing_key p)"

abbreviation issuer :: "'w provider \<Rightarrow> string" where
  "issuer p \<equiv> md_issuer (pv_metadata p)"

section \<open>Claim release\<close>

definition is_reserved_id_token_claim :: "string \<Rightarrow> bool" where
  "is_reserved_id_token_claim name \<longleftrightarrow>
     name \<in> {''iss'', ''sub'', ''aud'', ''exp'', ''iat'', ''nbf'', ''jti'', ''nonce'', ''auth_time'', ''acr'',
       ''azp'', ''at_hash'', ''c_hash''}"

definition coerce_standard_claim :: "string \<Rightarrow> string \<Rightarrow> json option" where
  "coerce_standard_claim name v =
     (if name \<in> {''email_verified'', ''phone_number_verified''} then
        (let s = to_ascii_lowercase (str_trim v)
         in if s \<in> {''true'', ''1'', ''yes'', ''on''} then Some (JBool True)
            else if s \<in> {''false'', ''0'', ''no'', ''off''} then Some (JBool False)
            else None)
      else if name = ''updated_at'' then
        (case parse_i64 (str_trim v) of
           None \<Rightarrow> None
         | Some n \<Rightarrow> Some (if 0 \<le> n then JPosInt (of_int n) else JNegInt n))
      else None)"

definition flatten_value :: "string \<Rightarrow> string list \<Rightarrow> json" where
  "flatten_value k v =
     (case v of
        [x] \<Rightarrow> (case coerce_standard_claim k x of Some j \<Rightarrow> j | None \<Rightarrow> JString x)
      | _ \<Rightarrow> JArray (List.map JString v))"

definition flatten_claims :: "string list btree \<Rightarrow> json btree" where
  "flatten_claims external = List.map (\<lambda>(k, v). (k, flatten_value k v)) external"

definition required_scope :: "string \<Rightarrow> string option" where
  "required_scope name =
     (if name \<in> {''name'', ''family_name'', ''given_name'', ''middle_name'', ''nickname'',
          ''preferred_username'', ''profile'', ''picture'', ''website'', ''gender'', ''birthdate'',
          ''zoneinfo'', ''locale'', ''updated_at''} then Some ''profile''
      else if name \<in> {''email'', ''email_verified''} then Some ''email''
      else if name = ''address'' then Some ''address''
      else if name \<in> {''phone_number'', ''phone_number_verified''} then Some ''phone''
      else None)"

definition claim_allowed_by_scope :: "string \<Rightarrow> string \<Rightarrow> bool" where
  "claim_allowed_by_scope scope name =
     (case required_scope name of None \<Rightarrow> True | Some r \<Rightarrow> r \<in> set (split_whitespace scope))"

definition filter_claims :: "string \<Rightarrow> json btree \<Rightarrow> json btree" where
  "filter_claims scope claims = filter (\<lambda>(name, _). claim_allowed_by_scope scope name) claims"

section \<open>Parameters, store keys, redirects\<close>

definition unique_parameters :: "(string \<times> string) list \<Rightarrow> (oauth_error, string btree) result" where
  "unique_parameters params =
     collect_unique map_of bt_insert (\<lambda>n. invalid_request (''duplicate token parameter: '' @ n)) [] params"

definition token_use_hash :: "'w platform \<Rightarrow> string \<Rightarrow> string \<Rightarrow> string" where
  "token_use_hash P kind token = kind @ '':'' @ b64url_encode P (sha256 P token)"

definition assertion_preimage :: "string \<Rightarrow> string \<Rightarrow> string" where
  "assertion_preimage client_id jti =
     usize_str (length client_id) @ '':'' @ client_id @ '':'' @ usize_str (length jti) @ '':'' @ jti"

definition assertion_use_hash :: "'w platform \<Rightarrow> string \<Rightarrow> string \<Rightarrow> string" where
  "assertion_use_hash P client_id jti = token_use_hash P ''assertion'' (assertion_preimage client_id jti)"

definition client_allows_refresh :: "client \<Rightarrow> bool" where
  "client_allows_refresh c \<longleftrightarrow> ''refresh_token'' \<in> set (cl_grant_types c)"

definition redirect_with :: "'w platform \<Rightarrow> string \<Rightarrow> (string \<times> string) list \<Rightarrow> bool \<Rightarrow> response" where
  "redirect_with P redirect_uri params fragment =
     (let encoded = encode_params P params;
          sep = (if fragment then ''#'' else if CHR ''?'' \<in> set redirect_uri then ''&'' else ''?'')
      in redirect (redirect_uri @ sep @ encoded))"

definition decode_basic :: "'w platform \<Rightarrow> string \<Rightarrow> (string \<times> string) option" where
  "decode_basic P b64 =
     Option.bind (b64std_decode P b64) (\<lambda>decoded.
     Option.bind (from_utf8 decoded) (\<lambda>s.
     Option.bind (split_once (CHR '':'') s) (\<lambda>(ident, secret).
     Some (percent_decode_lossy P ident, percent_decode_lossy P secret))))"

definition token_type :: "dpop_proof option \<Rightarrow> string" where
  "token_type dpop = (if dpop \<noteq> None then ''DPoP'' else ''Bearer'')"

text \<open>\<^verbatim>\<open>map_err(|e| OAuthError::new(ServerError, e.to_string()))\<close>.\<close>

definition server_error :: "error \<Rightarrow> oauth_error" where
  "server_error e = oauth_error_new ServerError (error_to_string e)"

definition consume_token_once ::
    "'w platform \<Rightarrow> 'w provider \<Rightarrow> string \<Rightarrow> string \<Rightarrow> u64 \<Rightarrow> string \<Rightarrow> ('w, oauth_error, unit) prog" where
  "consume_token_once P p kind token exp replay_message =
     bindP (effP (now_secs P)) (\<lambda>now.
     let ttl = max (saturating_sub exp now) 1
     in bindP (mapErrP (\<lambda>_. oauth_error_new ServerError ''temporarily unable to process the request'')
          (pv_token_use_store p (token_use_hash P kind token) ttl)) (\<lambda>consumed.
        guardP consumed (invalid_grant replay_message) (retP ())))"

section \<open>ID tokens\<close>

definition opt_insert :: "string \<Rightarrow> json option \<Rightarrow> json btree \<Rightarrow> json btree" where
  "opt_insert k v m = (case v of None \<Rightarrow> m | Some j \<Rightarrow> bt_insert k j m)"

fun insert_released :: "json btree \<Rightarrow> json btree \<Rightarrow> json btree" where
  "insert_released extra [] = extra"
| "insert_released extra ((k, v) # cs) =
     insert_released (if is_reserved_id_token_claim k then extra else bt_insert k v extra) cs"

definition id_token_claims ::
    "'w provider \<Rightarrow> u64 \<Rightarrow> string \<Rightarrow> string \<Rightarrow> string option \<Rightarrow> json btree \<Rightarrow> string option \<Rightarrow> u64 \<Rightarrow>
     string option \<Rightarrow> string option \<Rightarrow> claims" where
  "id_token_claims p now client_id sub nonce claims acr auth_time c_hash at_hash =
     claims_default\<lparr>
       c_iss := Some (issuer p), c_sub := Some sub, c_aud := Some (Single client_id),
       c_iat := Some (date_of_secs now), c_exp := Some (date_of_secs (now + id_token_ttl (pv_lifetimes p))),
       c_extra := insert_released
         (opt_insert ''at_hash'' (map_option JString at_hash)
         (opt_insert ''c_hash'' (map_option JString c_hash)
         (bt_insert ''auth_time'' (JPosInt auth_time)
         (opt_insert ''acr'' (map_option JString acr)
         (opt_insert ''nonce'' (map_option JString nonce) []))))) claims\<rparr>"

definition opt_token_hash ::
    "'w platform \<Rightarrow> 'w provider \<Rightarrow> string option \<Rightarrow> (error, string option) result" where
  "opt_token_hash P p v =
     (case v of
        None \<Rightarrow> Inr None
      | Some s \<Rightarrow> res_bind (oidc_token_hash P (sk_alg (pv_signing_key p)) s) (\<lambda>h. Inr (Some h)))"

definition build_id_token ::
    "'w platform \<Rightarrow> 'w provider \<Rightarrow> string \<Rightarrow> string \<Rightarrow> string option \<Rightarrow> json btree \<Rightarrow> string option \<Rightarrow> u64 \<Rightarrow>
     string option \<Rightarrow> string option \<Rightarrow> ('w, error, string) prog" where
  "build_id_token P p client_id sub nonce claims acr auth_time code access_token =
     bindP (effP (now_secs P)) (\<lambda>now.
     bindP (liftR (opt_token_hash P p code)) (\<lambda>c_hash.
     bindP (liftR (opt_token_hash P p access_token)) (\<lambda>at_hash.
     jwt_sign P (pv_signing_key p)
       (id_token_claims p now client_id sub nonce claims acr auth_time c_hash at_hash) None)))"

section \<open>Lemmas\<close>

lemma map_of_rev_distinct: "distinct (List.map fst m) \<Longrightarrow> map_of (rev m) = map_of m"
  by (subst map_of_inject_set) (simp_all add: rev_map [symmetric])

lemma map_of_opt_insert:
  "map_of (opt_insert k v m) k' = (if k' = k \<and> v \<noteq> None then v else map_of m k')"
  by (auto simp: opt_insert_def map_of_bt_insert split: option.splits)

lemma insert_released_reserved:
  "is_reserved_id_token_claim k \<Longrightarrow> map_of (insert_released extra cs) k = map_of extra k"
  by (induction extra cs rule: insert_released.induct) (auto simp: map_of_bt_insert)

lemma insert_released_other:
  "\<not> is_reserved_id_token_claim k \<Longrightarrow> map_of (insert_released extra cs) k =
     (case map_of (rev cs) k of Some v \<Rightarrow> Some v | None \<Rightarrow> map_of extra k)"
  by (induction extra cs rule: insert_released.induct) (auto simp: map_of_bt_insert split: option.splits)

text \<open>
  Released attributes never reach a protocol claim of an ID token: issuer, subject, audience and
  times are the provider's, \<^verbatim>\<open>nonce\<close>, \<^verbatim>\<open>acr\<close>, \<^verbatim>\<open>auth_time\<close>, \<^verbatim>\<open>c_hash\<close> and \<^verbatim>\<open>at_hash\<close> are the values of
  this transaction and absent when it has none, no member of the extra map repeats a typed claim, and
  every released claim with another name is included unchanged.
\<close>

theorem id_token_claims_protected:
  assumes "bt_ok claims"
    and "c = id_token_claims p now cid sub nonce claims acr auth_time c_hash at_hash"
  shows "c_iss c = Some (issuer p) \<and> c_sub c = Some sub \<and> c_aud c = Some (Single cid) \<and>
    c_iat c = Some (date_of_secs now) \<and> c_exp c = Some (date_of_secs (now + id_token_ttl (pv_lifetimes p))) \<and>
    map_of (c_extra c) ''nonce'' = map_option JString nonce \<and>
    map_of (c_extra c) ''acr'' = map_option JString acr \<and>
    map_of (c_extra c) ''auth_time'' = Some (JPosInt auth_time) \<and>
    map_of (c_extra c) ''c_hash'' = map_option JString c_hash \<and>
    map_of (c_extra c) ''at_hash'' = map_option JString at_hash \<and>
    (\<forall>k \<in> {''iss'', ''sub'', ''aud'', ''exp'', ''iat'', ''nbf'', ''jti'', ''azp''}. map_of (c_extra c) k = None) \<and>
    (\<forall>k. \<not> is_reserved_id_token_claim k \<longrightarrow> map_of (c_extra c) k = map_of claims k)"
proof -
  let ?base = "opt_insert ''at_hash'' (map_option JString at_hash)
    (opt_insert ''c_hash'' (map_option JString c_hash) (bt_insert ''auth_time'' (JPosInt auth_time)
    (opt_insert ''acr'' (map_option JString acr) (opt_insert ''nonce'' (map_option JString nonce) []))))"
  have extra: "c_extra c = insert_released ?base claims" using assms(2) by (simp add: id_token_claims_def)
  have rev: "map_of (rev claims) = map_of claims"
    using map_of_rev_distinct [OF bt_ok_distinct [OF assms(1)]] .
  have base: "map_of ?base k = None" if "\<not> is_reserved_id_token_claim k" for k
    using that by (auto simp: map_of_opt_insert map_of_bt_insert is_reserved_id_token_claim_def)
  have other: "\<forall>k. \<not> is_reserved_id_token_claim k \<longrightarrow> map_of (c_extra c) k = map_of claims k"
    unfolding extra by (auto simp: insert_released_other base rev split: option.splits)
  have reserved: "map_of (c_extra c) k = map_of ?base k" if "is_reserved_id_token_claim k" for k
    unfolding extra using that by (rule insert_released_reserved)
  show ?thesis
    by (intro conjI other)
      (simp_all add: reserved is_reserved_id_token_claim_def map_of_opt_insert map_of_bt_insert,
        simp_all add: assms(2) id_token_claims_def)
qed

definition sample_signing_key :: signing_key where
  "sample_signing_key = \<lparr>sk_signer = ''op'', sk_public_jwk = sample_key, sk_alg = ES256, sk_kid = None\<rparr>"

definition sample_provider :: "world provider" where
  "sample_provider = projr (provider_new (metadata_new ''https://op'' ''https://op'') sample_signing_key clients_get
     (codec_new (sample_platform world_clock []) ''secret'') lifetimes_default uses_consume)"

theorem id_token_claims_protected_witness:
  "c_sub (id_token_claims sample_provider 5 ''rp'' ''alice'' None [(''email'', JString ''a''), (''sub'', JString ''mallory'')]
     None 4 None None) = Some ''alice'' \<and>
   map_of (c_extra (id_token_claims sample_provider 5 ''rp'' ''alice'' None
     [(''email'', JString ''a''), (''sub'', JString ''mallory'')] None 4 None None)) ''sub'' = None"
proof -
  have "bt_ok [(''email'', JString ''a''), (''sub'', JString ''mallory'')]"
    by (simp add: bt_ok_def less_list_code less_char_def)
  from id_token_claims_protected [OF this refl, of sample_provider 5 "''rp''" "''alice''" None None 4 None None]
  show ?thesis by simp
qed

lemma colon_cancel:
  "CHR '':'' \<notin> set a \<Longrightarrow> CHR '':'' \<notin> set a' \<Longrightarrow>
     a @ CHR '':'' # r = a' @ CHR '':'' # r' \<longleftrightarrow> a = a' \<and> r = r'"
  by (metis split_once_append option.inject prod.inject)

lemma usize_str_no_colon: "CHR '':'' \<notin> set (usize_str n)"
  by (simp add: dec_str_no_colon)

lemma usize_str_inj: "usize_str m = usize_str n \<longleftrightarrow> m = n"
  using dec_str_inj [of "int m" "int n"] by auto

text \<open>
  The key of a client assertion in the replay store separates clients: two pairs of client
  identifier and \<^verbatim>\<open>jti\<close> are hashed from the same text only if they are the same pair, although both
  parts may contain colons and digits.
\<close>

theorem assertion_preimage_injective:
  "assertion_preimage c j = assertion_preimage c' j' \<longleftrightarrow> c = c' \<and> j = j'"
proof
  assume "assertion_preimage c j = assertion_preimage c' j'"
  then have eq: "c @ CHR '':'' # usize_str (length j) @ CHR '':'' # j =
      c' @ CHR '':'' # usize_str (length j') @ CHR '':'' # j'" and "length c = length c'"
    by (auto simp: assertion_preimage_def colon_cancel usize_str_no_colon usize_str_inj)
  then show "c = c' \<and> j = j'" by (simp add: colon_cancel usize_str_no_colon)
qed simp

text \<open>
  A token form is accepted exactly when no parameter name occurs twice; then each parameter reads
  as sent, and otherwise the answer is an \<^verbatim>\<open>invalid_request\<close> that names a duplicate parameter.
\<close>

theorem unique_parameters_exact:
  "(case unique_parameters ps of
      Inr m \<Rightarrow> distinct (List.map fst ps) \<and> (\<forall>k. map_of m k = map_of ps k)
    | Inl e \<Rightarrow> \<not> distinct (List.map fst ps) \<and>
        (\<exists>k \<in> set (List.map fst ps). e = invalid_request (''duplicate token parameter: '' @ k)))"
proof (cases "unique_parameters ps")
  case (Inl e)
  note c = this [unfolded unique_parameters_def]
  have "\<not> distinct (List.map fst ps)" using btmap.collect_total c by (metis Inl_Inr_False)
  with btmap.collect_error [OF c] show ?thesis by (simp add: Inl)
next
  case (Inr m)
  note c = this [unfolded unique_parameters_def]
  show ?thesis using btmap.collect_get [OF c] by (simp add: Inr)
qed

end
