(* ===== verification/Client_Auth.thy ===== *)
theory Client_Auth
  imports Provider_Core
begin

text \<open>
  \<^verbatim>\<open>src/provider.rs\<close>: client authentication at the token endpoint, by \<^verbatim>\<open>private_key_jwt\<close> with
  single-use assertions, \<^verbatim>\<open>client_secret_basic\<close>, \<^verbatim>\<open>client_secret_post\<close>, or none.
\<close>

section \<open>Operations\<close>

text \<open>\<^verbatim>\<open>self.clients.get(id).await.ok_or_else(..)\<close>.\<close>

definition require_client :: "'w provider \<Rightarrow> oauth_error \<Rightarrow> string \<Rightarrow> ('w, oauth_error, client) prog" where
  "require_client p e cid = bindP (effP (pv_clients p cid)) (\<lambda>c. liftR (ok_or c e))"

definition check_secret ::
    "'w provider \<Rightarrow> string \<Rightarrow> string \<Rightarrow> string \<Rightarrow> ('w, oauth_error, client) prog" where
  "check_secret p client_id secret presented_method =
     bindP (require_client p (invalid_client ''unknown client'') client_id) (\<lambda>client.
     guardP (cl_token_endpoint_auth_method client = presented_method)
       (invalid_client ''client authentication method does not match the registered method'') (
     case cl_client_secret client of
       Some expected \<Rightarrow> guardP (constant_time_eq expected secret) (invalid_client ''bad client secret'') (retP client)
     | None \<Rightarrow> failP (invalid_client ''bad client secret'')))"

definition assertion_client_id ::
    "'w platform \<Rightarrow> string \<Rightarrow> string btree \<Rightarrow> (oauth_error, string) result" where
  "assertion_client_id P assertion form =
     (case bt_get form ''client_id'' of
        Some cid \<Rightarrow> Inr cid
      | None \<Rightarrow>
          res_bind (map_err (\<lambda>_. invalid_client ''unreadable client_assertion'')
            (peek_claims_unverified P assertion)) (\<lambda>claims.
          ok_or (case c_sub claims of Some s \<Rightarrow> Some s | None \<Rightarrow> c_iss claims)
            (invalid_client ''client_assertion missing sub/iss'')))"

definition assertion_validation :: "'w platform \<Rightarrow> 'w provider \<Rightarrow> string \<Rightarrow> validation" where
  "assertion_validation P p client_id =
     (validation_new P)\<lparr>v_issuer := Some client_id, v_subject := Some client_id, v_require_exp := True,
       v_require_iat := True, v_max_age := Some (pv_client_assertion_max_age p)\<rparr>"

text \<open>How long the replay entry of an assertion is kept: until the earlier of the two deadlines.\<close>

definition exp_deadline :: "u64 \<Rightarrow> numeric_date \<Rightarrow> u64" where
  "exp_deadline leeway exp =
     saturating_add (saturating_add (as_secs exp) (if 0 < subsec_nanos exp then 1 else 0)) leeway"

definition age_deadline :: "u64 \<Rightarrow> u64 \<Rightarrow> numeric_date \<Rightarrow> u64" where
  "age_deadline max_age leeway iat =
     saturating_add (saturating_add (saturating_add (as_secs iat) max_age) leeway) 1"

definition assertion_deadline :: "u64 \<Rightarrow> u64 \<Rightarrow> u64 \<Rightarrow> claims \<Rightarrow> u64" where
  "assertion_deadline max_age leeway now claims =
     (case (map_option (exp_deadline leeway) (c_exp claims), map_option (age_deadline max_age leeway) (c_iat claims)) of
        (Some a, Some b) \<Rightarrow> min a b
      | (Some a, None) \<Rightarrow> a
      | (None, Some b) \<Rightarrow> b
      | (None, None) \<Rightarrow> now)"

definition assertion_ttl :: "u64 \<Rightarrow> u64 \<Rightarrow> u64 \<Rightarrow> claims \<Rightarrow> u64" where
  "assertion_ttl max_age leeway now claims =
     max (saturating_sub (assertion_deadline max_age leeway now claims) now) 1"

definition verify_private_key_jwt ::
    "'w platform \<Rightarrow> 'w provider \<Rightarrow> string \<Rightarrow> string btree \<Rightarrow> string \<Rightarrow> ('w, oauth_error, client) prog" where
  "verify_private_key_jwt P p assertion form token_url =
     bindP (liftR (assertion_client_id P assertion form)) (\<lambda>client_id.
     bindP (require_client p (invalid_client ''unknown client'') client_id) (\<lambda>client.
     guardP (cl_token_endpoint_auth_method client = AUTH_PRIVATE_KEY_JWT)
       (invalid_client ''client is not configured for private_key_jwt'') (
     bindP (liftR (ok_or (cl_jwks client) (invalid_client ''client has no keys for private_key_jwt''))) (\<lambda>jwks.
     let validation = assertion_validation P p client_id in
     bindP (mapErrP (\<lambda>_. invalid_client ''client_assertion validation failed'')
       (verify_with_jwks P jwks assertion validation)) (\<lambda>claims.
     guardP (case c_aud claims of Some aud \<Rightarrow> aud_contains aud token_url \<or> aud_contains aud (issuer p) | None \<Rightarrow> False)
       (invalid_client ''client_assertion audience mismatch'') (
     bindP (liftR (ok_or (c_jti claims) (invalid_client ''client_assertion missing jti''))) (\<lambda>jti.
     bindP (effP (now_secs P)) (\<lambda>now.
     bindP (mapErrP (\<lambda>_. oauth_error_new ServerError ''temporarily unable to process the request'')
       (pv_token_use_store p (assertion_use_hash P client_id jti)
         (assertion_ttl (pv_client_assertion_max_age p) (v_leeway validation) now claims))) (\<lambda>fresh.
     guardP fresh (invalid_client ''client_assertion already used'') (retP client))))))))))"

definition authenticate_client_map ::
    "'w platform \<Rightarrow> 'w provider \<Rightarrow> string btree \<Rightarrow> string option \<Rightarrow> string \<Rightarrow> ('w, oauth_error, client) prog" where
  "authenticate_client_map P p form auth_header token_url =
     (let assertion_present = bt_contains_key ''client_assertion'' form \<or> bt_contains_key ''client_assertion_type'' form;
          secret_post_present = bt_contains_key ''client_secret'' form;
          method_count = of_bool assertion_present + of_bool secret_post_present + of_bool (auth_header \<noteq> None) :: nat
      in if 1 < method_count then failP (invalid_client ''multiple client authentication methods'')
      else if assertion_present then
        (case bt_get form ''client_assertion'' of
           None \<Rightarrow> failP (invalid_client ''incomplete client assertion authentication'')
         | Some assertion \<Rightarrow>
             guardP (bt_get form ''client_assertion_type'' = Some CLIENT_ASSERTION_TYPE)
               (invalid_client ''invalid client_assertion_type'') (
             verify_private_key_jwt P p assertion form token_url))
      else case auth_header of
        Some header \<Rightarrow>
          (case split_once (CHR '' '') header of
             None \<Rightarrow> failP (invalid_client ''malformed Authorization header'')
           | Some (scheme, credentials) \<Rightarrow>
               guardP (eq_ignore_ascii_case scheme ''Basic'') (invalid_client ''unsupported Authorization scheme'') (
               case decode_basic P credentials of
                 None \<Rightarrow> failP (invalid_client ''malformed Basic auth'')
               | Some (cid, secret) \<Rightarrow> check_secret p cid secret AUTH_CLIENT_SECRET_BASIC))
      | None \<Rightarrow>
          (case bt_get form ''client_secret'' of
             Some secret \<Rightarrow>
               (case bt_get form ''client_id'' of
                  None \<Rightarrow> failP (invalid_client ''client_secret missing client_id'')
                | Some cid \<Rightarrow> check_secret p cid secret AUTH_CLIENT_SECRET_POST)
           | None \<Rightarrow>
               (case bt_get form ''client_id'' of
                  None \<Rightarrow> failP (invalid_client ''client authentication required'')
                | Some cid \<Rightarrow>
                    bindP (require_client p (invalid_client ''unknown client'') cid) (\<lambda>client.
                    guardP (cl_token_endpoint_auth_method client = AUTH_NONE)
                      (invalid_client ''client authentication required'') (retP client)))))"

definition authenticate_client ::
    "'w platform \<Rightarrow> 'w provider \<Rightarrow> (string \<times> string) list \<Rightarrow> string option \<Rightarrow> string \<Rightarrow>
     ('w, oauth_error, client) prog" where
  "authenticate_client P p form auth_header token_url =
     bindP (liftR (unique_parameters form)) (\<lambda>form.
     authenticate_client_map P p form auth_header token_url)"

section \<open>What a successful authentication proves\<close>

text \<open>The method a request presents credentials for.\<close>

definition presented_method :: "string btree \<Rightarrow> string option \<Rightarrow> string" where
  "presented_method form auth_header =
     (if map_of form ''client_assertion'' \<noteq> None \<or> map_of form ''client_assertion_type'' \<noteq> None then AUTH_PRIVATE_KEY_JWT
      else if auth_header \<noteq> None then AUTH_CLIENT_SECRET_BASIC
      else if map_of form ''client_secret'' \<noteq> None then AUTH_CLIENT_SECRET_POST
      else AUTH_NONE)"

text \<open>
  The evidence each method leaves, from the world \<open>w\<close> of the request to the world \<open>w'\<close> after it: the
  store answered the client, and the secret, or a verified assertion newly recorded as used.
\<close>

definition secret_evidence :: "'w provider \<Rightarrow> string \<Rightarrow> string \<Rightarrow> client \<Rightarrow> 'w \<Rightarrow> 'w \<Rightarrow> bool" where
  "secret_evidence p cid secret c w w' \<longleftrightarrow>
     pv_clients p cid w = (Some c, w') \<and> cl_client_secret c = Some secret"

definition assertion_evidence ::
    "'w platform \<Rightarrow> 'w provider \<Rightarrow> string \<Rightarrow> string \<Rightarrow> string \<Rightarrow> client \<Rightarrow> 'w \<Rightarrow> 'w \<Rightarrow> bool" where
  "assertion_evidence P p cid assertion token_url c w w' \<longleftrightarrow>
     (\<exists>jwks claims aud jti now w1 w2 w3. pv_clients p cid w = (Some c, w1) \<and> cl_jwks c = Some jwks \<and>
        jwt_decode_with_jwkset P jwks assertion (assertion_validation P p cid) w1 = (Inr claims, w2) \<and>
        c_aud claims = Some aud \<and> (aud_contains aud token_url \<or> aud_contains aud (issuer p)) \<and>
        c_jti claims = Some jti \<and> now_secs P w2 = (now, w3) \<and>
        pv_token_use_store p (assertion_use_hash P cid jti)
          (assertion_ttl (pv_client_assertion_max_age p) (v_leeway (validation_new P)) now claims) w3 = (Inr True, w'))"

lemma require_client_ok:
  "require_client p e cid w = (Inr c, w') \<longleftrightarrow> pv_clients p cid w = (Some c, w')"
  by (auto simp: require_client_def prog_ok)

lemma check_secret_ok:
  "check_secret p cid secret method w = (Inr c, w') \<Longrightarrow>
     secret_evidence p cid secret c w w' \<and> cl_token_endpoint_auth_method c = method"
  by (auto simp: check_secret_def prog_ok require_client_ok secret_evidence_def constant_time_eq_iff
      split: option.splits)

lemma verify_private_key_jwt_ok:
  assumes "verify_private_key_jwt P p assertion form token_url w = (Inr c, w')"
  shows "\<exists>cid. assertion_client_id P assertion form = Inr cid \<and>
    assertion_evidence P p cid assertion token_url c w w' \<and>
    cl_token_endpoint_auth_method c = AUTH_PRIVATE_KEY_JWT"
proof -
  from assms obtain cid jwks claims jti now w1 w2 w3 where
    f: "assertion_client_id P assertion form = Inr cid" "pv_clients p cid w = (Some c, w1)"
    "cl_token_endpoint_auth_method c = AUTH_PRIVATE_KEY_JWT" "cl_jwks c = Some jwks"
    "jwt_decode_with_jwkset P jwks assertion (assertion_validation P p cid) w1 = (Inr claims, w2)"
    "case c_aud claims of Some aud \<Rightarrow> aud_contains aud token_url \<or> aud_contains aud (issuer p) | None \<Rightarrow> False"
    "c_jti claims = Some jti" "now_secs P w2 = (now, w3)"
    "pv_token_use_store p (assertion_use_hash P cid jti)
       (assertion_ttl (pv_client_assertion_max_age p) (v_leeway (validation_new P)) now claims) w3
       = (Inr True, w')"
    by (auto simp: verify_private_key_jwt_def verify_with_jwks_def prog_ok require_client_ok Let_def
        assertion_validation_def)
  from f(6) obtain aud where "c_aud claims = Some aud" "aud_contains aud token_url \<or> aud_contains aud (issuer p)"
    by (auto split: option.splits)
  with f have "assertion_evidence P p cid assertion token_url c w w'"
    unfolding assertion_evidence_def by blast
  with f(1,3) show ?thesis by blast
qed

text \<open>The four ways through \<open>authenticate_client_map\<close>, by what the request carries.\<close>

lemma authenticate_by_assertion:
  assumes "authenticate_client_map P p form auth_header token_url w = (Inr c, w')"
    and "map_of form ''client_assertion'' \<noteq> None \<or> map_of form ''client_assertion_type'' \<noteq> None"
  shows "auth_header = None \<and> map_of form ''client_secret'' = None \<and>
    map_of form ''client_assertion_type'' = Some CLIENT_ASSERTION_TYPE \<and>
    (\<exists>assertion. map_of form ''client_assertion'' = Some assertion \<and>
       verify_private_key_jwt P p assertion form token_url w = (Inr c, w'))"
  using assms unfolding authenticate_client_map_def Let_def bt_contains_key_def
  by (auto simp: prog_ok split: if_splits option.splits)

lemma authenticate_by_header:
  assumes "authenticate_client_map P p form (Some header) token_url w = (Inr c, w')"
    and "\<not> (map_of form ''client_assertion'' \<noteq> None \<or> map_of form ''client_assertion_type'' \<noteq> None)"
  shows "map_of form ''client_secret'' = None \<and>
    (\<exists>scheme credentials cid secret. split_once (CHR '' '') header = Some (scheme, credentials) \<and>
       eq_ignore_ascii_case scheme ''Basic'' \<and> decode_basic P credentials = Some (cid, secret) \<and>
       check_secret p cid secret AUTH_CLIENT_SECRET_BASIC w = (Inr c, w'))"
  using assms unfolding authenticate_client_map_def Let_def bt_contains_key_def
  by (auto simp: prog_ok split: if_splits option.splits)

lemma authenticate_by_form:
  assumes "authenticate_client_map P p form None token_url w = (Inr c, w')"
    and "\<not> (map_of form ''client_assertion'' \<noteq> None \<or> map_of form ''client_assertion_type'' \<noteq> None)"
  shows "\<exists>cid. map_of form ''client_id'' = Some cid \<and>
    (case map_of form ''client_secret'' of
       Some secret \<Rightarrow> check_secret p cid secret AUTH_CLIENT_SECRET_POST w = (Inr c, w')
     | None \<Rightarrow> pv_clients p cid w = (Some c, w') \<and> cl_token_endpoint_auth_method c = AUTH_NONE)"
  using assms unfolding authenticate_client_map_def Let_def bt_contains_key_def
  by (auto simp: prog_ok require_client_ok split: if_splits option.splits)

text \<open>
  C7.  A client is authenticated only by the one method it registered, with one set of credentials in
  the request.  By Basic or form secret, the store returned the client for the presented identifier
  and the presented secret is its secret; by assertion, one of the client's own keys verified it for
  this client as issuer and subject within the configured age, it names the token endpoint or the
  issuer as audience, and its identifier was recorded as newly used; without credentials, the client
  registered the method \<^verbatim>\<open>none\<close>.
\<close>

theorem authenticate_client_sound:
  assumes "authenticate_client_map P p form auth_header token_url w = (Inr c, w')"
  shows "cl_token_endpoint_auth_method c = presented_method form auth_header \<and>
    (auth_header \<noteq> None \<longrightarrow> map_of form ''client_secret'' = None) \<and>
    (case presented_method form auth_header of m \<Rightarrow>
      if m = AUTH_PRIVATE_KEY_JWT then
        auth_header = None \<and> map_of form ''client_secret'' = None \<and>
        map_of form ''client_assertion_type'' = Some CLIENT_ASSERTION_TYPE \<and>
        (\<exists>assertion cid. map_of form ''client_assertion'' = Some assertion \<and>
           assertion_client_id P assertion form = Inr cid \<and> assertion_evidence P p cid assertion token_url c w w')
      else if m = AUTH_CLIENT_SECRET_BASIC then
        (\<exists>header scheme credentials cid secret. auth_header = Some header \<and>
           split_once (CHR '' '') header = Some (scheme, credentials) \<and>
           eq_ignore_ascii_case scheme ''Basic'' \<and> decode_basic P credentials = Some (cid, secret) \<and>
           secret_evidence p cid secret c w w')
      else if m = AUTH_CLIENT_SECRET_POST then
        (\<exists>cid secret. map_of form ''client_id'' = Some cid \<and> map_of form ''client_secret'' = Some secret \<and>
           secret_evidence p cid secret c w w')
      else (\<exists>cid. map_of form ''client_id'' = Some cid \<and> pv_clients p cid w = (Some c, w')))"
proof (cases "map_of form ''client_assertion'' \<noteq> None \<or> map_of form ''client_assertion_type'' \<noteq> None")
  case True
  then have p: "presented_method form auth_header = AUTH_PRIVATE_KEY_JWT" by (simp add: presented_method_def)
  show ?thesis using authenticate_by_assertion [OF assms True] unfolding p by (auto dest!: verify_private_key_jwt_ok)
next
  case none: False
  show ?thesis
  proof (cases auth_header)
    case (Some header)
    then have p: "presented_method form auth_header = AUTH_CLIENT_SECRET_BASIC"
      using none by (simp add: presented_method_def)
    show ?thesis using authenticate_by_header [OF assms [unfolded Some] none] unfolding p by (auto simp: Some dest!: check_secret_ok)
  next
    case None
    then have p: "presented_method form auth_header =
        (if map_of form ''client_secret'' = None then AUTH_NONE else AUTH_CLIENT_SECRET_POST)"
      using none by (simp add: presented_method_def)
    show ?thesis using authenticate_by_form [OF assms [unfolded None] none] unfolding p
      by (auto simp: None dest!: check_secret_ok split: option.splits)
  qed
qed

definition secret_client :: client where
  "secret_client = sample_client\<lparr>cl_client_id := ''rp'', cl_client_secret := Some ''s3'',
     cl_token_endpoint_auth_method := AUTH_CLIENT_SECRET_POST\<rparr>"

definition post_form :: "string btree" where
  "post_form = [(''client_id'', ''rp''), (''client_secret'', ''s3'')]"

lemma sample_clients_get:
  "pv_clients sample_provider cid (fresh_world [t] [c]) =
     (if cid = cl_client_id c then Some c else None, fresh_world [t] [c])"
  by (simp add: sample_provider_def provider_new_def sample_signing_key_def clients_get_def world_clock_def
      fresh_world_def client_map_get_def with_clients_def client_map_new_def)

lemma post_form_authenticates:
  "authenticate_client_map (sample_platform world_clock []) sample_provider post_form None ''https://op/token''
     (fresh_world [7] [secret_client]) = (Inr secret_client, fresh_world [7] [secret_client])"
  by (simp add: authenticate_client_map_def post_form_def bt_contains_key_def check_secret_def require_client_def
      bindP_def effP_def sample_clients_get secret_client_def constant_time_eq_iff guardP_def)

theorem authenticate_client_sound_witness:
  "secret_evidence sample_provider ''rp'' ''s3'' secret_client
     (fresh_world [7] [secret_client]) (fresh_world [7] [secret_client])"
  using authenticate_client_sound [OF post_form_authenticates]
  by (simp add: post_form_def presented_method_def)

section \<open>Assertion replay\<close>

text \<open>
  The seconds at which \<^verbatim>\<open>jose-rs\<close> accepts an assertion, as its validation documents them: strictly
  before \<^verbatim>\<open>exp\<close> plus leeway (a fractional \<^verbatim>\<open>exp\<close> counts to the next second), and up to and including
  \<^verbatim>\<open>iat\<close> plus maximum age plus leeway.
\<close>

definition acceptable_at :: "u64 \<Rightarrow> u64 \<Rightarrow> numeric_date \<Rightarrow> numeric_date \<Rightarrow> nat \<Rightarrow> bool" where
  "acceptable_at max_age leeway exp iat t \<longleftrightarrow>
     t < unat (as_secs exp) + (if 0 < subsec_nanos exp then 1 else 0) + unat leeway \<and>
     t \<le> unat (as_secs iat) + unat max_age + unat leeway"

lemma unat_exp_deadline:
  "unat (exp_deadline leeway exp) =
     min (unat (as_secs exp) + (if 0 < subsec_nanos exp then 1 else 0) + unat leeway) (2 ^ 64 - 1)"
  by (auto simp: exp_deadline_def unat_saturating_add min_def)

lemma unat_age_deadline:
  "unat (age_deadline max_age leeway iat) =
     min (unat (as_secs iat) + unat max_age + unat leeway + 1) (2 ^ 64 - 1)"
  by (auto simp: age_deadline_def unat_saturating_add min_def)

text \<open>
  C25.  The replay entry of a client assertion outlives the assertion: at every second from the one the
  entry is made for at which the assertion would still be accepted, the lifetime given to the store
  has not run out, whatever \<^verbatim>\<open>exp\<close>, \<^verbatim>\<open>iat\<close> and fractions the client chose and although all
  arithmetic saturates.
\<close>

theorem assertion_entry_outlives_acceptance:
  assumes "c_exp claims = Some exp" and "c_iat claims = Some iat"
    and "acceptable_at max_age leeway exp iat t" and "unat now \<le> t" and "t < 2 ^ 64 - 1"
  shows "t < unat now + unat (assertion_ttl max_age leeway now claims)"
proof -
  have "t < unat (exp_deadline leeway exp)" "t < unat (age_deadline max_age leeway iat)"
    using assms(3,5) unfolding acceptable_at_def unat_exp_deadline unat_age_deadline by auto
  then have "t < unat (min (exp_deadline leeway exp) (age_deadline max_age leeway iat))"
    by (simp add: min_def)
  then show ?thesis
    using assms(1,2,4)
    by (simp add: assertion_ttl_def assertion_deadline_def unat_max_one unat_saturating_sub)
qed

theorem assertion_entry_outlives_acceptance_witness:
  "(409 :: nat) < 100 + unat (assertion_ttl 300 60 100
     (claims_default\<lparr>c_exp := Some (date_of_secs 100000), c_iat := Some (date_of_secs 50)\<rparr>))"
  using assertion_entry_outlives_acceptance
    [of "claims_default\<lparr>c_exp := Some (date_of_secs 100000), c_iat := Some (date_of_secs 50)\<rparr>"
      "date_of_secs 100000" "date_of_secs 50" 300 60 409 100]
  by (simp add: acceptable_at_def date_of_secs_def)

end
