(* ===== verification/Authorization.thy ===== *)
theory Authorization
  imports Client_Auth
begin

text \<open>
  \<^verbatim>\<open>src/provider.rs\<close>, the authorization endpoint: validation of the request against the client's
  registration, resolution of the subject against an unchanged registration, and the response.
\<close>

section \<open>Redirects with the issuer\<close>

definition check_iss_redirect_collision ::
    "'w platform \<Rightarrow> 'w provider \<Rightarrow> authorization_request \<Rightarrow> (oauth_error, unit) result" where
  "check_iss_redirect_collision P p req =
     (if \<not> pv_emit_iss p \<or> use_fragment req then Inr ()
      else
        let before_fragment = hd (split_char (CHR ''#'') (ar_redirect_uri req))
        in case split_once (CHR ''?'') before_fragment of
             None \<Rightarrow> Inr ()
           | Some (_, query) \<Rightarrow>
               if list_ex (\<lambda>(k, _). k = ''iss'') (form_urlencoded_parse P query)
               then Inl (oauth_error_new ServerError ''redirect_uri already contains an iss query parameter'')
               else Inr ())"

definition authorization_error_redirect ::
    "'w platform \<Rightarrow> 'w provider \<Rightarrow> authorization_request \<Rightarrow> oauth_error \<Rightarrow> (oauth_error, response) result" where
  "authorization_error_redirect P p req err =
     res_bind (check_iss_redirect_collision P p req) (\<lambda>_.
     let extra = (if pv_emit_iss p then [(''iss'', issuer p)] else [])
     in Inr (to_redirect_with_params P err (ar_redirect_uri req) (use_fragment req) extra))"

section \<open>Validation\<close>

definition subject_type_supported :: "'w provider \<Rightarrow> client \<Rightarrow> bool" where
  "subject_type_supported p client =
     (if cl_subject_type client = ''public'' then True
      else if cl_subject_type client = ''pairwise'' then pv_caller_managed_pairwise p
      else False)"

definition valid_s256 :: "'w platform \<Rightarrow> authorization_request \<Rightarrow> bool" where
  "valid_s256 P req =
     (case (ar_code_challenge req, ar_code_challenge_method req) of
        (Some challenge, Some method) \<Rightarrow> method = ''S256'' \<and> is_valid_s256_challenge P challenge
      | _ \<Rightarrow> False)"

definition omitted_for_confidential :: "client \<Rightarrow> authorization_request \<Rightarrow> bool" where
  "omitted_for_confidential client req \<longleftrightarrow>
     ar_code_challenge req = None \<and> ar_code_challenge_method req = None \<and>
     cl_token_endpoint_auth_method client \<noteq> AUTH_NONE"

definition scope_within_registration :: "client \<Rightarrow> authorization_request \<Rightarrow> bool" where
  "scope_within_registration client req =
     (case cl_scope client of
        None \<Rightarrow> True
      | Some registered \<Rightarrow> list_all (\<lambda>s. s \<in> set (split_whitespace registered)) (scopes req))"

definition validate_for_client ::
    "'w platform \<Rightarrow> 'w provider \<Rightarrow> authorization_request \<Rightarrow> client \<Rightarrow> (oauth_error, client) result" where
  "validate_for_client P p req client =
     res_bind (ensure (allows_redirect client (ar_redirect_uri req))
       (invalid_request ''redirect_uri not registered'')) (\<lambda>_.
     res_bind (ensure (case ar_state req of Some s \<Rightarrow> is_valid_state s | None \<Rightarrow> True)
       (invalid_request ''invalid state parameter'')) (\<lambda>_.
     res_bind (ensure (\<not> list_ex (\<lambda>c. is_whitespace c \<or> is_control c) (chars (ar_redirect_uri req)))
       (invalid_request ''redirect_uri must not contain whitespace or control characters'')) (\<lambda>_.
     res_bind (map_err (\<lambda>_. invalid_request ''redirect_uri must be an absolute URI'')
       (url_parse P (ar_redirect_uri req))) (\<lambda>redirect_uri.
     res_bind (ensure (u_fragment redirect_uri = None)
       (invalid_request ''redirect_uri must not contain a fragment'')) (\<lambda>_.
     res_bind (ensure (subject_type_supported p client)
       (with_state (ar_state req) (oauth_error_new UnauthorizedClient
         ''registered subject identifier type is not supported by this provider''))) (\<lambda>_.
     res_bind (validate_response_type req) (\<lambda>_.
     res_bind (validate_prompt req) (\<lambda>_.
     res_bind (validate_response_mode req) (\<lambda>_.
     res_bind (ensure (\<not> (wants_id_token req \<and> (wants_code req \<or> wants_access_token req) \<and>
         \<not> supports_oidc_token_hash (sk_alg (pv_signing_key p))))
       (with_state (ar_state req) (oauth_error_new UnsupportedResponseType
         ''the configured signing algorithm does not define OIDC c_hash/at_hash''))) (\<lambda>_.
     res_bind (ensure (allows_response_type client (ar_response_type req))
       (with_state (ar_state req) (oauth_error_new UnauthorizedClient
         ''response_type not allowed for client''))) (\<lambda>_.
     res_bind (ensure (\<not> (wants_id_token req \<and> ar_nonce req = None))
       (with_state (ar_state req) (invalid_request ''nonce is required for implicit/hybrid flows''))) (\<lambda>_.
     res_bind (ensure (\<not> (wants_code req \<and> \<not> valid_s256 P req \<and> \<not> omitted_for_confidential client req))
       (with_state (ar_state req) (invalid_request
         (if cl_token_endpoint_auth_method client = AUTH_NONE then ''public clients must use S256 PKCE''
          else ''PKCE must use a canonical S256 code_challenge and method'')))) (\<lambda>_.
     res_bind (ensure (scope_within_registration client req)
       (with_state (ar_state req) (oauth_error_new InvalidScope
         ''requested scope exceeds the client's registered scope''))) (\<lambda>_.
     Inr client))))))))))))))"

definition validate_authorization_request ::
    "'w platform \<Rightarrow> 'w provider \<Rightarrow> authorization_request \<Rightarrow> ('w, oauth_error, client) prog" where
  "validate_authorization_request P p req =
     bindP (require_client p (invalid_request ''unknown client_id'') (ar_client_id req)) (\<lambda>client.
     liftR (validate_for_client P p req client))"

section \<open>The response\<close>

fun insert_asserted :: "string \<Rightarrow> json btree \<Rightarrow> json btree \<Rightarrow> json btree" where
  "insert_asserted scope claims [] = claims"
| "insert_asserted scope claims ((k, v) # extra) =
     insert_asserted scope
       (if is_reserved_id_token_claim k then claims
        else if claim_allowed_by_scope scope k then bt_insert k v claims
        else claims) extra"

definition released_claims :: "string \<Rightarrow> string list btree \<Rightarrow> json btree \<Rightarrow> json btree" where
  "released_claims scope external_claims extra_claims =
     insert_asserted scope (filter_claims scope (flatten_claims external_claims)) extra_claims"

definition mint_access_payload ::
    "'w provider \<Rightarrow> authorization_request \<Rightarrow> string \<Rightarrow> json btree \<Rightarrow> u64 \<Rightarrow> access_token_payload" where
  "mint_access_payload p req sub claims now =
     \<lparr>at_client_id = ar_client_id req, at_sub = sub, at_scope = ar_scope req, at_claims = claims,
      at_exp = now + access_token_ttl (pv_lifetimes p), at_cnf_jkt = None\<rparr>"

definition mint_code_payload ::
    "'w provider \<Rightarrow> authorization_request \<Rightarrow> string \<Rightarrow> json btree \<Rightarrow> string option \<Rightarrow> u64 \<Rightarrow> u64 \<Rightarrow> auth_code_payload" where
  "mint_code_payload p req sub claims acr auth_time now =
     \<lparr>ac_client_id = ar_client_id req, ac_redirect_uri = ar_redirect_uri req, ac_scope = ar_scope req,
      ac_sub = sub, ac_nonce = ar_nonce req, ac_code_challenge = ar_code_challenge req,
      ac_code_challenge_method = ar_code_challenge_method req, ac_claims = claims, ac_auth_time = auth_time,
      ac_exp = now + code_ttl (pv_lifetimes p), ac_acr = acr\<rparr>"

definition whenP :: "bool \<Rightarrow> ('w, 'e, 'a) prog \<Rightarrow> ('w, 'e, 'a option) prog" where
  "whenP b m = (if b then bindP m (\<lambda>x. retP (Some x)) else retP None)"

definition response_params ::
    "'w provider \<Rightarrow> authorization_request \<Rightarrow> string option \<Rightarrow> string option \<Rightarrow> string option \<Rightarrow>
     (string \<times> string) list" where
  "response_params p req id_token code access_token =
     (case id_token of Some t \<Rightarrow> [(''id_token'', t)] | None \<Rightarrow> [])
     @ (case code of Some c \<Rightarrow> [(''code'', c)] | None \<Rightarrow> [])
     @ (case access_token of
          Some t \<Rightarrow> [(''access_token'', t), (''token_type'', ''Bearer''),
                     (''expires_in'', u64_str (access_token_ttl (pv_lifetimes p)))]
        | None \<Rightarrow> [])
     @ (case ar_state req of Some s \<Rightarrow> [(''state'', s)] | None \<Rightarrow> [])
     @ (if pv_emit_iss p then [(''iss'', issuer p)] else [])"

definition mint_authorization_response ::
    "'w platform \<Rightarrow> 'w provider \<Rightarrow> authorization_request \<Rightarrow> string \<Rightarrow> string list btree \<Rightarrow> string option \<Rightarrow>
     json btree \<Rightarrow> u64 option \<Rightarrow> ('w, oauth_error, response) prog" where
  "mint_authorization_response P p req sub external_claims acr extra_claims auth_time0 =
     bindP (liftR (check_iss_redirect_collision P p req)) (\<lambda>_.
     guardP (sub \<noteq> []) (oauth_error_new ServerError ''subject identifier must not be empty'') (
     let claims = released_claims (ar_scope req) external_claims extra_claims in
     bindP (effP (now_secs P)) (\<lambda>now.
     let auth_time = (case auth_time0 of Some t \<Rightarrow> t | None \<Rightarrow> now) in
     bindP (whenP (wants_access_token req) (mapErrP server_error
       (seal_access_token P (pv_codec p) (mint_access_payload p req sub claims now)))) (\<lambda>access_token.
     bindP (whenP (wants_code req) (mapErrP server_error
       (seal_code P (pv_codec p) (mint_code_payload p req sub claims acr auth_time now)))) (\<lambda>code.
     bindP (whenP (wants_id_token req) (mapErrP server_error
       (build_id_token P p (ar_client_id req) sub (ar_nonce req) claims acr auth_time code access_token))) (\<lambda>id_token.
     retP (redirect_with P (ar_redirect_uri req) (response_params p req id_token code access_token)
       (use_fragment req))))))))"

text \<open>The serialised registration, with each key's extension members kept apart.\<close>

definition registration_value :: "'w platform \<Rightarrow> client \<Rightarrow> (oauth_error, json) result" where
  "registration_value P c =
     map_err (\<lambda>_. oauth_error_new ServerError ''cannot compare client registration'')
       (res_bind
         (case cl_jwks c of
            None \<Rightarrow> Inr []
          | Some keys \<Rightarrow>
              res_bind (jwk_set_to_value P (List.map (\<lambda>k. k\<lparr>jwk_extra := []\<rparr>) keys)) (\<lambda>j. Inr [(''jwks'', j)]))
         (\<lambda>jwks. Inr (JArray
            [JObject ([(''client_id'', JString (cl_client_id c))]
               @ opt_json ''client_secret'' (cl_client_secret c)
               @ [(''redirect_uris'', json_strings (cl_redirect_uris c)),
                  (''response_types'', json_strings (cl_response_types c)),
                  (''grant_types'', json_strings (cl_grant_types c)),
                  (''token_endpoint_auth_method'', JString (cl_token_endpoint_auth_method c))]
               @ jwks
               @ opt_json ''scope'' (cl_scope c)
               @ [(''subject_type'', JString (cl_subject_type c))]
               @ opt_json ''client_name'' (cl_client_name c)),
             (case cl_jwks c of
                None \<Rightarrow> JNull
              | Some keys \<Rightarrow> JArray (List.map (\<lambda>k. JObject (jwk_extra k)) keys))])))"

definition registration_unchanged :: "'w platform \<Rightarrow> client \<Rightarrow> client option \<Rightarrow> (oauth_error, bool) result" where
  "registration_unchanged P client current =
     (case current of
        None \<Rightarrow> Inr False
      | Some c \<Rightarrow>
          res_bind (registration_value P client) (\<lambda>a.
          res_bind (registration_value P c) (\<lambda>b.
          Inr (a = b))))"

definition authorization_redirect_resolved ::
    "'w platform \<Rightarrow> 'w provider \<Rightarrow> authorization_request \<Rightarrow> (client \<Rightarrow> (oauth_error, string) result) \<Rightarrow>
     string list btree \<Rightarrow> string option \<Rightarrow> json btree \<Rightarrow> u64 option \<Rightarrow> ('w, oauth_error, response) prog" where
  "authorization_redirect_resolved P p req resolve_subject external_claims acr extra_claims auth_time =
     bindP (validate_authorization_request P p req) (\<lambda>client.
     bindP (liftR (resolve_subject client)) (\<lambda>sub.
     bindP (effP (pv_clients p (ar_client_id req))) (\<lambda>current.
     bindP (liftR (registration_unchanged P client current)) (\<lambda>unchanged.
     guardP unchanged
       (with_state (ar_state req) (oauth_error_new UnauthorizedClient
         ''client registration changed during subject resolution'')) (
     mint_authorization_response P p req sub external_claims acr extra_claims auth_time)))))"

definition public_subject ::
    "authorization_request \<Rightarrow> string \<Rightarrow> client \<Rightarrow> (oauth_error, string) result" where
  "public_subject req sub client =
     (if cl_subject_type client \<noteq> ''public''
      then Inl (with_state (ar_state req) (oauth_error_new UnauthorizedClient
             ''pairwise subjects require an issuance-time subject resolver''))
      else Inr sub)"

definition authorization_redirect_with_auth_time ::
    "'w platform \<Rightarrow> 'w provider \<Rightarrow> authorization_request \<Rightarrow> string \<Rightarrow> string list btree \<Rightarrow> string option \<Rightarrow>
     json btree \<Rightarrow> u64 option \<Rightarrow> ('w, oauth_error, response) prog" where
  "authorization_redirect_with_auth_time P p req sub external_claims acr extra_claims auth_time =
     authorization_redirect_resolved P p req (public_subject req sub) external_claims acr extra_claims auth_time"

definition authorization_redirect_with_claims ::
    "'w platform \<Rightarrow> 'w provider \<Rightarrow> authorization_request \<Rightarrow> string \<Rightarrow> string list btree \<Rightarrow> string option \<Rightarrow>
     json btree \<Rightarrow> ('w, oauth_error, response) prog" where
  "authorization_redirect_with_claims P p req sub external_claims acr extra_claims =
     authorization_redirect_with_auth_time P p req sub external_claims acr extra_claims None"

definition authorization_redirect ::
    "'w platform \<Rightarrow> 'w provider \<Rightarrow> authorization_request \<Rightarrow> string \<Rightarrow> string list btree \<Rightarrow> string option \<Rightarrow>
     ('w, oauth_error, response) prog" where
  "authorization_redirect P p req sub external_claims acr =
     authorization_redirect_with_claims P p req sub external_claims acr []"

definition authorization_redirect_with_claims_and_subject_resolver ::
    "'w platform \<Rightarrow> 'w provider \<Rightarrow> authorization_request \<Rightarrow> (client \<Rightarrow> (oauth_error, string) result) \<Rightarrow>
     string list btree \<Rightarrow> string option \<Rightarrow> json btree \<Rightarrow> ('w, oauth_error, response) prog" where
  "authorization_redirect_with_claims_and_subject_resolver P p req resolve_subject external_claims acr extra_claims =
     authorization_redirect_resolved P p req resolve_subject external_claims acr extra_claims None"

definition authorization_redirect_with_subject_resolver ::
    "'w platform \<Rightarrow> 'w provider \<Rightarrow> authorization_request \<Rightarrow> (client \<Rightarrow> (oauth_error, string) result) \<Rightarrow>
     string list btree \<Rightarrow> string option \<Rightarrow> ('w, oauth_error, response) prog" where
  "authorization_redirect_with_subject_resolver P p req resolve_subject external_claims acr =
     authorization_redirect_with_claims_and_subject_resolver P p req resolve_subject external_claims acr []"

section \<open>Validated requests\<close>

lemmas validate_for_client_ok =
  validate_for_client_def res_bind_eq_Inr ensure_eq_Inr map_err_eq_Inr

lemma validate_authorization_request_ok:
  "validate_authorization_request P p req w = (Inr c, w') \<longleftrightarrow>
     pv_clients p (ar_client_id req) w = (Some c, w') \<and> validate_for_client P p req c = Inr c"
  by (auto simp: validate_authorization_request_def prog_ok require_client_ok validate_for_client_ok)

lemma response_members:
  assumes "validate_response_type req = Inr ()"
  shows "wants_code req \<or> wants_id_token req" and "wants_id_token req \<longrightarrow> is_oidc req"
proof -
  from assms obtain t where t: "t \<in> set supported_response_types" "response_type_eq (ar_response_type req) t"
    by (auto simp: validate_response_type_def list_ex_iff split: if_splits)
  then show "wants_code req \<or> wants_id_token req"
    using supported_split_whitespace [OF t(2,1)] supported_type_members [OF t(1)]
    by (auto simp: wants_code_def wants_id_token_def)
  show "wants_id_token req \<longrightarrow> is_oidc req"
    using assms by (auto simp: validate_response_type_def split: if_splits)
qed

text \<open>
  C20.  An authorization request that passes validation names a client the store returned, a redirect
  URI that client registered, absolute, without fragment, whitespace or control characters; it asks
  for a response type the client registered, with \<^verbatim>\<open>openid\<close> and a nonce when an ID token comes from
  this endpoint; a code for a public client is bound to a canonical S256 challenge, and a confidential
  client either uses one or sends no PKCE parameter at all; the scopes are within the registered ones;
  and the client's subject type is one this provider supports.
\<close>

theorem validated_authorization_request:
  assumes "validate_authorization_request P p req w = (Inr c, w')"
  shows "pv_clients p (ar_client_id req) w = (Some c, w') \<and>
    ar_redirect_uri req \<in> set (cl_redirect_uris c) \<and>
    (\<exists>u. url_parse P (ar_redirect_uri req) = Inr u \<and> u_fragment u = None) \<and>
    list_all (\<lambda>x. \<not> is_whitespace x \<and> \<not> is_control x) (chars (ar_redirect_uri req)) \<and>
    (wants_code req \<or> wants_id_token req) \<and>
    (\<exists>t \<in> set (cl_response_types c). response_type_eq t (ar_response_type req)) \<and>
    (wants_id_token req \<longrightarrow> is_oidc req \<and> ar_nonce req \<noteq> None) \<and>
    (wants_id_token req \<or> wants_access_token req \<longrightarrow> use_fragment req) \<and>
    (wants_code req \<longrightarrow> valid_s256 P req \<or>
       cl_token_endpoint_auth_method c \<noteq> AUTH_NONE \<and> ar_code_challenge req = None) \<and>
    (\<forall>r. cl_scope c = Some r \<longrightarrow> set (scopes req) \<subseteq> set (split_whitespace r)) \<and>
    (cl_subject_type c = ''public'' \<or> cl_subject_type c = ''pairwise'' \<and> pv_caller_managed_pairwise p)"
proof -
  have v: "validate_for_client P p req c = Inr c" and g: "pv_clients p (ar_client_id req) w = (Some c, w')"
    using assms by (simp_all add: validate_authorization_request_ok)
  note f = v [unfolded validate_for_client_ok]
  have "validate_response_type req = Inr ()" using f by auto
  note m = response_members [OF this]
  have mode: "validate_response_mode req = Inr ()" using f by auto
  have "wants_id_token req \<or> wants_access_token req \<longrightarrow> use_fragment req"
    using mode by (auto simp: validate_response_mode_def use_fragment_def split: option.splits if_splits)
  moreover have "\<forall>r. cl_scope c = Some r \<longrightarrow> set (scopes req) \<subseteq> set (split_whitespace r)"
    using f by (auto simp: scope_within_registration_def list_all_iff)
  moreover have "cl_subject_type c = ''public'' \<or> cl_subject_type c = ''pairwise'' \<and> pv_caller_managed_pairwise p"
    using f by (auto simp: subject_type_supported_def split: if_splits)
  moreover have "list_all (\<lambda>x. \<not> is_whitespace x \<and> \<not> is_control x) (chars (ar_redirect_uri req))"
    using f by (auto simp: list_ex_iff list_all_iff)
  moreover have "\<exists>t \<in> set (cl_response_types c). response_type_eq t (ar_response_type req)"
    using f by (auto simp: allows_response_type_def list_ex_iff)
  moreover have "ar_redirect_uri req \<in> set (cl_redirect_uris c) \<and>
      (\<exists>u. url_parse P (ar_redirect_uri req) = Inr u \<and> u_fragment u = None)"
    using f by (auto simp: allows_redirect_def)
  moreover have "wants_id_token req \<longrightarrow> ar_nonce req \<noteq> None" using f by auto
  moreover have "wants_code req \<longrightarrow> valid_s256 P req \<or>
      cl_token_endpoint_auth_method c \<noteq> AUTH_NONE \<and> ar_code_challenge req = None"
    using f by (auto simp: omitted_for_confidential_def)
  ultimately show ?thesis using g m by blast
qed

section \<open>Discovery\<close>

text \<open>The provider's own description, after any of its configuration methods.\<close>

definition describes_itself :: "'w provider \<Rightarrow> bool" where
  "describes_itself p \<longleftrightarrow>
     md_response_types_supported (pv_metadata p) =
       [''code'', ''id_token'', ''code token''] @
       (if supports_oidc_token_hash (sk_alg (pv_signing_key p))
        then [''id_token token'', ''code id_token'', ''code id_token token''] else []) \<and>
     md_response_modes_supported (pv_metadata p) = [''query'', ''fragment''] \<and>
     md_code_challenge_methods_supported (pv_metadata p) = [''S256''] \<and>
     (''pairwise'' \<in> set (md_subject_types_supported (pv_metadata p)) \<longleftrightarrow> pv_caller_managed_pairwise p) \<and>
     ''public'' \<in> set (md_subject_types_supported (pv_metadata p)) \<and>
     sk_alg (pv_signing_key p) \<notin> {HS256, HS384, HS512}"

lemma provider_new_describes: "provider_new m k cl co l st = Inr p \<Longrightarrow> describes_itself p"
  by (auto simp: provider_new_def advertised_metadata_def describes_itself_def split: if_splits)

lemma configuration_describes:
  "describes_itself p \<Longrightarrow> describes_itself (with_token_use_store st p)"
  "describes_itself p \<Longrightarrow> describes_itself (with_caller_managed_pairwise_subjects p)"
  "describes_itself p \<Longrightarrow> describes_itself (with_client_assertion_max_age secs p)"
  "describes_itself p \<Longrightarrow> describes_itself (with_authorization_response_iss p)"
  by (simp_all add: describes_itself_def with_token_use_store_def with_caller_managed_pairwise_subjects_def
      with_client_assertion_max_age_def with_authorization_response_iss_def)

definition needs_hash :: "string \<Rightarrow> bool" where
  "needs_hash t \<longleftrightarrow> ''id_token'' \<in> set (split_char (CHR '' '') t) \<and>
     (''code'' \<in> set (split_char (CHR '' '') t) \<or> ''token'' \<in> set (split_char (CHR '' '') t))"

lemma advertised_unless_hash:
  "list_all (\<lambda>t. t \<in> set [''code'', ''id_token'', ''code token''] \<or>
     t \<in> set [''id_token token'', ''code id_token'', ''code id_token token''] \<and> needs_hash t)
     supported_response_types"
  by code_simp

text \<open>
  C21.  What discovery advertises covers what the authorization endpoint accepts: for a provider that
  describes itself (every constructed and configured one does), a request that passes validation
  uses, up to the order of its values, an advertised response type, an advertised response mode, and
  for PKCE an advertised challenge method; the client's subject type is advertised too.
\<close>

theorem discovery_covers_validation:
  assumes "describes_itself p" and "validate_authorization_request P p req w = (Inr c, w')"
  shows "(\<exists>t \<in> set (md_response_types_supported (pv_metadata p)). response_type_eq (ar_response_type req) t) \<and>
    (\<forall>m. ar_response_mode req = Some m \<longrightarrow> m \<in> set (md_response_modes_supported (pv_metadata p))) \<and>
    (\<forall>m. wants_code req \<and> ar_code_challenge_method req = Some m \<longrightarrow>
       m \<in> set (md_code_challenge_methods_supported (pv_metadata p))) \<and>
    cl_subject_type c \<in> set (md_subject_types_supported (pv_metadata p))"
proof -
  have "validate_for_client P p req c = Inr c"
    using assms(2) by (simp add: validate_authorization_request_ok)
  note f = this [unfolded validate_for_client_ok]
  note d = assms(1) [unfolded describes_itself_def]
  have "validate_response_type req = Inr ()" using f by auto
  then obtain t where t: "t \<in> set supported_response_types" "response_type_eq (ar_response_type req) t"
    by (auto simp: validate_response_type_def list_ex_iff split: if_splits)
  have hash: "supports_oidc_token_hash (sk_alg (pv_signing_key p)) \<or>
      \<not> (wants_id_token req \<and> (wants_code req \<or> wants_access_token req))"
    using f by auto
  have w: "wants_code req \<longleftrightarrow> ''code'' \<in> set (split_char (CHR '' '') t)"
      "wants_id_token req \<longleftrightarrow> ''id_token'' \<in> set (split_char (CHR '' '') t)"
      "wants_access_token req \<longleftrightarrow> ''token'' \<in> set (split_char (CHR '' '') t)"
    using supported_split_whitespace [OF t(2,1)]
    by (simp_all add: wants_code_def wants_id_token_def wants_access_token_def)
  have "t \<in> set (md_response_types_supported (pv_metadata p))"
    using advertised_unless_hash t(1) hash d unfolding w needs_hash_def list_all_iff by fastforce
  moreover have "\<forall>m. ar_response_mode req = Some m \<longrightarrow> m \<in> set (md_response_modes_supported (pv_metadata p))"
    using f d by (auto simp: validate_response_mode_def split: option.splits if_splits)
  moreover have "\<forall>m. wants_code req \<and> ar_code_challenge_method req = Some m \<longrightarrow>
       m \<in> set (md_code_challenge_methods_supported (pv_metadata p))"
    using f d by (auto simp: valid_s256_def omitted_for_confidential_def split: option.splits)
  moreover have "cl_subject_type c \<in> set (md_subject_types_supported (pv_metadata p))"
    using f d by (auto simp: subject_type_supported_def split: if_splits)
  ultimately show ?thesis using t(2) by blast
qed

section \<open>A concrete request\<close>

definition auth_platform :: "json list \<Rightarrow> world platform" where
  "auth_platform vals = (sample_platform world_clock vals)
     \<lparr>url_parse := (\<lambda>s. Inr \<lparr>u_scheme = ''https'', u_host = None, u_query = None, u_fragment = None,
        u_username = [], u_password = None, u_query_pairs = [], u_text = s\<rparr>)\<rparr>"

definition code_request :: authorization_request where
  "code_request = sample_request\<lparr>ar_response_type := ''code'',
     ar_code_challenge := Some (replicate 43 (CHR ''A'')), ar_code_challenge_method := Some ''S256''\<rparr>"

definition public_client :: client where
  "public_client = sample_client\<lparr>cl_client_id := ''rp'', cl_client_secret := None,
     cl_redirect_uris := [''https://rp/cb''], cl_response_types := [''code''],
     cl_grant_types := [''authorization_code'', ''refresh_token''],
     cl_token_endpoint_auth_method := AUTH_NONE, cl_jwks := None, cl_scope := None,
     cl_subject_type := ''public''\<rparr>"

lemma code_request_challenge: "valid_s256 (auth_platform vals) code_request"
  by (simp add: valid_s256_def code_request_def is_valid_s256_challenge_def auth_platform_def sample_platform_def
      sample_b64_decode_def sample_suffix_def replicate_add [symmetric])

lemma code_request_checks:
  "validate_response_type code_request = Inr ()" "validate_prompt code_request = Inr ()"
  "validate_response_mode code_request = Inr ()" "\<not> wants_id_token code_request" "wants_code code_request"
  "\<not> wants_access_token code_request" "\<not> use_fragment code_request"
  "\<not> list_ex (\<lambda>c. is_whitespace c \<or> is_control c) (chars (ar_redirect_uri code_request))"
  "case ar_state code_request of Some s \<Rightarrow> is_valid_state s | None \<Rightarrow> True"
  "response_type_eq ''code'' (ar_response_type code_request)"
  by code_simp+

lemma code_request_valid_for: "validate_for_client (auth_platform vals) sample_provider code_request public_client = Inr public_client"
  using code_request_checks code_request_challenge [of vals]
  by (simp add: validate_for_client_def allows_redirect_def allows_response_type_def public_client_def
      subject_type_supported_def scope_within_registration_def,
      simp add: code_request_def sample_request_def auth_platform_def)

lemma code_request_valid:
  "validate_authorization_request (auth_platform vals) sample_provider code_request (fresh_world [t] [public_client]) =
     (Inr public_client, fresh_world [t] [public_client])"
  by (simp add: validate_authorization_request_ok code_request_valid_for sample_clients_get,
      simp add: public_client_def code_request_def sample_request_def)

theorem validated_authorization_request_witness:
  "ar_redirect_uri code_request \<in> set (cl_redirect_uris public_client) \<and> valid_s256 (auth_platform []) code_request"
  using validated_authorization_request [OF code_request_valid [of "[]" 5]]
  by (simp add: public_client_def code_request_challenge)

lemma sample_provider_new:
  "provider_new (metadata_new ''https://op'' ''https://op'') sample_signing_key clients_get
     (codec_new (sample_platform world_clock []) ''secret'') lifetimes_default uses_consume = Inr sample_provider"
  by (simp add: sample_provider_def provider_new_def sample_signing_key_def)

theorem discovery_covers_validation_witness:
  "\<exists>t \<in> set (md_response_types_supported (pv_metadata sample_provider)). response_type_eq ''code'' t"
  using discovery_covers_validation [OF provider_new_describes [OF sample_provider_new] code_request_valid [of "[]" 5]]
  by (simp add: code_request_def)

section \<open>Registration changes\<close>

text \<open>Serialisation of key sets without extension members loses nothing.\<close>

definition jwks_injective :: "'w platform \<Rightarrow> bool" where
  "jwks_injective P \<longleftrightarrow> (\<forall>a b j. jwk_set_to_value P a = Inr j \<and> jwk_set_to_value P b = Inr j \<and>
     (\<forall>k \<in> set a \<union> set b. jwk_extra k = []) \<longrightarrow> a = b)"

lemma map_of_opt_json [simp]:
  "map_of (opt_json k v) k' = (if k' = k then map_option JString v else None)"
  by (auto simp: opt_json_def split: option.splits)

lemma json_strings_eq [simp]: "json_strings a = json_strings b \<longleftrightarrow> a = b"
  by (simp add: json_strings_def inj_map_eq_map inj_on_def)

lemma map_option_JString [simp]: "map_option JString a = map_option JString b \<longleftrightarrow> a = b"
  by (cases a; cases b) auto

lemma keys_without_and_with_extra:
  "List.map (\<lambda>k. k\<lparr>jwk_extra := []\<rparr>) a = List.map (\<lambda>k. k\<lparr>jwk_extra := []\<rparr>) b \<Longrightarrow>
   List.map (\<lambda>k. JObject (jwk_extra k)) a = List.map (\<lambda>k. JObject (jwk_extra k)) b \<Longrightarrow> a = (b :: jwk_set)"
proof (induction a arbitrary: b)
  case (Cons k a)
  then obtain k' b' where b: "b = k' # b'" by (cases b) auto
  with Cons.prems have "k\<lparr>jwk_extra := []\<rparr> = k'\<lparr>jwk_extra := []\<rparr>" "jwk_extra k = jwk_extra k'" by auto
  then have "k = k'" by (cases k; cases k') simp
  with Cons b show ?case by auto
qed simp

definition plain_members :: "client \<Rightarrow> (string \<times> json) list" where
  "plain_members c =
     [(''client_id'', JString (cl_client_id c))] @ opt_json ''client_secret'' (cl_client_secret c)
     @ [(''redirect_uris'', json_strings (cl_redirect_uris c)), (''response_types'', json_strings (cl_response_types c)),
        (''grant_types'', json_strings (cl_grant_types c)),
        (''token_endpoint_auth_method'', JString (cl_token_endpoint_auth_method c))]
     @ opt_json ''scope'' (cl_scope c) @ [(''subject_type'', JString (cl_subject_type c))]
     @ opt_json ''client_name'' (cl_client_name c)"

definition keys_value :: "'w platform \<Rightarrow> client \<Rightarrow> json option \<Rightarrow> bool" where
  "keys_value P c v \<longleftrightarrow>
     (case cl_jwks c of
        None \<Rightarrow> v = None
      | Some ks \<Rightarrow> \<exists>j. jwk_set_to_value P (List.map (\<lambda>k. k\<lparr>jwk_extra := []\<rparr>) ks) = Inr j \<and> v = Some j)"

definition extensions_value :: "client \<Rightarrow> json" where
  "extensions_value c =
     (case cl_jwks c of None \<Rightarrow> JNull | Some ks \<Rightarrow> JArray (List.map (\<lambda>k. JObject (jwk_extra k)) ks))"

lemma registration_shape:
  assumes "registration_value P c = Inr j"
  shows "\<exists>m. j = JArray [JObject m, extensions_value c] \<and> keys_value P c (map_of m ''jwks'') \<and>
    (\<forall>k. k \<noteq> ''jwks'' \<longrightarrow> map_of m k = map_of (plain_members c) k)"
  using assms
  by (auto simp: registration_value_def result_simps keys_value_def extensions_value_def plain_members_def
      split: option.splits)

lemma plain_members_eq:
  assumes "\<forall>k. k \<noteq> ''jwks'' \<longrightarrow> map_of (plain_members a) k = map_of (plain_members b) k"
  shows "cl_client_id a = cl_client_id b \<and> cl_client_secret a = cl_client_secret b \<and>
    cl_redirect_uris a = cl_redirect_uris b \<and> cl_response_types a = cl_response_types b \<and>
    cl_grant_types a = cl_grant_types b \<and>
    cl_token_endpoint_auth_method a = cl_token_endpoint_auth_method b \<and>
    cl_scope a = cl_scope b \<and> cl_subject_type a = cl_subject_type b \<and> cl_client_name a = cl_client_name b"
proof -
  note m = assms [rule_format, unfolded plain_members_def]
  have "cl_client_secret a = cl_client_secret b" using m [of "''client_secret''"] by (simp split: option.splits)
  moreover have "cl_scope a = cl_scope b" using m [of "''scope''"] by (simp split: option.splits)
  moreover have "cl_client_name a = cl_client_name b" using m [of "''client_name''"] by simp
  ultimately show ?thesis
    using m [of "''client_id''"] m [of "''redirect_uris''"] m [of "''response_types''"]
      m [of "''grant_types''"] m [of "''token_endpoint_auth_method''"] m [of "''subject_type''"]
    by simp
qed

lemma registration_value_inj:
  assumes P: "jwks_injective P" and "registration_value P a = Inr j" and "registration_value P b = Inr j"
  shows "a = b"
proof -
  obtain ma where a: "j = JArray [JObject ma, extensions_value a]" "keys_value P a (map_of ma ''jwks'')"
      "\<forall>k. k \<noteq> ''jwks'' \<longrightarrow> map_of ma k = map_of (plain_members a) k"
    using registration_shape [OF assms(2)] by blast
  obtain mb where b: "j = JArray [JObject mb, extensions_value b]" "keys_value P b (map_of mb ''jwks'')"
      "\<forall>k. k \<noteq> ''jwks'' \<longrightarrow> map_of mb k = map_of (plain_members b) k"
    using registration_shape [OF assms(3)] by blast
  have eq: "ma = mb" "extensions_value a = extensions_value b" using a(1) b(1) by simp_all
  have plain: "\<forall>k. k \<noteq> ''jwks'' \<longrightarrow> map_of (plain_members a) k = map_of (plain_members b) k"
    using a(3) b(3) eq(1) by simp
  have "cl_jwks a = cl_jwks b"
  proof (cases "cl_jwks a")
    case None
    with a(2) b(2) eq(1) show ?thesis by (auto simp: keys_value_def split: option.splits)
  next
    case (Some ks)
    with a(2) b(2) eq(1) obtain ks' j' where ks': "cl_jwks b = Some ks'"
        "jwk_set_to_value P (List.map (\<lambda>k. k\<lparr>jwk_extra := []\<rparr>) ks) = Inr j'"
        "jwk_set_to_value P (List.map (\<lambda>k. k\<lparr>jwk_extra := []\<rparr>) ks') = Inr j'"
      by (auto simp: keys_value_def split: option.splits)
    then have "List.map (\<lambda>k. k\<lparr>jwk_extra := []\<rparr>) ks = List.map (\<lambda>k. k\<lparr>jwk_extra := []\<rparr>) ks'"
      using P [unfolded jwks_injective_def, rule_format, of _ j'] by fastforce
    moreover have "List.map (\<lambda>k. JObject (jwk_extra k)) ks = List.map (\<lambda>k. JObject (jwk_extra k)) ks'"
      using eq(2) Some ks'(1) by (simp add: extensions_value_def)
    ultimately show ?thesis using keys_without_and_with_extra Some ks'(1) by simp
  qed
  with plain_members_eq [OF plain] show ?thesis by (cases a; cases b) simp
qed

text \<open>
  C19.  Nothing is issued on a changed registration: if an authorization response is produced, the
  second lookup, made after the subject was resolved, returned exactly the registration the request
  was validated against and the subject was resolved from, in every field and every key member; the
  subject is not empty.  The hypothesis is that serialising a key set loses nothing.
\<close>

theorem issuance_on_unchanged_registration:
  assumes "jwks_injective P"
    and "authorization_redirect_resolved P p req resolve ext acr extra auth_time w = (Inr r, w')"
  shows "\<exists>c sub w1 w2. validate_authorization_request P p req w = (Inr c, w1) \<and> resolve c = Inr sub \<and>
    sub \<noteq> [] \<and> pv_clients p (ar_client_id req) w1 = (Some c, w2) \<and>
    mint_authorization_response P p req sub ext acr extra auth_time w2 = (Inr r, w')"
proof -
  from assms(2) obtain c sub w1 current w2 where f: "validate_authorization_request P p req w = (Inr c, w1)"
      "resolve c = Inr sub" "pv_clients p (ar_client_id req) w1 = (current, w2)"
      "registration_unchanged P c current = Inr True"
      and m: "mint_authorization_response P p req sub ext acr extra auth_time w2 = (Inr r, w')"
    by (auto simp: authorization_redirect_resolved_def prog_ok)
  from f(4) have "current = Some c"
    using registration_value_inj [OF assms(1)]
    by (auto simp: registration_unchanged_def result_simps split: option.splits)
  moreover have "sub \<noteq> []" using m by (auto simp: mint_authorization_response_def prog_ok)
  ultimately show ?thesis using f m by blast
qed

section \<open>A concrete response\<close>

definition minted_code :: auth_code_payload where
  "minted_code = mint_code_payload sample_provider code_request ''alice'' [] None 100 100"

definition minted_platform :: "world platform" where
  "minted_platform = auth_platform [sealed_envelope TYP_CODE (code_to_json minted_code)]"

definition minted_token :: string where
  "minted_token = pad32 ''secret''"

lemma sample_codec: "pv_codec sample_provider = \<lparr>tc_keys = [pad32 ''secret'']\<rparr>"
  by (simp add: sample_provider_def provider_new_def sample_signing_key_def codec_new_def derive_key_def sample_platform_def)

lemma minted_seals:
  "seal_code minted_platform (pv_codec sample_provider) minted_code w = (Inr minted_token, w)"
  by (simp add: seal_code_def token_seal_def minted_platform_def auth_platform_def sample_platform_def sample_codec
      minted_token_def pad32_def mapErrP_def bindP_def)

lemma minted_platform_clock: "now_secs minted_platform = world_clock"
  by (simp add: minted_platform_def auth_platform_def sample_platform_def)

lemma sample_flags: "\<not> pv_emit_iss sample_provider" "pv_lifetimes sample_provider = lifetimes_default"
  by (simp_all add: sample_provider_def provider_new_def sample_signing_key_def)

lemma minted_response:
  "mint_authorization_response minted_platform sample_provider code_request ''alice'' [] None [] None
     (fresh_world [100] cs) =
   (Inr (redirect_with minted_platform ''https://rp/cb'' [(''code'', minted_token), (''state'', ''s'')] False),
    fresh_world [100] cs)"
proof -
  have "world_clock (fresh_world [100] cs) = (100, fresh_world [100] cs)"
    by (simp add: world_clock_def fresh_world_def)
  moreover have "released_claims (ar_scope code_request) [] [] = []"
    by (simp add: released_claims_def flatten_claims_def filter_claims_def)
  ultimately show ?thesis
    using minted_seals [of "fresh_world [100] cs"] code_request_checks
    by (simp add: mint_authorization_response_def check_iss_redirect_collision_def sample_flags bindP_def effP_def
        minted_platform_clock whenP_def mapErrP_def minted_code_def response_params_def,
        simp add: code_request_def sample_request_def)
qed

lemma sample_jwks_injective: "jwks_injective minted_platform"
  by (simp add: jwks_injective_def minted_platform_def auth_platform_def sample_platform_def split: if_splits)

lemma code_issued:
  "authorization_redirect_resolved minted_platform sample_provider code_request (public_subject code_request ''alice'') [] None [] None
     (fresh_world [100] [public_client]) =
   (Inr (redirect_with minted_platform ''https://rp/cb'' [(''code'', minted_token), (''state'', ''s'')] False),
    fresh_world [100] [public_client])"
proof -
  have u: "registration_unchanged minted_platform public_client (Some public_client) = Inr True"
    by (simp add: registration_unchanged_def registration_value_def public_client_def)
  have c: "pv_clients sample_provider (ar_client_id code_request) (fresh_world [100] [public_client]) =
      (Some public_client, fresh_world [100] [public_client])"
    by (simp add: sample_clients_get) (simp add: code_request_def sample_request_def public_client_def)
  have s: "public_subject code_request ''alice'' public_client = Inr ''alice''"
    by (simp add: public_subject_def public_client_def)
  have v: "validate_authorization_request minted_platform sample_provider code_request (fresh_world [100] [public_client]) =
      (Inr public_client, fresh_world [100] [public_client])"
    unfolding minted_platform_def by (rule code_request_valid)
  show ?thesis by (simp add: authorization_redirect_resolved_def bindP_def effP_def v c s u minted_response)
qed

theorem issuance_on_unchanged_registration_witness:
  "\<exists>c sub w1 w2. validate_authorization_request minted_platform sample_provider code_request
      (fresh_world [100] [public_client]) = (Inr c, w1) \<and>
    public_subject code_request ''alice'' c = Inr sub \<and> sub \<noteq> [] \<and>
    pv_clients sample_provider (ar_client_id code_request) w1 = (Some c, w2)"
  using issuance_on_unchanged_registration [OF sample_jwks_injective code_issued] by blast

end
