(* ===== verification/Token_Endpoint.thy ===== *)
theory Token_Endpoint
  imports Authorization
begin

text \<open>
  \<^verbatim>\<open>src/provider.rs\<close>, the token and UserInfo endpoints: the authorization-code, client-credentials and
  refresh-token grants, and the claims released for an access token.
\<close>

section \<open>Authorization codes\<close>

definition public_code_has_s256 :: "auth_code_payload \<Rightarrow> bool" where
  "public_code_has_s256 payload =
     (case (ac_code_challenge payload, ac_code_challenge_method payload) of
        (Some challenge, Some method) \<Rightarrow> method = ''S256'' \<and> challenge \<noteq> []
      | _ \<Rightarrow> False)"

definition check_code_binding ::
    "'w platform \<Rightarrow> client \<Rightarrow> auth_code_payload \<Rightarrow> string btree \<Rightarrow> (oauth_error, unit) result" where
  "check_code_binding P client payload form =
     res_bind (ensure (ac_client_id payload = cl_client_id client)
       (invalid_grant ''code was issued to another client'')) (\<lambda>_.
     res_bind (ensure (ac_redirect_uri payload = [] \<or> bt_get form ''redirect_uri'' = Some (ac_redirect_uri payload))
       (invalid_grant ''redirect_uri mismatch'')) (\<lambda>_.
     res_bind (ensure (cl_token_endpoint_auth_method client = AUTH_NONE \<longrightarrow> public_code_has_s256 payload)
       (invalid_grant ''public client code was issued without S256 PKCE'')) (\<lambda>_.
     case ac_code_challenge payload of
       None \<Rightarrow> Inr ()
     | Some challenge \<Rightarrow>
         res_bind (ok_or (bt_get form ''code_verifier'') (invalid_grant ''missing code_verifier'')) (\<lambda>verifier.
         ensure (pkce_verify P verifier challenge (ac_code_challenge_method payload))
           (invalid_grant ''PKCE verification failed'')))))"

definition code_access_payload ::
    "'w provider \<Rightarrow> client \<Rightarrow> auth_code_payload \<Rightarrow> dpop_proof option \<Rightarrow> u64 \<Rightarrow> access_token_payload" where
  "code_access_payload p client payload dpop now =
     \<lparr>at_client_id = cl_client_id client, at_sub = ac_sub payload, at_scope = ac_scope payload,
      at_claims = ac_claims payload, at_exp = now + access_token_ttl (pv_lifetimes p),
      at_cnf_jkt = map_option jkt dpop\<rparr>"

definition code_refresh_payload ::
    "'w provider \<Rightarrow> client \<Rightarrow> auth_code_payload \<Rightarrow> dpop_proof option \<Rightarrow> u64 \<Rightarrow> refresh_token_payload" where
  "code_refresh_payload p client payload dpop now =
     \<lparr>rt_client_id = cl_client_id client, rt_sub = ac_sub payload, rt_scope = ac_scope payload,
      rt_nonce = ac_nonce payload, rt_claims = ac_claims payload, rt_auth_time = ac_auth_time payload,
      rt_exp = now + refresh_token_ttl (pv_lifetimes p), rt_acr = ac_acr payload,
      rt_cnf_jkt = map_option jkt dpop\<rparr>"

text \<open>\<^verbatim>\<open>supports_oidc_token_hash(..).then_some(access_token)\<close>.\<close>

definition hashable :: "'w provider \<Rightarrow> string \<Rightarrow> string option" where
  "hashable p access_token =
     (if supports_oidc_token_hash (sk_alg (pv_signing_key p)) then Some access_token else None)"

definition mint_for_code ::
    "'w platform \<Rightarrow> 'w provider \<Rightarrow> client \<Rightarrow> auth_code_payload \<Rightarrow> dpop_proof option \<Rightarrow>
     ('w, oauth_error, token_response) prog" where
  "mint_for_code P p client payload dpop =
     bindP (effP (now_secs P)) (\<lambda>now.
     bindP (mapErrP server_error (seal_access_token P (pv_codec p) (code_access_payload p client payload dpop now))) (\<lambda>access_token.
     bindP (whenP (''openid'' \<in> set (split_whitespace (ac_scope payload))) (mapErrP server_error
       (build_id_token P p (cl_client_id client) (ac_sub payload) (ac_nonce payload) (ac_claims payload)
         (ac_acr payload) (ac_auth_time payload) None (hashable p access_token)))) (\<lambda>id_token.
     bindP (whenP (client_allows_refresh client) (
       bindP (effP (now_secs P)) (\<lambda>now.
       mapErrP server_error (seal_refresh_token P (pv_codec p) (code_refresh_payload p client payload dpop now))))) (\<lambda>refresh_token.
     retP \<lparr>tr_access_token = access_token, tr_token_type = token_type dpop,
           tr_expires_in = access_token_ttl (pv_lifetimes p), tr_id_token = id_token,
           tr_scope = Some (ac_scope payload), tr_refresh_token = refresh_token\<rparr>))))"

definition handle_authorization_code ::
    "'w platform \<Rightarrow> 'w provider \<Rightarrow> string btree \<Rightarrow> string option \<Rightarrow> string \<Rightarrow> dpop_proof option \<Rightarrow>
     ('w, oauth_error, token_response) prog" where
  "handle_authorization_code P p form auth_header token_url dpop =
     bindP (authenticate_client_map P p form auth_header token_url) (\<lambda>client.
     guardP (''authorization_code'' \<in> set (cl_grant_types client))
       (invalid_grant ''authorization_code grant not allowed for client'') (
     bindP (liftR (ok_or (bt_get form ''code'') (invalid_request ''missing code''))) (\<lambda>code.
     bindP (mapErrP (\<lambda>_. invalid_grant ''invalid or expired code'') (open_code P (pv_codec p) code)) (\<lambda>payload.
     bindP (liftR (check_code_binding P client payload form)) (\<lambda>_.
     bindP (consume_token_once P p ''code'' code (ac_exp payload) ''authorization code already used'') (\<lambda>_.
     mint_for_code P p client payload dpop))))))"

section \<open>Client credentials\<close>

definition granted_scopes :: "client \<Rightarrow> string btree \<Rightarrow> string list" where
  "granted_scopes client form =
     (let allowed = split_whitespace (case cl_scope client of Some s \<Rightarrow> s | None \<Rightarrow> [])
      in case bt_get form ''scope'' of
           Some requested \<Rightarrow> filter (\<lambda>s. s \<in> set allowed) (split_whitespace requested)
         | None \<Rightarrow> allowed)"

definition handle_client_credentials ::
    "'w platform \<Rightarrow> 'w provider \<Rightarrow> string btree \<Rightarrow> string option \<Rightarrow> string \<Rightarrow> dpop_proof option \<Rightarrow>
     ('w, oauth_error, token_response) prog" where
  "handle_client_credentials P p form auth_header token_url dpop =
     bindP (authenticate_client_map P p form auth_header token_url) (\<lambda>client.
     guardP (cl_token_endpoint_auth_method client \<noteq> AUTH_NONE)
       (invalid_client ''client_credentials requires confidential client authentication'') (
     guardP (''client_credentials'' \<in> set (cl_grant_types client))
       (invalid_grant ''client_credentials grant not allowed for client'') (
     let granted = granted_scopes client form in
     guardP (''openid'' \<notin> set granted)
       (oauth_error_new InvalidScope ''openid scope requires end-user authorization'') (
     guardP (granted \<noteq> []) (oauth_error_new InvalidScope ''no valid scopes requested'') (
     let scope = join '' '' granted in
     bindP (effP (now_secs P)) (\<lambda>now.
     bindP (mapErrP server_error (seal_access_token P (pv_codec p)
       \<lparr>at_client_id = cl_client_id client, at_sub = cl_client_id client, at_scope = scope, at_claims = [],
        at_exp = now + access_token_ttl (pv_lifetimes p), at_cnf_jkt = map_option jkt dpop\<rparr>)) (\<lambda>access_token.
     retP \<lparr>tr_access_token = access_token, tr_token_type = token_type dpop,
           tr_expires_in = access_token_ttl (pv_lifetimes p), tr_id_token = None, tr_scope = Some scope,
           tr_refresh_token = None\<rparr>)))))))"

section \<open>Refresh tokens\<close>

definition refresh_confirmation ::
    "refresh_token_payload \<Rightarrow> dpop_proof option \<Rightarrow> (oauth_error, string option) result" where
  "refresh_confirmation rt dpop =
     (case rt_cnf_jkt rt of
        Some bound_jkt \<Rightarrow>
          (case dpop of
             Some proof \<Rightarrow>
               if jkt proof = bound_jkt then Inr (Some bound_jkt)
               else Inl (invalid_dpop_proof ''DPoP proof key does not match the refresh token's cnf.jkt'')
           | None \<Rightarrow> Inl (invalid_dpop_proof ''refresh token is DPoP-bound; a matching DPoP proof is required''))
      | None \<Rightarrow> Inr (map_option jkt dpop))"

definition refresh_scope :: "refresh_token_payload \<Rightarrow> string btree \<Rightarrow> (oauth_error, string) result" where
  "refresh_scope rt form =
     (case bt_get form ''scope'' of
        Some requested \<Rightarrow>
          (let requested_scopes = split_whitespace requested; original_scopes = split_whitespace (rt_scope rt)
           in if requested_scopes = [] \<or> list_ex (\<lambda>s. s \<notin> set original_scopes) requested_scopes
              then Inl (oauth_error_new InvalidScope ''requested scope exceeds original grant'')
              else Inr (join '' '' requested_scopes))
      | None \<Rightarrow> Inr (rt_scope rt))"

definition refresh_access_payload ::
    "'w provider \<Rightarrow> client \<Rightarrow> refresh_token_payload \<Rightarrow> string \<Rightarrow> json btree \<Rightarrow> string option \<Rightarrow> u64 \<Rightarrow>
     access_token_payload" where
  "refresh_access_payload p client rt scope claims cnf_jkt now =
     \<lparr>at_client_id = cl_client_id client, at_sub = rt_sub rt, at_scope = scope, at_claims = claims,
      at_exp = now + access_token_ttl (pv_lifetimes p), at_cnf_jkt = cnf_jkt\<rparr>"

definition rotated_refresh_payload ::
    "'w provider \<Rightarrow> client \<Rightarrow> refresh_token_payload \<Rightarrow> string \<Rightarrow> json btree \<Rightarrow> string option \<Rightarrow> u64 \<Rightarrow>
     refresh_token_payload" where
  "rotated_refresh_payload p client rt scope claims cnf_jkt now =
     \<lparr>rt_client_id = cl_client_id client, rt_sub = rt_sub rt, rt_scope = scope, rt_nonce = rt_nonce rt,
      rt_claims = claims, rt_auth_time = rt_auth_time rt, rt_exp = now + refresh_token_ttl (pv_lifetimes p),
      rt_acr = rt_acr rt, rt_cnf_jkt = cnf_jkt\<rparr>"

definition mint_for_refresh ::
    "'w platform \<Rightarrow> 'w provider \<Rightarrow> client \<Rightarrow> refresh_token_payload \<Rightarrow> string \<Rightarrow> string option \<Rightarrow>
     dpop_proof option \<Rightarrow> u64 \<Rightarrow> ('w, oauth_error, token_response) prog" where
  "mint_for_refresh P p client rt scope cnf_jkt dpop now =
     (let claims = filter_claims scope (rt_claims rt) in
     bindP (mapErrP server_error (seal_access_token P (pv_codec p)
       (refresh_access_payload p client rt scope claims cnf_jkt now))) (\<lambda>access_token.
     bindP (whenP (''openid'' \<in> set (split_whitespace scope)) (mapErrP server_error
       (build_id_token P p (cl_client_id client) (rt_sub rt) (rt_nonce rt) claims (rt_acr rt) (rt_auth_time rt)
         None (hashable p access_token)))) (\<lambda>id_token.
     bindP (mapErrP server_error (seal_refresh_token P (pv_codec p)
       (rotated_refresh_payload p client rt scope claims cnf_jkt now))) (\<lambda>refresh_token.
     retP \<lparr>tr_access_token = access_token, tr_token_type = token_type dpop,
           tr_expires_in = access_token_ttl (pv_lifetimes p), tr_id_token = id_token, tr_scope = Some scope,
           tr_refresh_token = Some refresh_token\<rparr>))))"

definition handle_refresh_token ::
    "'w platform \<Rightarrow> 'w provider \<Rightarrow> string btree \<Rightarrow> string option \<Rightarrow> string \<Rightarrow> dpop_proof option \<Rightarrow>
     ('w, oauth_error, token_response) prog" where
  "handle_refresh_token P p form auth_header token_url dpop =
     bindP (authenticate_client_map P p form auth_header token_url) (\<lambda>client.
     guardP (client_allows_refresh client) (invalid_grant ''refresh_token grant not allowed for client'') (
     bindP (liftR (ok_or (bt_get form ''refresh_token'') (invalid_request ''missing refresh_token''))) (\<lambda>token.
     bindP (mapErrP (\<lambda>_. invalid_grant ''invalid or expired refresh_token'') (open_refresh_token P (pv_codec p) token)) (\<lambda>rt.
     guardP (rt_client_id rt = cl_client_id client) (invalid_grant ''refresh token was issued to another client'') (
     bindP (liftR (refresh_confirmation rt dpop)) (\<lambda>cnf_jkt.
     bindP (liftR (refresh_scope rt form)) (\<lambda>scope.
     bindP (effP (now_secs P)) (\<lambda>now.
     bindP (consume_token_once P p ''refresh'' token (rt_exp rt) ''refresh token already used'') (\<lambda>_.
     mint_for_refresh P p client rt scope cnf_jkt dpop now)))))))))"

section \<open>Dispatch and UserInfo\<close>

definition handle_token_request_map ::
    "'w platform \<Rightarrow> 'w provider \<Rightarrow> string btree \<Rightarrow> string option \<Rightarrow> string \<Rightarrow> dpop_proof option \<Rightarrow>
     ('w, oauth_error, token_response) prog" where
  "handle_token_request_map P p form auth_header token_url dpop =
     bindP (liftR (ok_or (bt_get form ''grant_type'') (invalid_request ''missing grant_type''))) (\<lambda>grant_type.
     if grant_type = ''authorization_code'' then handle_authorization_code P p form auth_header token_url dpop
     else if grant_type = ''client_credentials'' then handle_client_credentials P p form auth_header token_url dpop
     else if grant_type = ''refresh_token'' then handle_refresh_token P p form auth_header token_url dpop
     else failP (oauth_error_new UnsupportedGrantType (''unsupported grant_type: '' @ grant_type)))"

definition handle_token_request ::
    "'w platform \<Rightarrow> 'w provider \<Rightarrow> (string \<times> string) list \<Rightarrow> string option \<Rightarrow> string \<Rightarrow> dpop_proof option \<Rightarrow>
     ('w, oauth_error, token_response) prog" where
  "handle_token_request P p form auth_header token_url dpop =
     bindP (liftR (unique_parameters form)) (\<lambda>form.
     handle_token_request_map P p form auth_header token_url dpop)"

definition check_token_binding :: "access_token_payload \<Rightarrow> string option \<Rightarrow> (oauth_error, unit) result" where
  "check_token_binding payload presented_jkt =
     (case at_cnf_jkt payload of
        None \<Rightarrow> Inr ()
      | Some bound_jkt \<Rightarrow>
          (case presented_jkt of
             Some j \<Rightarrow>
               if j = bound_jkt then Inr ()
               else Inl (invalid_dpop_proof ''DPoP proof key does not match the access token's cnf.jkt'')
           | None \<Rightarrow> Inl (invalid_dpop_proof ''access token is DPoP-bound; a matching DPoP proof is required'')))"

definition userinfo_claims :: "access_token_payload \<Rightarrow> json" where
  "userinfo_claims payload =
     JObject (bt_insert ''sub'' (JString (at_sub payload))
       (foldl (\<lambda>m (k, v). bt_insert k v m) [] (at_claims payload)))"

definition userinfo ::
    "'w platform \<Rightarrow> 'w provider \<Rightarrow> string \<Rightarrow> string option \<Rightarrow> ('w, oauth_error, json) prog" where
  "userinfo P p access_token presented_jkt =
     bindP (mapErrP (\<lambda>_. oauth_error_new AccessDenied ''invalid access token'')
       (open_access_token P (pv_codec p) access_token)) (\<lambda>payload.
     guardP (''openid'' \<in> set (split_whitespace (at_scope payload)))
       (oauth_error_new AccessDenied ''userinfo requires an access token with openid scope'') (
     bindP (liftR (check_token_binding payload presented_jkt)) (\<lambda>_.
     retP (userinfo_claims payload))))"

section \<open>Code exchange\<close>

lemma whenP_ok:
  "whenP b m w = (Inr v, w') \<longleftrightarrow>
     (if b then \<exists>x. m w = (Inr x, w') \<and> v = Some x else v = None \<and> w' = w)"
  by (auto simp: whenP_def prog_ok)

lemma check_code_binding_ok:
  "check_code_binding P client payload form = Inr u \<longleftrightarrow>
     ac_client_id payload = cl_client_id client \<and>
     (ac_redirect_uri payload = [] \<or> map_of form ''redirect_uri'' = Some (ac_redirect_uri payload)) \<and>
     (cl_token_endpoint_auth_method client = AUTH_NONE \<longrightarrow> public_code_has_s256 payload) \<and>
     (\<forall>ch. ac_code_challenge payload = Some ch \<longrightarrow>
        (\<exists>v. map_of form ''code_verifier'' = Some v \<and> pkce_verify P v ch (ac_code_challenge_method payload)))"
  by (auto simp: check_code_binding_def result_simps split: option.splits)

lemma handle_authorization_code_ok:
  assumes "handle_authorization_code P p form hdr url dpop w = (Inr r, w')"
  shows "\<exists>client code payload w1 w2 w3. authenticate_client_map P p form hdr url w = (Inr client, w1) \<and>
    ''authorization_code'' \<in> set (cl_grant_types client) \<and> map_of form ''code'' = Some code \<and>
    open_code P (pv_codec p) code w1 = (Inr payload, w2) \<and> check_code_binding P client payload form = Inr () \<and>
    consume_token_once P p ''code'' code (ac_exp payload) ''authorization code already used'' w2 = (Inr (), w3) \<and>
    mint_for_code P p client payload dpop w3 = (Inr r, w')"
  using assms by (auto simp: handle_authorization_code_def prog_ok)

lemma public_pkce:
  "check_code_binding P client payload form = Inr u \<Longrightarrow> cl_token_endpoint_auth_method client = AUTH_NONE \<Longrightarrow>
     \<exists>v. map_of form ''code_verifier'' = Some v \<and> is_valid_verifier v \<and>
       ac_code_challenge payload = Some (s256_challenge P v)"
  by (auto simp: check_code_binding_ok public_code_has_s256_def pkce_verify_S256 split: option.splits)

text \<open>What an answered exchange established: the client, the code, its payload and the time of issuance.\<close>

definition code_exchanged ::
    "'w platform \<Rightarrow> 'w provider \<Rightarrow> string btree \<Rightarrow> string option \<Rightarrow> string \<Rightarrow> dpop_proof option \<Rightarrow> 'w \<Rightarrow>
     token_response \<Rightarrow> client \<Rightarrow> string \<Rightarrow> auth_code_payload \<Rightarrow> u64 \<Rightarrow> 'w \<Rightarrow> 'w \<Rightarrow> 'w \<Rightarrow> 'w \<Rightarrow> 'w \<Rightarrow> bool" where
  "code_exchanged P p form hdr url dpop w r client code payload now w1 w2 w3 w4 w5 \<longleftrightarrow>
    authenticate_client_map P p form hdr url w = (Inr client, w1) \<and>
    ''authorization_code'' \<in> set (cl_grant_types client) \<and> map_of form ''code'' = Some code \<and>
    open_code P (pv_codec p) code w1 = (Inr payload, w2) \<and>
    ac_client_id payload = cl_client_id client \<and>
    (ac_redirect_uri payload = [] \<or> map_of form ''redirect_uri'' = Some (ac_redirect_uri payload)) \<and>
    (\<forall>ch. ac_code_challenge payload = Some ch \<longrightarrow>
       (\<exists>v. map_of form ''code_verifier'' = Some v \<and> pkce_verify P v ch (ac_code_challenge_method payload))) \<and>
    (cl_token_endpoint_auth_method client = AUTH_NONE \<longrightarrow>
       (\<exists>v. map_of form ''code_verifier'' = Some v \<and> is_valid_verifier v \<and>
          ac_code_challenge payload = Some (s256_challenge P v))) \<and>
    now_secs P w3 = (now, w4) \<and>
    seal_access_token P (pv_codec p)
      \<lparr>at_client_id = cl_client_id client, at_sub = ac_sub payload, at_scope = ac_scope payload,
       at_claims = ac_claims payload, at_exp = now + access_token_ttl (pv_lifetimes p),
       at_cnf_jkt = map_option jkt dpop\<rparr> w4 = (Inr (tr_access_token r), w5) \<and>
    tr_scope r = Some (ac_scope payload) \<and>
    (tr_id_token r \<noteq> None \<longleftrightarrow> ''openid'' \<in> set (split_whitespace (ac_scope payload))) \<and>
    (tr_refresh_token r \<noteq> None \<longleftrightarrow> ''refresh_token'' \<in> set (cl_grant_types client))"

lemma code_exchange:
  assumes "handle_authorization_code P p form hdr url dpop w = (Inr r, w')"
  shows "\<exists>client code payload now w1 w2 w3 w4 w5.
    code_exchanged P p form hdr url dpop w r client code payload now w1 w2 w3 w4 w5"
proof -
  obtain client code payload w1 w2 w3 where f: "authenticate_client_map P p form hdr url w = (Inr client, w1)"
      "''authorization_code'' \<in> set (cl_grant_types client)" "map_of form ''code'' = Some code"
      "open_code P (pv_codec p) code w1 = (Inr payload, w2)" and b: "check_code_binding P client payload form = Inr ()"
      and m: "mint_for_code P p client payload dpop w3 = (Inr r, w')"
    using handle_authorization_code_ok [OF assms] by blast
  from m obtain now w4 w5 where i: "now_secs P w3 = (now, w4)"
      "seal_access_token P (pv_codec p) (code_access_payload p client payload dpop now) w4 = (Inr (tr_access_token r), w5)"
      "tr_scope r = Some (ac_scope payload)"
      "tr_id_token r \<noteq> None \<longleftrightarrow> ''openid'' \<in> set (split_whitespace (ac_scope payload))"
      "tr_refresh_token r \<noteq> None \<longleftrightarrow> ''refresh_token'' \<in> set (cl_grant_types client)"
    by (auto simp: mint_for_code_def prog_ok whenP_ok client_allows_refresh_def split: if_splits)
  show ?thesis
    by (rule exI [of _ client], rule exI [of _ code], rule exI [of _ payload], rule exI [of _ now],
        rule exI [of _ w1], rule exI [of _ w2], rule exI [of _ w3], rule exI [of _ w4], rule exI [of _ w5])
      (use f b [unfolded check_code_binding_ok] public_pkce [OF b] i in
        \<open>simp add: code_exchanged_def code_access_payload_def\<close>)
qed

text \<open>
  The token endpoint redeems an authorization code only for the authenticated client it was
  issued to, registered for the grant, repeating the redirect URI of the authorization request, and
  with a code verifier that matches the challenge the code carries; a public client in particular has
  proved knowledge of a verifier whose S256 hash is that challenge.  The access token issued has the
  code's subject, scope and claims, is bound to the DPoP key presented, and an ID token is issued
  exactly for an \<^verbatim>\<open>openid\<close> grant, a refresh token exactly for a client registered for it.
\<close>

theorem code_exchange_bindings:
  assumes "handle_authorization_code P p form hdr url dpop w = (Inr r, w')"
  shows "\<exists>client code payload now w1 w2 w3 w4 w5. authenticate_client_map P p form hdr url w = (Inr client, w1) \<and>
    ''authorization_code'' \<in> set (cl_grant_types client) \<and> map_of form ''code'' = Some code \<and>
    open_code P (pv_codec p) code w1 = (Inr payload, w2) \<and>
    ac_client_id payload = cl_client_id client \<and>
    (ac_redirect_uri payload = [] \<or> map_of form ''redirect_uri'' = Some (ac_redirect_uri payload)) \<and>
    (\<forall>ch. ac_code_challenge payload = Some ch \<longrightarrow>
       (\<exists>v. map_of form ''code_verifier'' = Some v \<and> pkce_verify P v ch (ac_code_challenge_method payload))) \<and>
    (cl_token_endpoint_auth_method client = AUTH_NONE \<longrightarrow>
       (\<exists>v. map_of form ''code_verifier'' = Some v \<and> is_valid_verifier v \<and>
          ac_code_challenge payload = Some (s256_challenge P v))) \<and>
    now_secs P w3 = (now, w4) \<and>
    seal_access_token P (pv_codec p)
      \<lparr>at_client_id = cl_client_id client, at_sub = ac_sub payload, at_scope = ac_scope payload,
       at_claims = ac_claims payload, at_exp = now + access_token_ttl (pv_lifetimes p),
       at_cnf_jkt = map_option jkt dpop\<rparr> w4 = (Inr (tr_access_token r), w5) \<and>
    tr_scope r = Some (ac_scope payload) \<and>
    (tr_id_token r \<noteq> None \<longleftrightarrow> ''openid'' \<in> set (split_whitespace (ac_scope payload))) \<and>
    (tr_refresh_token r \<noteq> None \<longleftrightarrow> ''refresh_token'' \<in> set (cl_grant_types client))"
  using code_exchange [OF assms] unfolding code_exchanged_def .

section \<open>Client credentials\<close>

text \<open>
  C27.  The client-credentials grant issues a token only to a confidential client registered for the
  grant, whose subject is the client itself, with at least one scope, all of them registered for the
  client and, when scopes were requested, requested; never \<^verbatim>\<open>openid\<close>; and it issues neither an ID
  token nor a refresh token.
\<close>

theorem client_credentials_grant:
  assumes "handle_client_credentials P p form hdr url dpop w = (Inr r, w')"
  shows "\<exists>client granted now w1 w2. authenticate_client_map P p form hdr url w = (Inr client, w1) \<and>
    cl_token_endpoint_auth_method client \<noteq> AUTH_NONE \<and> ''client_credentials'' \<in> set (cl_grant_types client) \<and>
    granted \<noteq> [] \<and> ''openid'' \<notin> set granted \<and>
    (\<exists>registered. cl_scope client = Some registered \<and> set granted \<subseteq> set (split_whitespace registered)) \<and>
    (\<forall>requested. map_of form ''scope'' = Some requested \<longrightarrow> set granted \<subseteq> set (split_whitespace requested)) \<and>
    now_secs P w1 = (now, w2) \<and>
    seal_access_token P (pv_codec p)
      \<lparr>at_client_id = cl_client_id client, at_sub = cl_client_id client, at_scope = join '' '' granted,
       at_claims = [], at_exp = now + access_token_ttl (pv_lifetimes p), at_cnf_jkt = map_option jkt dpop\<rparr> w2
      = (Inr (tr_access_token r), w') \<and>
    tr_scope r = Some (join '' '' granted) \<and> tr_id_token r = None \<and> tr_refresh_token r = None"
proof -
  from assms obtain client now w1 w2 where a: "authenticate_client_map P p form hdr url w = (Inr client, w1)"
      "cl_token_endpoint_auth_method client \<noteq> AUTH_NONE" "''client_credentials'' \<in> set (cl_grant_types client)"
      "granted_scopes client form \<noteq> []" "''openid'' \<notin> set (granted_scopes client form)" "now_secs P w1 = (now, w2)"
      "seal_access_token P (pv_codec p)
        \<lparr>at_client_id = cl_client_id client, at_sub = cl_client_id client,
         at_scope = join '' '' (granted_scopes client form),
         at_claims = [], at_exp = now + access_token_ttl (pv_lifetimes p), at_cnf_jkt = map_option jkt dpop\<rparr> w2
        = (Inr (tr_access_token r), w')"
      "tr_scope r = Some (join '' '' (granted_scopes client form))" "tr_id_token r = None" "tr_refresh_token r = None"
    by (auto simp: handle_client_credentials_def prog_ok Let_def)
  have "split_whitespace [] = []" by code_simp
  then have "\<exists>registered. cl_scope client = Some registered \<and>
      set (granted_scopes client form) \<subseteq> set (split_whitespace registered)"
    using a(4) by (auto simp: granted_scopes_def Let_def split: option.splits)
  moreover have "\<forall>requested. map_of form ''scope'' = Some requested \<longrightarrow>
      set (granted_scopes client form) \<subseteq> set (split_whitespace requested)"
    by (auto simp: granted_scopes_def Let_def)
  ultimately show ?thesis using a by blast
qed

section \<open>Refresh\<close>

lemma handle_refresh_token_ok:
  assumes "handle_refresh_token P p form hdr url dpop w = (Inr r, w')"
  shows "\<exists>client token rt cnf scope now w1 w2 w3 w4. authenticate_client_map P p form hdr url w = (Inr client, w1) \<and>
    client_allows_refresh client \<and> map_of form ''refresh_token'' = Some token \<and>
    open_refresh_token P (pv_codec p) token w1 = (Inr rt, w2) \<and> rt_client_id rt = cl_client_id client \<and>
    refresh_confirmation rt dpop = Inr cnf \<and> refresh_scope rt form = Inr scope \<and> now_secs P w2 = (now, w3) \<and>
    consume_token_once P p ''refresh'' token (rt_exp rt) ''refresh token already used'' w3 = (Inr (), w4) \<and>
    mint_for_refresh P p client rt scope cnf dpop now w4 = (Inr r, w')"
  using assms by (auto simp: handle_refresh_token_def prog_ok)

lemma refresh_confirmation_ok:
  "refresh_confirmation rt dpop = Inr cnf \<longleftrightarrow>
     (case rt_cnf_jkt rt of None \<Rightarrow> cnf = map_option jkt dpop
      | Some j \<Rightarrow> cnf = Some j \<and> (\<exists>proof. dpop = Some proof \<and> jkt proof = j))"
  by (auto simp: refresh_confirmation_def split: option.splits if_splits)

lemma refresh_scope_narrows:
  "refresh_scope rt form = Inr scope \<Longrightarrow>
     set (split_whitespace scope) \<subseteq> set (split_whitespace (rt_scope rt))"
  by (auto simp: refresh_scope_def Let_def list_ex_iff split: option.splits if_splits)

lemma filter_claims_Some:
  "map_of (filter_claims scope claims) k = (if claim_allowed_by_scope scope k then map_of claims k else None)"
  by (simp add: filter_claims_def map_of_filter_key)

text \<open>
  A refresh succeeds only for the authenticated client the refresh token was issued to,
  registered for the grant; it seals the rotated token, and an access token, for the same subject with
  a scope within the granted one and only the claims that scope allows, both bound to the same key.
\<close>

theorem refresh_rotates:
  assumes "handle_refresh_token P p form hdr url dpop w = (Inr r, w')"
  shows "\<exists>client token rt rt' now w1 w2 w3 w4 w5 w6. authenticate_client_map P p form hdr url w = (Inr client, w1) \<and>
    ''refresh_token'' \<in> set (cl_grant_types client) \<and> map_of form ''refresh_token'' = Some token \<and>
    open_refresh_token P (pv_codec p) token w1 = (Inr rt, w2) \<and> now_secs P w2 = (now, w3) \<and>
    consume_token_once P p ''refresh'' token (rt_exp rt) ''refresh token already used'' w3 = (Inr (), w4) \<and>
    rt_client_id rt = cl_client_id client \<and> refresh_confirmation rt dpop = Inr (rt_cnf_jkt rt') \<and>
    refresh_scope rt form = Inr (rt_scope rt') \<and>
    rt' = rotated_refresh_payload p client rt (rt_scope rt') (filter_claims (rt_scope rt') (rt_claims rt)) (rt_cnf_jkt rt') now \<and>
    seal_access_token P (pv_codec p)
      \<lparr>at_client_id = rt_client_id rt, at_sub = rt_sub rt, at_scope = rt_scope rt', at_claims = rt_claims rt',
       at_exp = now + access_token_ttl (pv_lifetimes p), at_cnf_jkt = rt_cnf_jkt rt'\<rparr> w4
      = (Inr (tr_access_token r), w5) \<and>
    seal_refresh_token P (pv_codec p) rt' w6 = (Inr (the (tr_refresh_token r)), w') \<and>
    tr_refresh_token r \<noteq> None \<and> tr_scope r = Some (rt_scope rt') \<and>
    (tr_id_token r \<noteq> None \<longleftrightarrow> ''openid'' \<in> set (split_whitespace (rt_scope rt')))"
proof -
  obtain client token rt cnf scope now w1 w2 w3 w4 where
      f: "authenticate_client_map P p form hdr url w = (Inr client, w1)" "client_allows_refresh client"
      "map_of form ''refresh_token'' = Some token" "open_refresh_token P (pv_codec p) token w1 = (Inr rt, w2)"
      "rt_client_id rt = cl_client_id client" "refresh_confirmation rt dpop = Inr cnf"
      "refresh_scope rt form = Inr scope" "now_secs P w2 = (now, w3)"
      "consume_token_once P p ''refresh'' token (rt_exp rt) ''refresh token already used'' w3 = (Inr (), w4)"
      and m: "mint_for_refresh P p client rt scope cnf dpop now w4 = (Inr r, w')"
    using handle_refresh_token_ok [OF assms] by blast
  let ?rt' = "rotated_refresh_payload p client rt scope (filter_claims scope (rt_claims rt)) cnf now"
  from m obtain w5 w6 where i:
      "seal_access_token P (pv_codec p) (refresh_access_payload p client rt scope (filter_claims scope (rt_claims rt)) cnf now) w4
        = (Inr (tr_access_token r), w5)"
      "seal_refresh_token P (pv_codec p) ?rt' w6 = (Inr (the (tr_refresh_token r)), w')"
      "tr_refresh_token r \<noteq> None" "tr_scope r = Some scope"
      "tr_id_token r \<noteq> None \<longleftrightarrow> ''openid'' \<in> set (split_whitespace scope)"
    by (auto simp: mint_for_refresh_def prog_ok whenP_ok Let_def split: if_splits)
  show ?thesis
    by (rule exI [of _ client], rule exI [of _ token], rule exI [of _ rt], rule exI [of _ ?rt'], rule exI [of _ now],
        rule exI [of _ w1], rule exI [of _ w2], rule exI [of _ w3], rule exI [of _ w4], rule exI [of _ w5],
        rule exI [of _ w6])
      (use f i in \<open>simp add: refresh_access_payload_def rotated_refresh_payload_def client_allows_refresh_def\<close>)
qed

lemma rotation_narrows:
  assumes "refresh_confirmation rt dpop = Inr cnf" and "refresh_scope rt form = Inr scope" and "rt_client_id rt = cl_client_id client"
    and "rt' = rotated_refresh_payload p client rt scope (filter_claims scope (rt_claims rt)) cnf now"
  shows "rt_client_id rt' = rt_client_id rt \<and> rt_sub rt' = rt_sub rt \<and> rt_nonce rt' = rt_nonce rt \<and>
    rt_auth_time rt' = rt_auth_time rt \<and> rt_acr rt' = rt_acr rt \<and>
    set (split_whitespace (rt_scope rt')) \<subseteq> set (split_whitespace (rt_scope rt)) \<and>
    (\<forall>k v. map_of (rt_claims rt') k = Some v \<longrightarrow>
       map_of (rt_claims rt) k = Some v \<and> claim_allowed_by_scope (rt_scope rt') k) \<and>
    (\<forall>j. rt_cnf_jkt rt = Some j \<longrightarrow> rt_cnf_jkt rt' = Some j)"
  using assms refresh_scope_narrows [OF assms(2)]
  by (auto simp: rotated_refresh_payload_def filter_claims_Some refresh_confirmation_ok)

lemma claim_allowed_mono:
  "set (split_whitespace a) \<subseteq> set (split_whitespace b) \<Longrightarrow> claim_allowed_by_scope a k \<Longrightarrow> claim_allowed_by_scope b k"
  by (auto simp: claim_allowed_by_scope_def split: option.splits)

section \<open>UserInfo\<close>

lemma map_of_userinfo:
  "map_of (bt_insert ''sub'' s (foldl (\<lambda>m (k, v). bt_insert k v m) [] cs)) k =
     (if k = ''sub'' then Some s else map_of (rev cs) k)"
  by (simp add: map_of_insert_all split: option.splits)

text \<open>
  C26.  UserInfo answers only for an access token of the provider that had not expired at the clock reading taken, with the
  \<^verbatim>\<open>openid\<close> scope, and a token bound to a DPoP key only to a request that proved that key; its \<^verbatim>\<open>sub\<close> is the token's
  subject whatever claims were released, and every other member is a released claim.
\<close>

theorem userinfo_subject_authoritative:
  assumes "userinfo P p token presented w = (Inr j, w')"
  shows "\<exists>payload now. token_open P (pv_codec p) ''AccessTokenPayload'' access_from_json TYP_ACCESS token = Inr payload \<and>
    now_secs P w = (now, w') \<and> now < at_exp payload \<and>
    ''openid'' \<in> set (split_whitespace (at_scope payload)) \<and>
    (\<forall>k. at_cnf_jkt payload = Some k \<longrightarrow> presented = Some k) \<and>
    json_get j ''sub'' = Some (JString (at_sub payload)) \<and>
    (\<forall>k v. k \<noteq> ''sub'' \<and> json_get j k = Some v \<longrightarrow> (k, v) \<in> set (at_claims payload))"
proof -
  obtain payload where p: "open_access_token P (pv_codec p) token w = (Inr payload, w')"
      "''openid'' \<in> set (split_whitespace (at_scope payload))" "check_token_binding payload presented = Inr ()"
      "j = userinfo_claims payload"
    using assms by (auto simp: userinfo_def prog_ok)
  obtain now where "token_open P (pv_codec p) ''AccessTokenPayload'' access_from_json TYP_ACCESS token = Inr payload"
      "now_secs P w = (now, w')" "now < at_exp payload"
    using p(1) by (auto simp: open_access_token_def prog_ok)
  moreover have "\<forall>k. at_cnf_jkt payload = Some k \<longrightarrow> presented = Some k"
    using p(3) by (auto simp: check_token_binding_def split: option.splits if_splits)
  moreover have "(k, v) \<in> set (at_claims payload)" if "k \<noteq> ''sub''" "json_get j k = Some v" for k v
    using that map_of_SomeD [of "rev (at_claims payload)" k v]
    by (simp add: p(4) userinfo_claims_def map_of_insert_all split: option.splits)
  ultimately show ?thesis using p(2) by (auto simp: p(4) userinfo_claims_def map_of_userinfo)
qed

end
