(* ===== verification/Deployment.thy ===== *)
theory Deployment
  imports Token_Endpoint
begin

text \<open>
  A provider in a single-process deployment: its stores are the in-memory ones, its clock the world's,
  and sequences of token requests run against them, each request with the clock readings it sees.
  The theorems here span the token endpoint, the codec and the stores.
\<close>

section \<open>What the calls of a handler preserve\<close>

text \<open>
  A handler reaches the world only through the clock, the crates and the two stores.  A predicate these preserve is
  preserved by every handler of the token endpoint.
\<close>

definition keeps_crates :: "('w \<Rightarrow> bool) \<Rightarrow> 'w platform \<Rightarrow> bool" where
  "keeps_crates I P \<longleftrightarrow> keeps I (effP (now_secs P) :: ('w, error, u64) prog) \<and> (\<forall>k pt. keeps I (jwe_encrypt P k pt)) \<and>
     (\<forall>k hh c. keeps I (jwt_encode P k hh c)) \<and> (\<forall>ks t v. keeps I (jwt_decode_with_jwkset P ks t v))"

definition keeps_calls :: "('w \<Rightarrow> bool) \<Rightarrow> 'w platform \<Rightarrow> 'w provider \<Rightarrow> bool" where
  "keeps_calls I P p \<longleftrightarrow> keeps_crates I P \<and> (\<forall>cid. keeps I (effP (pv_clients p cid) :: ('w, error, client option) prog)) \<and>
     (\<forall>h ttl. keeps I (pv_token_use_store p h ttl))"

lemma keeps_effP_any: "keeps I (effP m :: ('w, 'e, 'a) prog) \<longleftrightarrow> (\<forall>w. I w \<longrightarrow> I (snd (m w)))"
  by (simp add: keeps_def effP_def case_prod_beta)

lemma keeps_environment:
  assumes "keeps_crates I P"
  shows "keeps I (effP (now_secs P))" and "keeps I (jwe_encrypt P k pt)"
    and "keeps I (jwt_encode P s hh c)" and "keeps I (jwt_decode_with_jwkset P ks tok v)"
  using assms by (auto simp: keeps_crates_def keeps_effP_any)

lemma keeps_stores:
  assumes "keeps_calls I P p"
  shows "keeps I (effP (pv_clients p cid))" and "keeps I (pv_token_use_store p h ttl)" and "keeps_crates I P"
  using assms by (auto simp: keeps_calls_def keeps_effP_any)

lemma keeps_when: "keeps I m \<Longrightarrow> keeps I (whenP b m)"
  unfolding whenP_def by (intro keeps_intros)

lemma keeps_tokens:
  assumes "keeps_crates I P"
  shows "keeps I (token_seal P c typ v)" and "keeps I (open_code P c tok)" and "keeps I (open_refresh_token P c tok)"
    and "keeps I (build_id_token P p cid sub n cl acr at cd a)"
  unfolding token_seal_def open_code_def open_refresh_token_def build_id_token_def jwt_sign_def Let_def
  by (intro keeps_intros keeps_environment [OF assms])+

lemma keeps_mint:
  assumes "keeps_crates I P"
  shows "keeps I (mint_for_code P p client payload dpop)"
    and "keeps I (mint_for_refresh P p client rt scope cnf dpop now)"
  unfolding mint_for_code_def mint_for_refresh_def seal_access_token_def seal_refresh_token_def Let_def
  by (intro keeps_intros keeps_when keeps_tokens [OF assms] keeps_environment [OF assms])+

lemma keeps_consume_once:
  assumes "keeps_calls I P p"
  shows "keeps I (consume_token_once P p kind tok exp msg)"
  unfolding consume_token_once_def Let_def
  by (intro keeps_intros keeps_stores(1,2) [OF assms] keeps_environment [OF keeps_stores(3) [OF assms]])

lemma keeps_authenticate:
  assumes "keeps_calls I P p"
  shows "keeps I (authenticate_client_map P p form hdr url)"
proof -
  note k = keeps_stores(1,2) [OF assms] keeps_environment [OF keeps_stores(3) [OF assms]]
  have r: "keeps I (require_client p e cid)" for e cid
    unfolding require_client_def by (intro keeps_intros k)
  have s: "keeps I (check_secret p cid secret m)" for cid secret m
    unfolding check_secret_def by (intro keeps_intros r)
  have "keeps I (verify_private_key_jwt P p a form url)" for a
    unfolding verify_private_key_jwt_def verify_with_jwks_def Let_def by (intro keeps_intros r k)
  then show ?thesis unfolding authenticate_client_map_def Let_def by (intro keeps_intros r s)
qed

lemma keeps_handlers:
  assumes "keeps_calls I P p"
  shows "keeps I (handle_token_request P p form hdr url dpop)"
proof -
  note c = keeps_stores(3) [OF assms]
  note k = keeps_authenticate [OF assms] keeps_consume_once [OF assms] keeps_tokens [OF c] keeps_environment [OF c] keeps_mint [OF c]
  have "keeps I (handle_authorization_code P p f hdr url dpop)" for f
    unfolding handle_authorization_code_def by (intro keeps_intros k)
  moreover have "keeps I (handle_client_credentials P p f hdr url dpop)" for f
    unfolding handle_client_credentials_def seal_access_token_def Let_def by (intro keeps_intros k)
  moreover have "keeps I (handle_refresh_token P p f hdr url dpop)" for f
    unfolding handle_refresh_token_def by (intro keeps_intros k)
  ultimately show ?thesis
    unfolding handle_token_request_def handle_token_request_map_def by (intro keeps_intros)
qed

section \<open>Deployed providers\<close>

text \<open>The cryptographic crates may read the clock and draw randomness; they do not touch the stores.\<close>

definition deployed :: "world platform \<Rightarrow> world provider \<Rightarrow> bool" where
  "deployed P p \<longleftrightarrow> now_secs P = world_clock \<and> pv_clients p = clients_get \<and> pv_token_use_store p = uses_consume \<and>
     (\<forall>k pt w. drift w (snd (jwe_encrypt P k pt w))) \<and>
     (\<forall>k hh c w. drift w (snd (jwt_encode P k hh c w))) \<and>
     (\<forall>ks t v w. drift w (snd (jwt_decode_with_jwkset P ks t v w)))"

text \<open>Predicates of the world that every operation of a deployed provider preserves.\<close>

definition drift_closed :: "(world \<Rightarrow> bool) \<Rightarrow> bool" where
  "drift_closed I \<longleftrightarrow> (\<forall>w w'. I w \<longrightarrow> drift w w' \<longrightarrow> I w')"

definition stable :: "(world \<Rightarrow> bool) \<Rightarrow> bool" where
  "stable I \<longleftrightarrow> drift_closed I \<and>
     (\<forall>cid w. I w \<longrightarrow> I (snd (clients_get cid w))) \<and>
     (\<forall>h ttl w. I w \<longrightarrow> I (snd (uses_consume h ttl w)))"

lemma stable_use_held: "stable (use_held t h)"
  unfolding stable_def drift_closed_def using use_held_drift clients_get_held uses_consume_held by blast

lemma store_ops_times:
  "\<exists>w1. drift w w1 \<and> w_times (snd (clients_get cid w)) = w_times w1"
  "\<exists>w1. drift w w1 \<and> w_times (snd (uses_consume h ttl w)) = w_times w1"
  using world_clock_drift [of w]
  by (cases "world_clock w"; force simp: clients_get_def uses_consume_def case_prod_beta)+

definition ticking :: "nat \<Rightarrow> world \<Rightarrow> bool" where
  "ticking t w \<longleftrightarrow> before t w \<and> sorted (w_times w)"

lemma stable_ticking: "stable (ticking t)"
proof -
  have d: "ticking t w'" if "ticking t w" "drift w w1" "w_times w' = w_times w1" for w w1 w'
    using that drift_times [of w w1] drift_nonempty [of w w1] drift_sorted [of w w1]
    by (auto simp: ticking_def before_def)
  show ?thesis unfolding stable_def drift_closed_def using d store_ops_times by blast
qed

lemma stable_drift_closed: "stable I \<Longrightarrow> drift_closed I"
  by (simp add: stable_def)

lemma keeps_drift: "drift_closed I \<Longrightarrow> (\<And>w. drift w (snd (m w))) \<Longrightarrow> keeps I m"
  unfolding drift_closed_def keeps_def by metis

lemma deployed_crates:
  assumes "deployed P p" and "drift_closed I"
  shows "keeps_crates I P"
proof -
  note d = assms(1) [unfolded deployed_def]
  have "keeps I (effP (now_secs P) :: (world, error, u64) prog)"
    using d assms(2) world_clock_drift unfolding drift_closed_def by (intro keeps_effP) (metis prod.collapse)
  moreover have "keeps I (jwe_encrypt P k pt)" "keeps I (jwt_encode P k hh c)" "keeps I (jwt_decode_with_jwkset P ks t v)"
    for k pt hh c ks t v
    using d by (auto intro!: keeps_drift [OF assms(2)])
  ultimately show ?thesis by (simp add: keeps_crates_def)
qed

lemma deployed_calls: "deployed P p \<Longrightarrow> stable I \<Longrightarrow> keeps_calls I P p"
  unfolding keeps_calls_def using deployed_crates stable_drift_closed
  by (auto simp: deployed_def stable_def keeps_def effP_def case_prod_beta)

section \<open>Sequences of token requests\<close>

record token_request =
  rq_times :: "u64 list"
  rq_form :: "(string \<times> string) list"
  rq_header :: "string option"
  rq_url :: string
  rq_dpop :: "dpop_proof option"

definition serve ::
    "world platform \<Rightarrow> world provider \<Rightarrow> token_request \<Rightarrow> (world, oauth_error, token_response) prog" where
  "serve P p q w =
     handle_token_request P p (rq_form q) (rq_header q) (rq_url q) (rq_dpop q) (w\<lparr>w_times := rq_times q\<rparr>)"

fun run_requests ::
    "world platform \<Rightarrow> world provider \<Rightarrow> token_request list \<Rightarrow> world \<Rightarrow>
     (oauth_error, token_response) result list \<times> world" where
  "run_requests P p [] w = ([], w)"
| "run_requests P p (q # qs) w =
     (case serve P p q w of (r, w1) \<Rightarrow> case run_requests P p qs w1 of (rs, w2) \<Rightarrow> (r # rs, w2))"

definition redeems :: "string \<Rightarrow> string \<Rightarrow> token_request \<Rightarrow> bool" where
  "redeems grant token q \<longleftrightarrow> map_of (rq_form q) ''grant_type'' = Some grant \<and>
     map_of (rq_form q) (if grant = ''refresh_token'' then ''refresh_token'' else ''code'') = Some token"

text \<open>A request straddles second \<open>t\<close> if it reads the clock both before and at or after it.\<close>

definition straddles :: "u64 \<Rightarrow> token_request \<Rightarrow> bool" where
  "straddles t q \<longleftrightarrow> (\<exists>a \<in> set (rq_times q). a < t) \<and> (\<exists>b \<in> set (rq_times q). t \<le> b)"

text \<open>Consuming a token holds it until its expiry; a held token is not consumed again.\<close>

lemma consume_token_once_holds:
  assumes d: "deployed P p" and w: "ticking (unat exp) w" and exp: "unat exp < 2 ^ 63"
    and c: "consume_token_once P p kind tok exp msg w = (Inr (), w')"
  shows "use_held (unat exp) (token_use_hash P kind tok) w'"
proof -
  from c d obtain t0 w1 where t0: "world_clock w = (t0, w1)"
      and u: "uses_consume (token_use_hash P kind tok) (max (saturating_sub exp t0) 1) w1 = (Inr True, w')"
    by (auto simp: consume_token_once_def deployed_def prog_ok Let_def)
  have w1: "ticking (unat exp) w1"
    using w world_clock_drift [OF t0] stable_ticking unfolding stable_def drift_closed_def by blast
  from u obtain t1 w2 where t1: "world_clock w1 = (t1, w2)"
      and m: "mem_consume t1 (token_use_hash P kind tok) (max (saturating_sub exp t0) 1) (w_uses w2) = (Inr True, w_uses w')"
      and tm: "w_times w' = w_times w2"
    by (auto simp: uses_consume_def split: prod.splits)
  have w2: "before (unat exp) w2"
    using w1 before_drift [OF _ world_clock_drift [OF t1]] by (simp add: ticking_def)
  have le: "unat t0 \<le> unat t1" "unat t1 < unat exp"
  proof -
    have "t1 \<in> set (w_times w1)" using world_clock_in [OF t1] w1 by (simp add: ticking_def before_def)
    then show "unat t0 \<le> unat t1"
      using world_clock_le [OF t0] w by (auto simp: ticking_def before_def word_le_nat_alt)
    show "unat t1 < unat exp" using w1 before_reading [OF _ t1] by (simp add: ticking_def)
  qed
  have ttl: "unat (max (saturating_sub exp t0) 1) = max (unat exp - unat t0) 1"
    by (simp add: unat_max_one unat_saturating_sub)
  have dl: "deadline t1 (max (saturating_sub exp t0) 1) < 2 ^ 64" "unat exp \<le> deadline t1 (max (saturating_sub exp t0) 1)"
    using le exp by (auto simp: deadline_def ttl)
  have "mem_held (w_uses w') (token_use_hash P kind tok) (unat exp)"
    using memuse.consume_holds [OF m dl(1)] dl(2) by (auto simp: mem_held_def)
  then show ?thesis using w2 tm by (simp add: use_held_def before_def)
qed

lemma consume_token_once_held:
  assumes "deployed P p" and "use_held t (token_use_hash P kind tok) w"
  shows "consume_token_once P p kind tok exp msg w \<noteq> (Inr u, w')"
proof
  assume "consume_token_once P p kind tok exp msg w = (Inr u, w')"
  then obtain t0 w1 where "world_clock w = (t0, w1)"
      and u: "uses_consume (token_use_hash P kind tok) (max (saturating_sub exp t0) 1) w1 = (Inr True, w')"
    using assms(1) by (auto simp: consume_token_once_def deployed_def prog_ok Let_def)
  then have "use_held t (token_use_hash P kind tok) w1" using use_held_drift assms(2) world_clock_drift by blast
  then show False using uses_consume_refused u by (metis fst_conv)
qed

text \<open>What the token endpoint did when a redeeming request succeeded.\<close>

lemma token_request_form:
  assumes "handle_token_request P p (rq_form q) (rq_header q) (rq_url q) (rq_dpop q) w = (Inr r, w')"
  shows "\<exists>form. (\<forall>k. map_of form k = map_of (rq_form q) k) \<and>
    handle_token_request_map P p form (rq_header q) (rq_url q) (rq_dpop q) w = (Inr r, w')"
proof -
  from assms obtain form where u: "unique_parameters (rq_form q) = Inr form"
      and h: "handle_token_request_map P p form (rq_header q) (rq_url q) (rq_dpop q) w = (Inr r, w')"
    by (auto simp: handle_token_request_def prog_ok)
  have "map_of form k = map_of (rq_form q) k" for k
    using btmap.collect_get(2) [OF u [unfolded unique_parameters_def]] .
  with h show ?thesis by blast
qed

lemma code_request_ok:
  assumes "handle_token_request P p (rq_form q) (rq_header q) (rq_url q) (rq_dpop q) w = (Inr r, w')" and "redeems ''authorization_code'' code q"
  shows "\<exists>form client payload w1 w2 w3.
    authenticate_client_map P p form (rq_header q) (rq_url q) w = (Inr client, w1) \<and>
    open_code P (pv_codec p) code w1 = (Inr payload, w2) \<and>
    consume_token_once P p ''code'' code (ac_exp payload) ''authorization code already used'' w2 = (Inr (), w3) \<and>
    mint_for_code P p client payload (rq_dpop q) w3 = (Inr r, w')"
proof -
  obtain form where f: "\<forall>k. map_of form k = map_of (rq_form q) k" and
      h: "handle_token_request_map P p form (rq_header q) (rq_url q) (rq_dpop q) w = (Inr r, w')"
    using token_request_form [OF assms(1)] by blast
  have c: "map_of form ''code'' = Some code" using f assms(2) by (simp add: redeems_def)
  have "handle_authorization_code P p form (rq_header q) (rq_url q) (rq_dpop q) w = (Inr r, w')"
    using h f assms(2) by (simp add: redeems_def handle_token_request_map_def)
  from handle_authorization_code_ok [OF this] c show ?thesis by (metis option.inject)
qed

lemma refresh_request_ok:
  assumes "handle_token_request P p (rq_form q) (rq_header q) (rq_url q) (rq_dpop q) w = (Inr r, w')" and "redeems ''refresh_token'' token q"
  shows "\<exists>form client rt cnf scope now w1 w2 w3 w4.
    authenticate_client_map P p form (rq_header q) (rq_url q) w = (Inr client, w1) \<and>
    open_refresh_token P (pv_codec p) token w1 = (Inr rt, w2) \<and> now_secs P w2 = (now, w3) \<and>
    consume_token_once P p ''refresh'' token (rt_exp rt) ''refresh token already used'' w3 = (Inr (), w4) \<and>
    mint_for_refresh P p client rt scope cnf (rq_dpop q) now w4 = (Inr r, w')"
proof -
  obtain form where f: "\<forall>k. map_of form k = map_of (rq_form q) k" and
      h: "handle_token_request_map P p form (rq_header q) (rq_url q) (rq_dpop q) w = (Inr r, w')"
    using token_request_form [OF assms(1)] by blast
  have c: "map_of form ''refresh_token'' = Some token" using f assms(2) by (simp add: redeems_def)
  have "handle_refresh_token P p form (rq_header q) (rq_url q) (rq_dpop q) w = (Inr r, w')"
    using h f assms(2) by (simp add: redeems_def handle_token_request_map_def)
  from handle_refresh_token_ok [OF this] c show ?thesis by (metis option.inject)
qed

lemma serve_code_ok:
  assumes "serve P p q w = (Inr r, w')" and "redeems ''authorization_code'' code q"
  shows "\<exists>form client payload w1 w2 w3.
    authenticate_client_map P p form (rq_header q) (rq_url q) (w\<lparr>w_times := rq_times q\<rparr>) = (Inr client, w1) \<and>
    open_code P (pv_codec p) code w1 = (Inr payload, w2) \<and>
    consume_token_once P p ''code'' code (ac_exp payload) ''authorization code already used'' w2 = (Inr (), w3) \<and>
    mint_for_code P p client payload (rq_dpop q) w3 = (Inr r, w')"
  using code_request_ok [OF assms(1) [unfolded serve_def] assms(2)] .

lemma serve_refresh_ok:
  assumes "serve P p q w = (Inr r, w')" and "redeems ''refresh_token'' token q"
  shows "\<exists>form client rt cnf scope now w1 w2 w3 w4.
    authenticate_client_map P p form (rq_header q) (rq_url q) (w\<lparr>w_times := rq_times q\<rparr>) = (Inr client, w1) \<and>
    open_refresh_token P (pv_codec p) token w1 = (Inr rt, w2) \<and> now_secs P w2 = (now, w3) \<and>
    consume_token_once P p ''refresh'' token (rt_exp rt) ''refresh token already used'' w3 = (Inr (), w4) \<and>
    mint_for_refresh P p client rt scope cnf (rq_dpop q) now w4 = (Inr r, w')"
  using refresh_request_ok [OF assms(1) [unfolded serve_def] assms(2)] .

text \<open>The readings of a request stay among those it was given.\<close>

definition within :: "u64 set \<Rightarrow> world \<Rightarrow> bool" where
  "within T w \<longleftrightarrow> w_times w \<noteq> [] \<and> set (w_times w) \<subseteq> T"

lemma stable_within: "stable (within T)"
proof -
  have d: "within T w'" if "within T w" "drift w w1" "w_times w' = w_times w1" for w w1 w'
    using that drift_times [of w w1] drift_nonempty [of w w1] by (auto simp: within_def)
  show ?thesis unfolding stable_def drift_closed_def using d store_ops_times by blast
qed

lemma mid_held:
  assumes "deployed P p" and "mem_held (w_uses w) h t"
    and "\<forall>q \<in> set qs. rq_times q \<noteq> [] \<and> (\<forall>x \<in> set (rq_times q). unat x < t)"
  shows "mem_held (w_uses (snd (run_requests P p qs w))) h t"
  using assms(2,3)
proof (induction qs arbitrary: w)
  case (Cons q qs)
  then have "use_held t h (w\<lparr>w_times := rq_times q\<rparr>)" by (simp add: use_held_def before_def)
  then have "use_held t h (snd (serve P p q w))"
    using keeps_handlers [OF deployed_calls [OF assms(1) stable_use_held]] unfolding serve_def keeps_def by blast
  then have "mem_held (w_uses (snd (serve P p q w))) h t" by (simp add: use_held_def)
  with Cons show ?case by (simp add: case_prod_beta)
qed simp

lemma code_redemption_holds:
  assumes d: "deployed P p" and "serve P p q w = (Inr r, w')" and "redeems ''authorization_code'' code q"
    and tok: "token_open P (pv_codec p) ''AuthCodePayload'' code_from_json TYP_CODE code = Inr payload"
    and exp: "unat (ac_exp payload) < 2 ^ 63"
    and times: "rq_times q \<noteq> []" "sorted (rq_times q)" "\<forall>x \<in> set (rq_times q). x < ac_exp payload"
  shows "mem_held (w_uses w') (token_use_hash P ''code'' code) (unat (ac_exp payload))"
proof -
  let ?t = "unat (ac_exp payload)" and ?h = "token_use_hash P ''code'' code"
  obtain form client payload' w1 w2 w3 where
      f: "authenticate_client_map P p form (rq_header q) (rq_url q) (w\<lparr>w_times := rq_times q\<rparr>) = (Inr client, w1)"
      "open_code P (pv_codec p) code w1 = (Inr payload', w2)"
      "consume_token_once P p ''code'' code (ac_exp payload') ''authorization code already used'' w2 = (Inr (), w3)"
      "mint_for_code P p client payload' (rq_dpop q) w3 = (Inr r, w')"
    using serve_code_ok [OF assms(2,3)] by blast
  have [simp]: "payload' = payload" using f(2) tok by (auto simp: open_code_def prog_ok)
  have "ticking ?t (w\<lparr>w_times := rq_times q\<rparr>)"
    using times by (auto simp: ticking_def before_def word_less_nat_alt)
  then have "ticking ?t w2"
    using keepsD [OF keeps_authenticate [OF deployed_calls [OF d stable_ticking]] _ f(1)]
      keepsD [OF keeps_tokens(2) [OF deployed_crates [OF d stable_drift_closed [OF stable_ticking]]] _ f(2)] by blast
  then have "use_held ?t ?h w3" using consume_token_once_holds [OF d _ exp] f(3) by simp
  then have "use_held ?t ?h w'" using keepsD [OF keeps_mint(1) [OF deployed_crates [OF d stable_drift_closed [OF stable_use_held]]] _ f(4)] by blast
  then show ?thesis by (simp add: use_held_def)
qed

lemma held_code_not_redeemed:
  assumes d: "deployed P p" and "redeems ''authorization_code'' code q"
    and "mem_held (w_uses w) (token_use_hash P ''code'' code) t"
    and "rq_times q \<noteq> []" "\<forall>x \<in> set (rq_times q). unat x < t"
  shows "serve P p q w \<noteq> (Inr r, w')"
proof
  let ?h = "token_use_hash P ''code'' code"
  assume "serve P p q w = (Inr r, w')"
  then obtain form client payload' w1 w2 w3 where
      f: "authenticate_client_map P p form (rq_header q) (rq_url q) (w\<lparr>w_times := rq_times q\<rparr>) = (Inr client, w1)"
      "open_code P (pv_codec p) code w1 = (Inr payload', w2)"
      "consume_token_once P p ''code'' code (ac_exp payload') ''authorization code already used'' w2 = (Inr (), w3)"
    using serve_code_ok [OF _ assms(2)] by blast
  have "use_held t ?h (w\<lparr>w_times := rq_times q\<rparr>)" using assms(3-5) by (simp add: use_held_def before_def)
  then have "use_held t ?h w2"
    using keepsD [OF keeps_authenticate [OF deployed_calls [OF d stable_use_held]] _ f(1)]
      keepsD [OF keeps_tokens(2) [OF deployed_crates [OF d stable_drift_closed [OF stable_use_held]]] _ f(2)] by blast
  then show False using consume_token_once_held [OF d] f(3) by blast
qed

lemma code_redeemed_before_expiry:
  assumes d: "deployed P p" and "serve P p q w = (Inr r, w')" and "redeems ''authorization_code'' code q"
    and tok: "token_open P (pv_codec p) ''AuthCodePayload'' code_from_json TYP_CODE code = Inr payload"
    and "rq_times q \<noteq> []"
  shows "\<exists>x \<in> set (rq_times q). x < ac_exp payload"
proof -
  obtain form client payload' w1 w2 where
      f: "authenticate_client_map P p form (rq_header q) (rq_url q) (w\<lparr>w_times := rq_times q\<rparr>) = (Inr client, w1)"
      "open_code P (pv_codec p) code w1 = (Inr payload', w2)"
    using serve_code_ok [OF assms(2,3)] by blast
  obtain x where x: "world_clock w1 = (x, w2)" "x < ac_exp payload"
    using f(2) tok d by (auto simp: open_code_def deployed_def prog_ok)
  have "within (set (rq_times q)) (w\<lparr>w_times := rq_times q\<rparr>)" using assms(5) by (simp add: within_def)
  then have "within (set (rq_times q)) w1"
    using keepsD [OF keeps_authenticate [OF deployed_calls [OF d stable_within]] _ f(1)] by blast
  then have "x \<in> set (rq_times q)" using world_clock_in [OF x(1)] by (auto simp: within_def)
  with x(2) show ?thesis by blast
qed

text \<open>Requests in the order of their readings, the last one entirely before \<open>t\<close>: all are before \<open>t\<close>.\<close>

lemma earlier_requests:
  assumes "sorted (concat (List.map rq_times (qs @ [q])))" and "rq_times q \<noteq> []"
    and "\<forall>x \<in> set (rq_times q). x < t" and "q' \<in> set (qs @ [q])" and "x \<in> set (rq_times q')"
  shows "x < t"
proof (cases "q' \<in> set qs")
  case True
  with assms(5) have "x \<in> set (concat (List.map rq_times qs))" by auto
  moreover have "hd (rq_times q) \<in> set (rq_times q)" using assms(2) by simp
  ultimately have "x \<le> hd (rq_times q)" using assms(1) by (auto simp: sorted_append)
  then show ?thesis using assms(2,3) by (meson hd_in_set le_less_trans)
next
  case False
  with assms(3-5) show ?thesis by simp
qed

text \<open>
  C1.  An authorization code is redeemed at most once in a single-process deployment.  Take any state
  of the world, a token request that redeemed the code, any further token requests of any kind, and
  then a request that presents the same code: it is refused.  Each request may read the clock many
  times and differently, as long as readings do not go backwards and the last request does not run
  across the very second the code expires; codes expiring after $2^{63}$ seconds are excluded.
\<close>

theorem code_redeemed_at_most_once:
  assumes "deployed P p"
    and "token_open P (pv_codec p) ''AuthCodePayload'' code_from_json TYP_CODE code = Inr payload"
    and "unat (ac_exp payload) < 2 ^ 63"
    and "redeems ''authorization_code'' code q1" and "redeems ''authorization_code'' code q2"
    and "sorted (concat (List.map rq_times (q1 # qs @ [q2])))"
    and "\<forall>q \<in> set (q1 # qs @ [q2]). rq_times q \<noteq> []" and "\<not> straddles (ac_exp payload) q2"
    and "serve P p q1 w = (Inr r1, w1)" and "run_requests P p qs w1 = (rs, w2)"
  shows "serve P p q2 w2 \<noteq> (Inr r2, w3)"
proof
  assume s2: "serve P p q2 w2 = (Inr r2, w3)"
  let ?t = "unat (ac_exp payload)" and ?h = "token_use_hash P ''code'' code"
  have "\<forall>x \<in> set (rq_times q2). x < ac_exp payload"
    using code_redeemed_before_expiry [OF assms(1) s2 assms(5,2)] assms(7,8)
    by (auto simp: straddles_def not_le)
  then have early: "x < ac_exp payload" if "q \<in> set (q1 # qs @ [q2])" "x \<in> set (rq_times q)" for q x
    using earlier_requests [of "q1 # qs" q2 "ac_exp payload" q x] assms(6,7) that by simp
  have "sorted (rq_times q1)" using assms(6) by (simp add: sorted_append)
  then have "mem_held (w_uses w1) ?h ?t"
    using code_redemption_holds [OF assms(1,9,4,2,3)] early [of q1] assms(7) by simp
  then have "mem_held (w_uses w2) ?h ?t"
    using mid_held [OF assms(1), of w1 ?h ?t qs] early assms(7,10) by (auto simp: word_less_nat_alt)
  then show False
    using held_code_not_redeemed [OF assms(1,5), of w2 ?t] early [of q2] assms(7) s2
    by (auto simp: word_less_nat_alt)
qed

section \<open>Refresh tokens\<close>

lemma refresh_redemption_holds:
  assumes d: "deployed P p" and "serve P p q w = (Inr r, w')" and "redeems ''refresh_token'' token q"
    and tok: "token_open P (pv_codec p) ''RefreshTokenPayload'' refresh_from_json TYP_REFRESH token = Inr rt"
    and exp: "unat (rt_exp rt) < 2 ^ 63"
    and times: "rq_times q \<noteq> []" "sorted (rq_times q)" "\<forall>x \<in> set (rq_times q). x < rt_exp rt"
  shows "mem_held (w_uses w') (token_use_hash P ''refresh'' token) (unat (rt_exp rt))"
proof -
  let ?t = "unat (rt_exp rt)" and ?h = "token_use_hash P ''refresh'' token"
  obtain form client rt' cnf scope now w1 w2 w3 w4 where
      f: "authenticate_client_map P p form (rq_header q) (rq_url q) (w\<lparr>w_times := rq_times q\<rparr>) = (Inr client, w1)"
      "open_refresh_token P (pv_codec p) token w1 = (Inr rt', w2)" "now_secs P w2 = (now, w3)"
      "consume_token_once P p ''refresh'' token (rt_exp rt') ''refresh token already used'' w3 = (Inr (), w4)"
      "mint_for_refresh P p client rt' scope cnf (rq_dpop q) now w4 = (Inr r, w')"
    using serve_refresh_ok [OF assms(2,3)] by blast
  have [simp]: "rt' = rt" using f(2) tok by (auto simp: open_refresh_token_def prog_ok)
  have "ticking ?t (w\<lparr>w_times := rq_times q\<rparr>)"
    using times by (auto simp: ticking_def before_def word_less_nat_alt)
  then have "ticking ?t w2"
    using keepsD [OF keeps_authenticate [OF deployed_calls [OF d stable_ticking]] _ f(1)]
      keepsD [OF keeps_tokens(3) [OF deployed_crates [OF d stable_drift_closed [OF stable_ticking]]] _ f(2)] by blast
  moreover have "drift w2 w3" using f(3) d world_clock_drift by (simp add: deployed_def)
  ultimately have "ticking ?t w3" using stable_ticking unfolding stable_def drift_closed_def by blast
  then have "use_held ?t ?h w4" using consume_token_once_holds [OF d _ exp] f(4) by simp
  then have "use_held ?t ?h w'" using keepsD [OF keeps_mint(2) [OF deployed_crates [OF d stable_drift_closed [OF stable_use_held]]] _ f(5)] by blast
  then show ?thesis by (simp add: use_held_def)
qed

lemma held_refresh_not_redeemed:
  assumes d: "deployed P p" and "redeems ''refresh_token'' token q"
    and "mem_held (w_uses w) (token_use_hash P ''refresh'' token) t"
    and "rq_times q \<noteq> []" "\<forall>x \<in> set (rq_times q). unat x < t"
  shows "serve P p q w \<noteq> (Inr r, w')"
proof
  let ?h = "token_use_hash P ''refresh'' token"
  assume s: "serve P p q w = (Inr r, w')"
  obtain form client rt now w1 w2 w3 w4 where
      f: "authenticate_client_map P p form (rq_header q) (rq_url q) (w\<lparr>w_times := rq_times q\<rparr>) = (Inr client, w1)"
      "open_refresh_token P (pv_codec p) token w1 = (Inr rt, w2)" "now_secs P w2 = (now, w3)"
      "consume_token_once P p ''refresh'' token (rt_exp rt) ''refresh token already used'' w3 = (Inr (), w4)"
    using serve_refresh_ok [OF s assms(2)] by blast
  have "use_held t ?h (w\<lparr>w_times := rq_times q\<rparr>)" using assms(3-5) by (simp add: use_held_def before_def)
  then have "use_held t ?h w2"
    using keepsD [OF keeps_authenticate [OF deployed_calls [OF d stable_use_held]] _ f(1)]
      keepsD [OF keeps_tokens(3) [OF deployed_crates [OF d stable_drift_closed [OF stable_use_held]]] _ f(2)] by blast
  moreover have "drift w2 w3" using f(3) d world_clock_drift by (simp add: deployed_def)
  ultimately have "use_held t ?h w3" by (rule use_held_drift)
  then show False using consume_token_once_held [OF d] f(4) by blast
qed

lemma refresh_redeemed_before_expiry:
  assumes d: "deployed P p" and "serve P p q w = (Inr r, w')" and "redeems ''refresh_token'' token q"
    and tok: "token_open P (pv_codec p) ''RefreshTokenPayload'' refresh_from_json TYP_REFRESH token = Inr rt"
    and "rq_times q \<noteq> []"
  shows "\<exists>x \<in> set (rq_times q). x < rt_exp rt"
proof -
  obtain form client rt' w1 w2 where
      f: "authenticate_client_map P p form (rq_header q) (rq_url q) (w\<lparr>w_times := rq_times q\<rparr>) = (Inr client, w1)"
      "open_refresh_token P (pv_codec p) token w1 = (Inr rt', w2)"
    using serve_refresh_ok [OF assms(2,3)] by blast
  obtain x where x: "world_clock w1 = (x, w2)" "x < rt_exp rt"
    using f(2) tok d by (auto simp: open_refresh_token_def deployed_def prog_ok)
  have "within (set (rq_times q)) (w\<lparr>w_times := rq_times q\<rparr>)" using assms(5) by (simp add: within_def)
  then have "within (set (rq_times q)) w1"
    using keepsD [OF keeps_authenticate [OF deployed_calls [OF d stable_within]] _ f(1)] by blast
  then have "x \<in> set (rq_times q)" using world_clock_in [OF x(1)] by (auto simp: within_def)
  with x(2) show ?thesis by blast
qed

text \<open>
  A refresh token is rotated at most once, in the same sense: after a request that used it and
  any further token requests, a request that presents it again is refused, whatever clock readings
  each request sees in order, unless it runs across the second the token expires.
\<close>

theorem refresh_redeemed_at_most_once:
  assumes "deployed P p"
    and "token_open P (pv_codec p) ''RefreshTokenPayload'' refresh_from_json TYP_REFRESH token = Inr rt"
    and "unat (rt_exp rt) < 2 ^ 63"
    and "redeems ''refresh_token'' token q1" and "redeems ''refresh_token'' token q2"
    and "sorted (concat (List.map rq_times (q1 # qs @ [q2])))"
    and "\<forall>q \<in> set (q1 # qs @ [q2]). rq_times q \<noteq> []" and "\<not> straddles (rt_exp rt) q2"
    and "serve P p q1 w = (Inr r1, w1)" and "run_requests P p qs w1 = (rs, w2)"
  shows "serve P p q2 w2 \<noteq> (Inr r2, w3)"
proof
  assume s2: "serve P p q2 w2 = (Inr r2, w3)"
  let ?t = "unat (rt_exp rt)" and ?h = "token_use_hash P ''refresh'' token"
  have "\<forall>x \<in> set (rq_times q2). x < rt_exp rt"
    using refresh_redeemed_before_expiry [OF assms(1) s2 assms(5,2)] assms(7,8)
    by (auto simp: straddles_def not_le)
  then have early: "x < rt_exp rt" if "q \<in> set (q1 # qs @ [q2])" "x \<in> set (rq_times q)" for q x
    using earlier_requests [of "q1 # qs" q2 "rt_exp rt" q x] assms(6,7) that by simp
  have "sorted (rq_times q1)" using assms(6) by (simp add: sorted_append)
  then have "mem_held (w_uses w1) ?h ?t"
    using refresh_redemption_holds [OF assms(1,9,4,2,3)] early [of q1] assms(7) by simp
  then have "mem_held (w_uses w2) ?h ?t"
    using mid_held [OF assms(1), of w1 ?h ?t qs] early assms(7,10) by (auto simp: word_less_nat_alt)
  then show False
    using held_refresh_not_redeemed [OF assms(1,5), of w2 ?t] early [of q2] assms(7) s2
    by (auto simp: word_less_nat_alt)
qed

end
