(* ===== verification/Concurrency.thy ===== *)
theory Concurrency
  imports Deployment
begin

text \<open>
  Token requests that overlap.  A handler touches shared state only through the clock, the client store and the
  token-use store.  A call of the in-memory store is two steps, as in the source: it reads the clock, and then, under
  the lock, consults the map as of that reading, which may be out of date by then.  A request is described by
  the script of its steps with the answers they got: running the handler on the script consumes it exactly.  Any
  number of requests then run interleaved step by step against one token-use store and one clock, which does not go
  backwards.  The answers of the client store are left open, so that registrations may change at any time.
\<close>

section \<open>Scripts\<close>

text \<open>\<open>Use t h ttl r\<close> is the locked part of a store call that read the clock at \<open>t\<close>.\<close>

datatype call =
    Reading u64
  | Lookup string "client option"
  | Use u64 string u64 "(string, bool) result"

text \<open>A script is what remains to be read; \<open>None\<close> is a script that did not fit the calls made.\<close>

type_synonym script = "call list option"

fun script_clock :: "script \<Rightarrow> u64 \<times> script" where
  "script_clock (Some (Reading t # cs)) = (t, Some cs)"
| "script_clock _ = (0, None)"

fun script_get :: "string \<Rightarrow> script \<Rightarrow> client option \<times> script" where
  "script_get cid (Some (Lookup c r # cs)) = (if c = cid then (r, Some cs) else (None, None))"
| "script_get cid _ = (None, None)"

fun script_use :: "string \<Rightarrow> u64 \<Rightarrow> (script, string, bool) prog" where
  "script_use h ttl (Some (Reading t # Use t' h' ttl' r # cs)) =
     (if t' = t \<and> h' = h \<and> ttl' = ttl then (r, Some cs) else (Inl '''', None))"
| "script_use h ttl _ = (Inl '''', None)"

text \<open>\<open>reads s s'\<close>: some calls at the head of the script were made, in its order.\<close>

definition reads :: "script \<Rightarrow> script \<Rightarrow> bool" where
  "reads s s' \<longleftrightarrow> (case s' of None \<Rightarrow> True | Some cs' \<Rightarrow> \<exists>cs. s = Some (cs @ cs'))"

text \<open>A provider whose calls go to the script.  The cryptographic crates may read the clock.\<close>

definition scripted :: "script platform \<Rightarrow> script provider \<Rightarrow> bool" where
  "scripted P p \<longleftrightarrow> now_secs P = script_clock \<and> pv_clients p = script_get \<and> pv_token_use_store p = script_use \<and>
     (\<forall>k pt s. reads s (snd (jwe_encrypt P k pt s))) \<and>
     (\<forall>k hh c s. reads s (snd (jwt_encode P k hh c s))) \<and>
     (\<forall>ks t v s. reads s (snd (jwt_decode_with_jwkset P ks t v s)))"

lemma reads_refl [simp]: "reads s s"
  by (cases s) (simp_all add: reads_def)

lemma reads_trans: "reads s1 s2 \<Longrightarrow> reads s2 s3 \<Longrightarrow> reads s1 s3"
  by (cases s3; cases s2) (auto simp: reads_def)

lemma reads_calls:
  "reads s (snd (script_clock s))" "reads s (snd (script_get cid s))" "reads s (snd (script_use h ttl s))"
proof -
  show "reads s (snd (script_clock s))" by (cases s rule: script_clock.cases) (simp_all add: reads_def)
  show "reads s (snd (script_get cid s))" by (cases "(cid, s)" rule: script_get.cases) (simp_all add: reads_def)
  show "reads s (snd (script_use h ttl s))" by (cases "(h, ttl, s)" rule: script_use.cases) (simp_all add: reads_def)
qed

text \<open>What a handler leaves of its script is an end of what it was given.\<close>

lemma keeps_reads: "(\<And>s. reads s (snd (m s))) \<Longrightarrow> keeps (reads s0) m"
  unfolding keeps_def using reads_trans by blast

lemma keeps_script:
  assumes "scripted P p"
  shows "keeps (reads s0) (effP (now_secs P))" and "keeps (reads s0) (effP (pv_clients p cid))"
    and "keeps (reads s0) (pv_token_use_store p h ttl)" and "keeps (reads s0) (jwe_encrypt P k pt)"
    and "keeps (reads s0) (jwt_encode P k' hh c)" and "keeps (reads s0) (jwt_decode_with_jwkset P ks t v)"
  using assms reads_calls
  by (auto simp: scripted_def effP_def case_prod_beta intro!: keeps_reads)

lemma scripted_calls: "scripted P p \<Longrightarrow> keeps_calls (reads s0) P p"
  unfolding keeps_calls_def keeps_crates_def by (simp add: keeps_script)

section \<open>Overlapping requests\<close>

text \<open>The shared store, the last time read, and what each request has still to do.\<close>

record 's config =
  cf_store :: 's
  cf_now :: u64
  cf_left :: "nat \<Rightarrow> call list"

type_synonym 's consumer = "u64 \<Rightarrow> string \<Rightarrow> u64 \<Rightarrow> 's \<Rightarrow> (string, bool) result \<times> 's"

inductive step :: "'s consumer \<Rightarrow> 's config \<Rightarrow> nat \<times> call \<Rightarrow> 's config \<Rightarrow> bool" for consume where
  step_reading: "cf_left c i = Reading t # cs \<Longrightarrow> cf_now c \<le> t \<Longrightarrow>
    step consume c (i, Reading t) (c\<lparr>cf_now := t, cf_left := (cf_left c)(i := cs)\<rparr>)"
| step_lookup: "cf_left c i = Lookup cid r # cs \<Longrightarrow>
    step consume c (i, Lookup cid r) (c\<lparr>cf_left := (cf_left c)(i := cs)\<rparr>)"
| step_use: "cf_left c i = Use t h ttl r # cs \<Longrightarrow> t \<le> cf_now c \<Longrightarrow> consume t h ttl (cf_store c) = (r, s') \<Longrightarrow>
    step consume c (i, Use t h ttl r) (c\<lparr>cf_store := s', cf_left := (cf_left c)(i := cs)\<rparr>)"

inductive runs :: "'s consumer \<Rightarrow> 's config \<Rightarrow> (nat \<times> call) list \<Rightarrow> 's config \<Rightarrow> bool" for consume where
  runs_done: "runs consume c [] c"
| runs_step: "step consume c e c1 \<Longrightarrow> runs consume c1 es c2 \<Longrightarrow> runs consume c (e # es) c2"

inductive_simps step_simps:
  "step consume c (i, Reading t) c'" "step consume c (i, Lookup cid r) c'" "step consume c (i, Use t h ttl r) c'"

inductive_simps runs_simps: "runs consume c [] c'" "runs consume c (e # es) c'"

fun moment :: "call \<Rightarrow> u64 list" where
  "moment (Reading t) = [t]"
| "moment (Lookup _ _) = []"
| "moment (Use _ _ _ _) = []"

fun store_call :: "call \<Rightarrow> consume_call list" where
  "store_call (Use t h ttl _) = [(t, h, ttl)]"
| "store_call _ = []"

fun store_answer :: "call \<Rightarrow> (string, bool) result list" where
  "store_answer (Use _ _ _ r) = [r]"
| "store_answer _ = []"

abbreviation moments :: "call list \<Rightarrow> u64 list" where
  "moments cs \<equiv> concat (List.map moment cs)"

definition calls_of :: "nat \<Rightarrow> (nat \<times> call) list \<Rightarrow> call list" where
  "calls_of i es = List.map snd (filter (\<lambda>e. fst e = i) es)"

lemma calls_of_simps [simp]:
  "calls_of i [] = []" "calls_of i ((j, x) # es) = (if j = i then x # calls_of i es else calls_of i es)"
  "calls_of i (es @ es') = calls_of i es @ calls_of i es'"
  by (simp_all add: calls_of_def)

lemma runs_append: "runs consume c (es @ es') c'' \<longleftrightarrow> (\<exists>c'. runs consume c es c' \<and> runs consume c' es' c'')"
  by (induction es arbitrary: c) (auto simp: runs_simps)

text \<open>
  The three views of a run: the store saw the calls one after the other; the times read never decrease; every request
  made the calls of its script in order.
\<close>

lemma runs_store:
  "runs consume c es c' \<Longrightarrow>
     consume_run consume (concat (List.map (store_call \<circ> snd) es)) (cf_store c) =
       (concat (List.map (store_answer \<circ> snd) es), cf_store c')"
  by (induction rule: runs.induct) (auto elim!: step.cases)

lemma runs_sorted: "runs consume c es c' \<Longrightarrow> sorted (cf_now c # moments (List.map snd es))"
proof (induction rule: runs.induct)
  case (runs_step c e c1 es c2)
  have "cf_now c \<le> cf_now c1 \<and> (moment (snd e) = [] \<or> moment (snd e) = [cf_now c1])"
    using runs_step.hyps(1) by (auto elim!: step.cases)
  then show ?case using runs_step.IH by (auto intro: order_trans)
qed simp

lemma runs_scripts: "runs consume c es c' \<Longrightarrow> cf_left c i = calls_of i es @ cf_left c' i"
  by (induction rule: runs.induct) (auto elim!: step.cases split: if_splits)

lemma store_answer_length: "length (store_answer x) = length (store_call x)"
  by (cases x) simp_all

text \<open>Until the clock reaches \<open>t\<close>, no store call has a time from \<open>t\<close> on, however late it comes.\<close>

lemma runs_before:
  assumes "runs consume c es c'" and "cf_now c < t" and "\<forall>b \<in> set (moments (List.map snd es)). b < t"
  shows "cf_now c' < t \<and> (\<forall>y \<in> set (concat (List.map (store_call \<circ> snd) es)). call_time y < t)"
  using assms
proof (induction rule: runs.induct)
  case (runs_step c e c1 es c2)
  have "cf_now c1 < t \<and> (\<forall>y \<in> set (store_call (snd e)). call_time y < t)"
    using runs_step.hyps(1) runs_step.prems by (auto elim!: step.cases)
  then show ?case using runs_step.IH runs_step.prems(2) by auto
qed simp

text \<open>
  Of two overlapping calls for the same token the store answers \<^verbatim>\<open>Ok(true)\<close> to at most one, as long as none of the
  calls in between has a time from the deadline of the earlier one on.
\<close>

context token_use_store
begin

lemma overlapping_uses:
  assumes run: "runs consume c (es1 @ (i, Use t1 h ttl1 (Inr True)) # es2 @ (j, Use t2 h ttl2 r) # es3) c'"
    and fits: "deadline t1 ttl1 < 2 ^ 64"
    and times: "\<forall>y \<in> set (concat (List.map (store_call \<circ> snd) es2) @ [(t2, h, ttl2)]). unat (call_time y) < deadline t1 ttl1"
  shows "r \<noteq> Inr True"
proof -
  let ?es = "(i, Use t1 h ttl1 (Inr True)) # es2 @ [(j, Use t2 h ttl2 r)]"
  let ?calls = "concat (List.map (store_call \<circ> snd) es2) @ [(t2, h, ttl2)]"
  let ?answers = "concat (List.map (store_answer \<circ> snd) es2)"
  obtain c1 c2 where r: "runs consume c1 ?es c2"
    using run unfolding runs_append [of _ _ es1] append_Cons [symmetric] append_assoc [symmetric]
    by (metis (no_types) append.assoc append_Cons append_Nil runs_append)
  have "length ?answers = length (concat (List.map (store_call \<circ> snd) es2))"
    by (simp add: length_concat o_def store_answer_length)
  then have n: "(?answers @ [r]) ! (length ?calls - 1) = r" by (simp add: nth_append)
  have "(?answers @ [r]) ! (length ?calls - 1) \<noteq> Inr True"
  proof (rule at_most_once [OF _ fits])
    show "consume_run consume ((t1, h, ttl1) # ?calls) (cf_store c1) = (Inr True # ?answers @ [r], cf_store c2)"
      using runs_store [OF r] by simp
  qed (use times in simp_all)
  then show ?thesis unfolding n .
qed

end

section \<open>Redemptions\<close>

text \<open>
  A request \<open>q\<close> whose calls were those of the script, with result \<open>r\<close>.  (The clock readings listed in the record are
  those of the sequential model and play no part here.)
\<close>

definition performs ::
    "script platform \<Rightarrow> script provider \<Rightarrow> token_request \<Rightarrow> call list \<Rightarrow> (oauth_error, token_response) result \<Rightarrow> bool" where
  "performs P p q cs r \<longleftrightarrow>
     handle_token_request P p (rq_form q) (rq_header q) (rq_url q) (rq_dpop q) (Some cs) = (r, Some [])"

fun token_expiry :: "'w platform \<Rightarrow> 'w provider \<Rightarrow> string \<Rightarrow> string \<Rightarrow> u64 option" where
  "token_expiry P p grant token =
     (if grant = ''authorization_code'' then
        (case token_open P (pv_codec p) ''AuthCodePayload'' code_from_json TYP_CODE token of
           Inr payload \<Rightarrow> Some (ac_exp payload) | Inl _ \<Rightarrow> None)
      else if grant = ''refresh_token'' then
        (case token_open P (pv_codec p) ''RefreshTokenPayload'' refresh_from_json TYP_REFRESH token of
           Inr payload \<Rightarrow> Some (rt_exp payload) | Inl _ \<Rightarrow> None)
      else None)"

abbreviation redemption_hash :: "'w platform \<Rightarrow> string \<Rightarrow> string \<Rightarrow> string" where
  "redemption_hash P grant token \<equiv> token_use_hash P (if grant = ''refresh_token'' then ''refresh'' else ''code'') token"

lemma script_clock_Some: "script_clock s = (t, Some cs) \<Longrightarrow> s = Some (Reading t # cs)"
  by (cases s rule: script_clock.cases) auto

lemma script_use_Some: "script_use h ttl s = (r, Some cs) \<Longrightarrow> \<exists>t. s = Some (Reading t # Use t h ttl r # cs)"
  by (cases "(h, ttl, s)" rule: script_use.cases) (auto split: if_splits)

lemma reads_Some: "reads s (Some cs') \<Longrightarrow> \<exists>cs. s = Some (cs @ cs')"
  by (simp add: reads_def)

lemma consume_scripted:
  assumes "scripted P p" and "consume_token_once P p kind tok exp msg s = (Inr (), Some cs)"
  shows "\<exists>t0 t1. s = Some (Reading t0 # Reading t1 # Use t1 (token_use_hash P kind tok) (max (saturating_sub exp t0) 1) (Inr True) # cs)"
proof -
  obtain t0 s1 where c: "script_clock s = (t0, s1)"
      "script_use (token_use_hash P kind tok) (max (saturating_sub exp t0) 1) s1 = (Inr True, Some cs)"
    using assms by (auto simp: consume_token_once_def scripted_def prog_ok Let_def)
  from script_use_Some [OF c(2)] obtain t1 where
      "s1 = Some (Reading t1 # Use t1 (token_use_hash P kind tok) (max (saturating_sub exp t0) 1) (Inr True) # cs)" by blast
  with c(1) show ?thesis by (blast dest: script_clock_Some)
qed

text \<open>The part of the script around a redemption: the expiry check before it, the store call in it.\<close>

definition redemption :: "call list \<Rightarrow> string \<Rightarrow> u64 \<Rightarrow> bool" where
  "redemption cs h exp \<longleftrightarrow> (\<exists>cs1 t0 t1 cs2.
     cs = cs1 @ Reading t0 # Reading t1 # Use t1 h (max (saturating_sub exp t0) 1) (Inr True) # cs2 \<and> (\<exists>t \<in> set (moments cs1). t < exp))"

lemma redemptionI:
  assumes s: "scripted P p" and a: "reads (Some cs) s1" and t: "script_clock s1 = (t, s2)" "t < exp" and b: "reads s2 s3"
    and c: "consume_token_once P p kind tok exp msg s3 = (Inr (), s4)" and m: "reads s4 (Some [])"
  shows "redemption cs (token_use_hash P kind tok) exp"
proof -
  obtain cs4 where cs4: "s4 = Some cs4" using reads_Some [OF m] by blast
  obtain t0 t1 where c3: "s3 = Some (Reading t0 # Reading t1 # Use t1 (token_use_hash P kind tok) (max (saturating_sub exp t0) 1) (Inr True) # cs4)"
    using consume_scripted [OF s] c cs4 by blast
  obtain xs where xs: "s2 = Some (xs @ the s3)" using b c3 by (auto dest: reads_Some)
  obtain ys where "cs = ys @ Reading t # xs @ the s3"
    using a script_clock_Some [OF t(1) [unfolded xs]] by (auto dest: reads_Some)
  then have "cs = (ys @ Reading t # xs) @ Reading t0 # Reading t1 # Use t1 (token_use_hash P kind tok) (max (saturating_sub exp t0) 1) (Inr True) # cs4"
    using c3 by simp
  moreover have "t \<in> set (moments (ys @ Reading t # xs))" by simp
  ultimately show ?thesis unfolding redemption_def using t(2) by blast
qed

lemma performs_redemption:
  assumes s: "scripted P p" and q: "performs P p q cs (Inr r)" and r: "redeems grant token q"
    and e: "token_expiry P p grant token = Some exp"
  shows "redemption cs (redemption_hash P grant token) exp"
proof -
  note k = scripted_calls [OF s]
  note q = q [unfolded performs_def]
  note a = keepsD [OF keeps_authenticate [OF k] reads_refl]
  note m = keepsD [OF keeps_mint(1) [OF keeps_stores(3) [OF k]] reads_refl]
    keepsD [OF keeps_mint(2) [OF keeps_stores(3) [OF k]] reads_refl]
  consider (code) "grant = ''authorization_code''" | (refresh) "grant = ''refresh_token''" using e by (auto split: if_splits)
  then show ?thesis
  proof cases
    case code
    obtain form client payload w1 w2 w3 where
        f: "authenticate_client_map P p form (rq_header q) (rq_url q) (Some cs) = (Inr client, w1)"
        "open_code P (pv_codec p) token w1 = (Inr payload, w2)"
        "consume_token_once P p ''code'' token (ac_exp payload) ''authorization code already used'' w2 = (Inr (), w3)"
        "mint_for_code P p client payload (rq_dpop q) w3 = (Inr r, Some [])"
      using code_request_ok [OF q r [unfolded code]] by blast
    obtain t where "ac_exp payload = exp" "script_clock w1 = (t, w2)" "t < exp"
      using f(2) e s by (auto simp: code open_code_def scripted_def prog_ok)
    then show ?thesis
      using redemptionI [OF s a [OF f(1)] _ _ reads_refl, of t w2 exp "''code''" token] f(3) m(1) [OF f(4)] by (auto simp: code)
  next
    case refresh
    obtain form client rt cnf scope now w1 w2 w3 w4 where
        f: "authenticate_client_map P p form (rq_header q) (rq_url q) (Some cs) = (Inr client, w1)"
        "open_refresh_token P (pv_codec p) token w1 = (Inr rt, w2)" "now_secs P w2 = (now, w3)"
        "consume_token_once P p ''refresh'' token (rt_exp rt) ''refresh token already used'' w3 = (Inr (), w4)"
        "mint_for_refresh P p client rt scope cnf (rq_dpop q) now w4 = (Inr r, Some [])"
      using refresh_request_ok [OF q r [unfolded refresh]] by blast
    obtain t where "rt_exp rt = exp" "script_clock w1 = (t, w2)" "t < exp"
      using f(2) e s by (auto simp: refresh open_refresh_token_def scripted_def prog_ok)
    moreover have "reads w2 w3" using f(3) s reads_calls(1) [of w2] by (simp add: scripted_def)
    ultimately show ?thesis
      using redemptionI [OF s a [OF f(1)], of t w2 exp w3 "''refresh''" token] f(4)
        m(2) [OF f(5)] by (auto simp: refresh)
  qed
qed

lemma calls_of_split:
  "calls_of i es = xs @ u # ys \<Longrightarrow> \<exists>es1 es2. es = es1 @ (i, u) # es2 \<and> calls_of i es1 = xs \<and> calls_of i es2 = ys"
proof (induction es arbitrary: xs)
  case (Cons e es)
  obtain j x where e: "e = (j, x)" by (cases e)
  show ?case
  proof (cases "j = i \<and> xs = []")
    case True
    with Cons.prems show ?thesis by (intro exI [of _ "[]"] exI [of _ es]) (auto simp: e)
  next
    case False
    then have "calls_of i es = (if j = i then tl xs else xs) @ u # ys" using Cons.prems by (cases xs) (auto simp: e)
    from Cons.IH [OF this] obtain es1 es2 where
        "es = es1 @ (i, u) # es2" "calls_of i es1 = (if j = i then tl xs else xs)" "calls_of i es2 = ys" by blast
    with False Cons.prems show ?thesis
      by (intro exI [of _ "e # es1"] exI [of _ es2]) (cases xs; auto simp: e)
  qed
qed simp

lemma sorted_calls_of: "sorted (moments (List.map snd es)) \<Longrightarrow> sorted (moments (calls_of i es))"
  by (induction es) (fastforce simp: sorted_append calls_of_def)+

text \<open>
  The request \<open>k\<close> of a run straddles the second \<open>t\<close>: it makes a call when the clock has been read, by whichever request,
  at \<open>t\<close> or later, having read it before \<open>t\<close> itself.
\<close>

definition straddled :: "u64 \<Rightarrow> nat \<Rightarrow> (nat \<times> call) list \<Rightarrow> bool" where
  "straddled t k es \<longleftrightarrow> (\<exists>n < length es. fst (es ! n) = k \<and> (\<exists>a \<in> set (moments (calls_of k (take n es))). a < t) \<and>
     (\<exists>b \<in> set (moments (List.map snd (take (Suc n) es))). t \<le> b))"

lemma not_straddled_before:
  assumes "\<not> straddled t k (es1 @ (k, x) # es2)" and "\<exists>a \<in> set (moments (calls_of k es1)). a < t"
  shows "\<forall>b \<in> set (moments (List.map snd es1)). b < t"
proof (rule ccontr)
  let ?es = "es1 @ (k, x) # es2"
  assume "\<not> ?thesis"
  then have "\<exists>b \<in> set (moments (List.map snd (take (Suc (length es1)) ?es))). t \<le> b" by (auto simp: not_less)
  moreover have "length es1 < length ?es" "fst (?es ! length es1) = k" "take (length es1) ?es = es1" by simp_all
  ultimately have "straddled t k ?es" unfolding straddled_def using assms(2) by metis
  with assms(1) show False ..
qed

lemma early_not_straddled: "\<forall>b \<in> set (moments (List.map snd es)). b < t \<Longrightarrow> \<not> straddled t k es"
  unfolding straddled_def by (fastforce dest: in_set_takeD)

text \<open>So a redemption that does not straddle the expiry is a store call before it, with a deadline from it on.\<close>

lemma redemption_early:
  assumes run: "runs consume c es c'" and "redemption (calls_of k es) h exp" and "\<not> straddled exp k es" and "unat exp < 2 ^ 63"
  shows "\<exists>es1 t ttl es2. es = es1 @ (k, Use t h ttl (Inr True)) # es2 \<and> cf_now c < exp \<and>
    (\<forall>b \<in> set (moments (List.map snd es1)). b < exp) \<and> t < exp \<and> deadline t ttl < 2 ^ 64 \<and> unat exp \<le> deadline t ttl"
proof -
  obtain cs1 t0 t1 cs2 where "calls_of k es = cs1 @ Reading t0 # Reading t1 # Use t1 h (max (saturating_sub exp t0) 1) (Inr True) # cs2"
      and early: "\<exists>t \<in> set (moments cs1). t < exp"
    using assms(2) unfolding redemption_def by blast
  then have r: "calls_of k es = (cs1 @ [Reading t0, Reading t1]) @ Use t1 h (max (saturating_sub exp t0) 1) (Inr True) # cs2"
    by simp
  obtain es1 es2 where e: "es = es1 @ (k, Use t1 h (max (saturating_sub exp t0) 1) (Inr True)) # es2"
      "calls_of k es1 = cs1 @ [Reading t0, Reading t1]"
    using calls_of_split [OF r] by blast
  have "\<exists>a \<in> set (moments (calls_of k es1)). a < exp" using early unfolding e(2) by auto
  then have before: "\<forall>b \<in> set (moments (List.map snd es1)). b < exp"
    using not_straddled_before assms(3) unfolding e(1) by blast
  have sorted: "sorted (cf_now c # moments (List.map snd es1))"
    using runs_sorted [OF run] by (simp add: e sorted_append)
  have sub: "set (moments (calls_of k es1)) \<subseteq> set (moments (List.map snd es1))" by (auto simp: calls_of_def)
  then have "\<forall>b \<in> set (moments (cs1 @ [Reading t0, Reading t1])). cf_now c \<le> b \<and> b < exp"
    using before sorted unfolding e(2) by auto
  then have "t1 < exp" "cf_now c < exp" using early by (auto intro: le_less_trans)
  moreover have "t0 \<le> t1"
    using sorted_calls_of [of es1 k] sorted unfolding e(2) by (simp add: sorted_append)
  moreover have "unat (max (saturating_sub exp t0) 1) = max (unat exp - unat t0) 1"
    by (simp add: unat_max_one unat_saturating_sub)
  ultimately have "deadline t1 (max (saturating_sub exp t0) 1) < 2 ^ 64 \<and>
      unat exp \<le> deadline t1 (max (saturating_sub exp t0) 1)"
    using assms(4) by (auto simp: deadline_def word_less_nat_alt word_le_nat_alt)
  with e(1) before \<open>t1 < exp\<close> \<open>cf_now c < exp\<close> show ?thesis by blast
qed

text \<open>Two redemptions of one token in one run are one, whatever the calls between theirs.\<close>

context token_use_store
begin

lemma no_second_use:
  assumes run: "runs consume c (es1 @ (i, Use t h ttl (Inr True)) # es2 @ (j, Use t' h ttl' (Inr True)) # es3) c'"
    and before: "cf_now c < exp" "\<forall>b \<in> set (moments (List.map snd (es1 @ (i, Use t h ttl (Inr True)) # es2))). b < exp"
    and "t' < exp" "deadline t ttl < 2 ^ 64" "unat exp \<le> deadline t ttl"
  shows False
proof -
  obtain c1 where r: "runs consume c (es1 @ (i, Use t h ttl (Inr True)) # es2) c1"
    using run runs_append [of consume c "es1 @ (i, Use t h ttl (Inr True)) # es2"] by auto
  have "\<forall>y \<in> set (concat (List.map (store_call \<circ> snd) es2) @ [(t', h, ttl')]). call_time y < exp"
    using runs_before [OF r before] assms(4) by auto
  then have "\<forall>y \<in> set (concat (List.map (store_call \<circ> snd) es2) @ [(t', h, ttl')]). unat (call_time y) < deadline t ttl"
    using assms(6) by (force simp: word_less_nat_alt)
  from overlapping_uses [OF run assms(5) this] show False by simp
qed

lemma one_redemption:
  assumes run: "runs consume c es c'" and exp: "unat exp < 2 ^ 63"
    and r: "\<And>k. k \<in> {i, j} \<Longrightarrow> es = pre k @ post k \<and> redemption (calls_of k (pre k)) h exp \<and> \<not> straddled exp k (pre k)"
  shows "i = j"
proof (rule ccontr)
  assume "i \<noteq> j"
  have use: "\<exists>a1 t ttl a2. es = a1 @ (k, Use t h ttl (Inr True)) # a2 \<and> cf_now c < exp \<and>
      (\<forall>b \<in> set (moments (List.map snd a1)). b < exp) \<and> t < exp \<and> deadline t ttl < 2 ^ 64 \<and> unat exp \<le> deadline t ttl"
    if k: "k \<in> {i, j}" for k
  proof -
    obtain c1 where "runs consume c (pre k) c1" using run r [OF k] runs_append by metis
    from redemption_early [OF this _ _ exp, of k h] r [OF k] show ?thesis by (metis append.assoc append_Cons)
  qed
  obtain a1 t ttl a2 where a: "es = a1 @ (i, Use t h ttl (Inr True)) # a2" "cf_now c < exp"
      "\<forall>b \<in> set (moments (List.map snd a1)). b < exp" "t < exp" "deadline t ttl < 2 ^ 64" "unat exp \<le> deadline t ttl"
    using use [of i] by auto
  obtain b1 t' ttl' b2 where b: "es = b1 @ (j, Use t' h ttl' (Inr True)) # b2"
      "\<forall>b \<in> set (moments (List.map snd b1)). b < exp" "t' < exp" "deadline t' ttl' < 2 ^ 64" "unat exp \<le> deadline t' ttl'"
    using use [of j] by auto
  consider (after) x where "b1 = a1 @ (i, Use t h ttl (Inr True)) # x" "a2 = x @ (j, Use t' h ttl' (Inr True)) # b2"
    | (before) x where "a1 = b1 @ (j, Use t' h ttl' (Inr True)) # x" "b2 = x @ (i, Use t h ttl (Inr True)) # a2"
    using a(1) b(1) \<open>i \<noteq> j\<close> by (auto simp: append_eq_append_conv2 append_eq_Cons_conv Cons_eq_append_conv)
  then show False
  proof cases
    case after
    show False
      by (rule no_second_use [of c a1 i t h ttl x j t' ttl' b2 c' exp]) (use run a b after in simp_all)
  next
    case before
    show False
      by (rule no_second_use [of c b1 j t' h ttl' x i t ttl a2 c' exp]) (use run a b before in simp_all)
  qed
qed

text \<open>So of two requests with the same code or refresh token at most one obtains tokens.\<close>

lemma overlapping_redemption:
  assumes "scripted P p" and "runs consume c es c'"
    and "token_expiry P p grant token = Some exp" and "unat exp < 2 ^ 63" and "i \<noteq> j"
    and "\<forall>k \<in> {i, j}. cf_left c' k = [] \<and> performs P p (q k) (cf_left c k) (res k) \<and> redeems grant token (q k) \<and>
      \<not> straddled exp k es"
    and "res i = Inr r"
  shows "\<exists>e. res j = Inl e"
proof (rule ccontr)
  assume "\<nexists>e. res j = Inl e"
  then obtain r' where j: "res j = Inr r'" by (cases "res j") auto
  have "i = j"
  proof (rule one_redemption [OF assms(2,4), where pre = "\<lambda>_. es" and post = "\<lambda>_. []"])
    fix k
    assume k: "k \<in> {i, j}"
    then have "calls_of k es = cf_left c k" using runs_scripts [OF assms(2), of k] assms(6) by simp
    then show "es = es @ [] \<and> redemption (calls_of k es) (redemption_hash P grant token) exp \<and> \<not> straddled exp k es"
      using append_Nil2 performs_redemption [OF assms(1) _ _ assms(3)] assms(6,7) j k by (metis insert_iff singletonD)
  qed
  with assms(5) show False ..
qed

end

text \<open>
  C2.  A code or refresh token is redeemed at most once even by requests that overlap.  Any number of
  requests run against the in-memory store, their clock readings and locked store operations interleaved in any order,
  with the registrations changing at any time: of two requests that ran to completion with the same code (or refresh
  token), when one obtained tokens the other was refused, unless one of them straddled the expiry of the token: it
  read the clock before that second and still had a call to make after some request read it at that second or
  later.  The hypothesis \<open>scripted\<close> is that the crates touch no store; the clock does not
  go backwards.
\<close>

theorem overlapping_redemption_at_most_once:
  assumes "scripted P p" and "runs mem_consume c es c'"
    and "token_expiry P p grant token = Some exp" and "unat exp < 2 ^ 63" and "i \<noteq> j"
    and "\<forall>k \<in> {i, j}. cf_left c' k = [] \<and> performs P p (q k) (cf_left c k) (res k) \<and> redeems grant token (q k) \<and>
      \<not> straddled exp k es"
    and "res i = Inr r"
  shows "\<exists>e. res j = Inl e"
  using assms by (rule memuse.overlapping_redemption)

end
