(* ===== verification/Example_Run.thy ===== *)
theory Example_Run
  imports Deployment "HOL-Library.Countable"
begin

text \<open>
  Concrete runs of the token endpoint: a public client exchanges the code issued in
  \<open>Authorization\<close>, refreshes, and asks for UserInfo.  They show that the hypotheses of the general
  theorems hold together, and one of them is the double redemption at the second of expiry.
\<close>

section \<open>The code exchange\<close>

definition exchange_on :: "('w \<Rightarrow> u64 \<times> 'w) \<Rightarrow> 'w platform" where
  "exchange_on clock = (sample_platform clock [sealed_envelope TYP_CODE (code_to_json minted_code)])
     \<lparr>url_parse := (\<lambda>s. Inr \<lparr>u_scheme = ''https'', u_host = None, u_query = None, u_fragment = None,
        u_username = [], u_password = None, u_query_pairs = [], u_text = s\<rparr>), json_to_vec := (\<lambda>_. Inr [])\<rparr>"

abbreviation exchange_platform :: "world platform" where
  "exchange_platform \<equiv> exchange_on world_clock"

text \<open>What the runs need of a provider: the codec and the signing key of the sample.\<close>

definition exchange_party :: "'w provider \<Rightarrow> bool" where
  "exchange_party p \<longleftrightarrow> pv_codec p = \<lparr>tc_keys = [pad32 ''secret'']\<rparr> \<and> pv_signing_key p = sample_signing_key"

definition verifier :: string where
  "verifier = replicate 43 (CHR ''A'')"

definition code_form :: "string btree" where
  "code_form = [(''client_id'', ''rp''), (''code'', minted_token), (''code_verifier'', verifier),
     (''grant_type'', ''authorization_code''), (''redirect_uri'', ''https://rp/cb'')]"

lemma exchange_fields [simp]:
  "now_secs (exchange_on clock) = clock" "json_to_vec (exchange_on clock) v = Inr []"
  "jwe_encrypt (exchange_on clock) k pt = (if length k = 32 then retP (k @ pt) else failP ''key length'')"
  "jwt_encode (exchange_on clock) k hh c = retP k"
  "jwt_decode_with_jwkset (exchange_on clock) ks t vd = failP ''signature''"
  by (simp_all add: exchange_on_def sample_platform_def)

lemma sample_provider_fields [simp]:
  "pv_clients sample_provider = clients_get" "pv_token_use_store sample_provider = uses_consume"
  "pv_signing_key sample_provider = sample_signing_key"
  by (simp_all add: sample_provider_def provider_new_def sample_signing_key_def)

lemma exchange_deployed: "deployed exchange_platform sample_provider"
  by (simp add: deployed_def)

lemma claims_normal_Nil [simp]: "claims_normal []"
  by (simp add: claims_normal_def)

lemma minted_code_fields:
  "ac_exp minted_code = 700" "ac_client_id minted_code = ''rp''" "ac_redirect_uri minted_code = ''https://rp/cb''"
  "ac_code_challenge minted_code = Some verifier" "ac_code_challenge_method minted_code = Some ''S256''"
  "ac_claims minted_code = []" "ac_scope minted_code = ''openid''"
  by (simp_all add: minted_code_def mint_code_payload_def sample_flags lifetimes_default_def code_request_def
      sample_request_def verifier_def)

lemma minted_opens:
  "token_open (exchange_on clock) \<lparr>tc_keys = [pad32 ''secret'']\<rparr> ''AuthCodePayload'' code_from_json TYP_CODE minted_token
     = Inr minted_code"
proof -
  have "json_from_slice (exchange_on clock) [] = Inr (json_norm (sealed_envelope TYP_CODE (code_to_json minted_code)))"
    by (simp add: exchange_on_def sample_platform_def)
  moreover have "jwe_decrypt (exchange_on clock) (pad32 ''secret'') minted_token = Inr []"
    by (simp add: exchange_on_def sample_platform_def minted_token_def)
  ultimately show ?thesis
    using code_json_roundtrip [of minted_code]
    by (simp add: token_open_def open_plaintext_def opened_sealed minted_code_fields del: json_norm.simps)
qed

lemma verifier_matches: "pkce_verify (exchange_on clock) verifier verifier (Some ''S256'')"
proof -
  have "sha256 (exchange_on clock) verifier = replicate 32 (CHR ''A'')"
    by (simp add: exchange_on_def sample_platform_def pad32_def verifier_def)
  then have "s256_challenge (exchange_on clock) verifier = verifier"
    by (simp add: s256_challenge_def exchange_on_def sample_platform_def
        sample_suffix_def verifier_def replicate_add [symmetric])
  moreover have "is_valid_s256_challenge (exchange_on clock) verifier"
    by (simp add: is_valid_s256_challenge_def exchange_on_def
        sample_platform_def sample_b64_decode_def sample_suffix_def verifier_def replicate_add [symmetric])
  moreover have "is_valid_verifier verifier"
    by (simp add: is_valid_verifier_def verifier_def is_ascii_alphanumeric_def list_all_iff)
  ultimately show ?thesis by (simp add: pkce_verify_S256)
qed

lemma code_form_binds: "check_code_binding (exchange_on clock) public_client minted_code code_form = Inr ()"
  using verifier_matches [of clock]
  by (simp add: check_code_binding_ok minted_code_fields public_code_has_s256_def code_form_def)
    (simp add: public_client_def verifier_def)

lemma public_client_authenticates:
  assumes "w_clients w = with_clients [public_client]" and "world_clock w = (t, w1)"
  shows "authenticate_client_map exchange_platform sample_provider code_form None url w = (Inr public_client, w1)"
proof -
  have "w_clients w1 = with_clients [public_client]" using drift_stores [OF world_clock_drift [OF assms(2)]] assms(1) by simp
  then have "clients_get ''rp'' w = (Some public_client, w1)"
    by (simp add: clients_get_def assms(2) client_map_get_def with_clients_def client_map_new_def)
      (simp add: public_client_def)
  then show ?thesis
    by (simp add: authenticate_client_map_def code_form_def bt_contains_key_def require_client_def bindP_def effP_def)
      (simp add: public_client_def)
qed

text \<open>\<open>succeeds m\<close>: the program \<open>m\<close> answers a value in every world.\<close>

definition succeeds :: "('w, 'e, 'a) prog \<Rightarrow> bool" where
  "succeeds m \<longleftrightarrow> (\<forall>w. \<exists>x w'. m w = (Inr x, w'))"

lemma succeeds_intros:
  "succeeds (retP x)" "succeeds (effP act)"
  "succeeds m \<Longrightarrow> succeeds (mapErrP g m)"
  "succeeds m \<Longrightarrow> (\<And>x. succeeds (f x)) \<Longrightarrow> succeeds (bindP m f)"
  "succeeds m \<Longrightarrow> succeeds (whenP b m)"
  unfolding succeeds_def by (simp_all add: retP_ok effP_ok mapErrP_ok bindP_ok whenP_ok) metis+

lemma seals_always: "succeeds (token_seal (exchange_on clock) \<lparr>tc_keys = [pad32 ''secret'']\<rparr> ty v)"
  by (simp add: succeeds_def token_seal_def mapErrP_def bindP_def pad32_def)

lemma id_token_always: "exchange_party p \<Longrightarrow> succeeds (build_id_token (exchange_on clock) p cid sub n cl acr at None a)"
proof -
  assume p: "exchange_party p"
  obtain h where "opt_token_hash (exchange_on clock) p a = Inr h"
    using p by (cases a) (auto simp: exchange_party_def opt_token_hash_def oidc_token_hash_def oidc_digest_def sample_signing_key_def Let_def)
  then show ?thesis
    by (simp add: succeeds_def build_id_token_def jwt_sign_def opt_token_hash_def bindP_def effP_def mapErrP_def
        case_prod_beta)
qed

lemma mint_always:
  assumes "exchange_party p"
  shows "succeeds (mint_for_code (exchange_on clock) p public_client payload dpop)"
proof -
  have "pv_codec p = \<lparr>tc_keys = [pad32 ''secret'']\<rparr>" using assms by (simp add: exchange_party_def)
  then show ?thesis
    unfolding mint_for_code_def seal_access_token_def seal_refresh_token_def
    by (simp only:) (intro succeeds_intros seals_always id_token_always [OF assms])
qed

lemma sample_party: "exchange_party sample_provider"
  by (simp add: exchange_party_def sample_codec)

lemma sample_opens:
  "token_open exchange_platform (pv_codec sample_provider) ''AuthCodePayload'' code_from_json TYP_CODE minted_token
     = Inr minted_code"
  by (simp add: sample_codec minted_opens)

lemma exchange_succeeds:
  assumes "w_clients w = with_clients [public_client]" and "world_clock w = (t1, w1)" and "world_clock w1 = (t2, w2)"
    and "t2 < 700" and "world_clock w2 = (t3, w3)"
    and "uses_consume (token_use_hash exchange_platform ''code'' minted_token) (max (saturating_sub 700 t3) 1) w3 = (Inr True, w4)"
  shows "\<exists>r w'. handle_authorization_code exchange_platform sample_provider code_form None url dpop w = (Inr r, w') \<and>
    w_uses w' = w_uses w4 \<and> w_clients w' = w_clients w4"
proof -
  have o: "open_code exchange_platform (pv_codec sample_provider) minted_token w1 = (Inr minted_code, w2)"
    using assms(3,4) by (simp add: open_code_def sample_codec minted_opens bindP_def effP_def guardP_def minted_code_fields)
  have c: "consume_token_once exchange_platform sample_provider ''code'' minted_token (ac_exp minted_code)
      ''authorization code already used'' w2 = (Inr (), w4)"
    using assms(5,6)
    by (simp add: consume_token_once_def minted_code_fields bindP_def effP_def Let_def mapErrP_def)
  have f: "map_of code_form ''code'' = Some minted_token" by (simp add: code_form_def)
  have g: "''authorization_code'' \<in> set (cl_grant_types public_client)" by (simp add: public_client_def)
  have "handle_authorization_code exchange_platform sample_provider code_form None url dpop w =
      mint_for_code exchange_platform sample_provider public_client minted_code dpop w4"
    by (simp add: handle_authorization_code_def bindP_def public_client_authenticates [OF assms(1,2)] g f
        code_form_binds c mapErrP_def o)
  moreover obtain r w' where m: "mint_for_code exchange_platform sample_provider public_client minted_code dpop w4 = (Inr r, w')"
    using mint_always [OF sample_party, of world_clock minted_code dpop] unfolding succeeds_def by metis
  moreover have "drift_closed (\<lambda>w. w_uses w = w_uses w4 \<and> w_clients w = w_clients w4)"
    by (auto simp: drift_closed_def dest: drift_stores)
  from keepsD [OF keeps_mint(1) [OF deployed_crates [OF exchange_deployed this]] _ m]
  have "w_uses w' = w_uses w4 \<and> w_clients w' = w_clients w4" by simp
  ultimately show ?thesis by auto
qed

abbreviation code_hash :: string where
  "code_hash \<equiv> token_use_hash exchange_platform ''code'' minted_token"

lemma consume_fresh:
  "\<exists>w'. uses_consume h ttl (fresh_world [t] cs) = (Inr True, w') \<and> w_clients w' = with_clients cs \<and>
     w_uses w' = \<lparr>tu_poisoned = False, tu_entries = [h \<mapsto> t + max ttl 1], tu_next_purge = t + 60\<rparr>"
  by (simp add: uses_consume_def world_clock_def fresh_world_def mem_consume_def token_use_new_def Let_def
      purge_def purge_interval_def retain_def)

lemma exchange_at:
  assumes "t < 700"
  shows "\<exists>r w'. handle_authorization_code exchange_platform sample_provider code_form None url dpop
    (fresh_world [t] [public_client]) = (Inr r, w') \<and> w_clients w' = with_clients [public_client] \<and>
    w_uses w' = \<lparr>tu_poisoned = False, tu_entries = [code_hash \<mapsto> t + max (saturating_sub 700 t) 1],
      tu_next_purge = t + 60\<rparr>"
proof -
  have c: "world_clock (fresh_world [t] [public_client]) = (t, fresh_world [t] [public_client])"
    by (simp add: world_clock_def fresh_world_def)
  obtain w4 where "uses_consume code_hash (max (saturating_sub 700 t) 1) (fresh_world [t] [public_client]) = (Inr True, w4)"
      and w4: "w_clients w4 = with_clients [public_client]"
      "w_uses w4 = \<lparr>tu_poisoned = False, tu_entries = [code_hash \<mapsto> t + max (saturating_sub 700 t) 1],
        tu_next_purge = t + 60\<rparr>"
    using consume_fresh [of code_hash "max (saturating_sub 700 t) 1" t "[public_client]"] by auto
  then show ?thesis
    using exchange_succeeds [OF _ c c assms c, of w4 url dpop] by (auto simp: fresh_world_def)
qed

theorem code_exchange_bindings_witness:
  "\<exists>v. map_of code_form ''code_verifier'' = Some v \<and> is_valid_verifier v"
proof -
  obtain r w' where e: "handle_authorization_code exchange_platform sample_provider code_form None ''u'' None
      (fresh_world [200] [public_client]) = (Inr r, w')"
    using exchange_at [of 200 "''u''" None] by auto
  have "authenticate_client_map exchange_platform sample_provider code_form None ''u'' (fresh_world [200] [public_client])
      = (Inr public_client, fresh_world [200] [public_client])"
    by (rule public_client_authenticates) (simp_all add: world_clock_def fresh_world_def)
  with code_exchange_bindings [OF e] show ?thesis by (auto simp: public_client_def)
qed

section \<open>The code twice\<close>

definition code_request_at :: "u64 list \<Rightarrow> token_request" where
  "code_request_at ts = \<lparr>rq_times = ts, rq_form = code_form, rq_header = None, rq_url = ''https://op/token'', rq_dpop = None\<rparr>"

lemma code_form_unique: "unique_parameters code_form = Inr code_form"
  by (simp add: unique_parameters_def code_form_def insert_unique_def less_list_code less_char_def)

lemma serve_code_form:
  "serve exchange_platform sample_provider (code_request_at ts) w =
     handle_authorization_code exchange_platform sample_provider code_form None ''https://op/token'' None (w\<lparr>w_times := ts\<rparr>)"
  by (simp add: serve_def code_request_at_def handle_token_request_def code_form_unique handle_token_request_map_def)
    (simp add: code_form_def)

lemma code_request_redeems: "redeems ''authorization_code'' minted_token (code_request_at ts)"
  by (simp add: redeems_def code_request_at_def code_form_def)

text \<open>
  C38.  At the second of its expiry an authorization code can be redeemed twice.  The code of this run
  expires at second 700.  A first exchange at second 699 succeeds and its replay entry, with the
  remaining lifetime of one second, ends at 700.  A second exchange authenticates and opens the code
  while the clock still reads 699 and reaches the store when it reads 700: the code is not expired
  when it is opened, the entry is expired when it is looked up, and the exchange succeeds again.
\<close>

theorem code_redeemed_twice_at_expiry:
  "\<exists>r1 w1 r2 w2.
     serve exchange_platform sample_provider (code_request_at [699]) (fresh_world [] [public_client]) = (Inr r1, w1) \<and>
     serve exchange_platform sample_provider (code_request_at [699, 699, 700]) w1 = (Inr r2, w2)"
proof -
  have f: "(fresh_world [] [public_client])\<lparr>w_times := [699]\<rparr> = fresh_world [699] [public_client]"
    by (simp add: fresh_world_def)
  obtain r1 w1 where s1: "serve exchange_platform sample_provider (code_request_at [699]) (fresh_world [] [public_client]) = (Inr r1, w1)"
      and w1: "w_clients w1 = with_clients [public_client]"
      "w_uses w1 = \<lparr>tu_poisoned = False, tu_entries = [code_hash \<mapsto> 699 + max (saturating_sub 700 699) 1],
        tu_next_purge = 699 + 60\<rparr>"
    using exchange_at [of 699 "''https://op/token''" None] by (auto simp: serve_code_form f)
  have e: "699 + max (saturating_sub 700 699) (1 :: u64) = 700" by (simp add: saturating_sub_def)
  let ?w = "w1\<lparr>w_times := [699, 699, 700]\<rparr>"
  have c: "world_clock ?w = (699, w1\<lparr>w_times := [699, 700]\<rparr>)"
      "world_clock (w1\<lparr>w_times := [699, 700]\<rparr>) = (699, w1\<lparr>w_times := [700]\<rparr>)"
      "world_clock (w1\<lparr>w_times := [700]\<rparr>) = (700, w1\<lparr>w_times := [700]\<rparr>)"
    by (simp_all add: world_clock_def)
  obtain w4 where "uses_consume code_hash (max (saturating_sub 700 700) 1) (w1\<lparr>w_times := [700]\<rparr>) = (Inr True, w4)"
    by (simp add: uses_consume_def c(3) mem_consume_def w1(2) e Let_def purge_def)
  then have "\<exists>r2 w2. serve exchange_platform sample_provider (code_request_at [699, 699, 700]) w1 = (Inr r2, w2)"
    using exchange_succeeds [OF _ c(1,2) _ c(3)] w1(1) by (simp add: serve_code_form) blast
  with s1 show ?thesis by blast
qed

text \<open>The same requests without the straddling: the second one is refused.\<close>

theorem code_redeemed_at_most_once_witness:
  "\<exists>r1 w1. serve exchange_platform sample_provider (code_request_at [650]) (fresh_world [] [public_client]) = (Inr r1, w1) \<and>
     (\<forall>r2 w2. serve exchange_platform sample_provider (code_request_at [660, 699]) w1 \<noteq> (Inr r2, w2))"
proof -
  have f: "(fresh_world [] [public_client])\<lparr>w_times := [650]\<rparr> = fresh_world [650] [public_client]"
    by (simp add: fresh_world_def)
  obtain r1 w1 where s1: "serve exchange_platform sample_provider (code_request_at [650]) (fresh_world [] [public_client]) = (Inr r1, w1)"
    using exchange_at [of 650 "''https://op/token''" None] by (auto simp: serve_code_form f)
  have "serve exchange_platform sample_provider (code_request_at [660, 699]) w1 \<noteq> (Inr r2, w2)" for r2 w2
    by (rule code_redeemed_at_most_once [OF exchange_deployed sample_opens _ code_request_redeems code_request_redeems _ _ _ s1, where qs = "[]" and rs = "[]"])
      (simp_all add: minted_code_fields code_request_at_def straddles_def)
  with s1 show ?thesis by blast
qed

section \<open>Refresh\<close>

text \<open>
  The same provider on a platform where a JSON text is the number of its value, but for the refresh token of
  \<open>Tokens\<close>, whose text is empty.
\<close>

instance json :: countable
  by countable_datatype

definition refresh_text :: json where
  "refresh_text = sealed_envelope TYP_REFRESH (refresh_to_json sample_refresh)"

definition refresh_platform :: "world platform" where
  "refresh_platform = (sample_platform world_clock [])
     \<lparr>json_to_vec := (\<lambda>v. Inr (if v = refresh_text then [] else replicate (Suc (to_nat v)) (CHR ''1''))),
      json_from_slice := (\<lambda>t. Inr (json_norm (if t = [] then refresh_text else from_nat (length t - 1))))\<rparr>"

definition refresh_form :: "string btree" where
  "refresh_form = [(''client_id'', ''rp''), (''grant_type'', ''refresh_token''), (''refresh_token'', minted_token)]"

lemma refresh_fields [simp]:
  "now_secs refresh_platform = world_clock" "json_to_vec refresh_platform v = Inr (if v = refresh_text then [] else replicate (Suc (to_nat v)) (CHR ''1''))"
  "jwe_encrypt refresh_platform k pt = (if length k = 32 then retP (k @ pt) else failP ''key length'')"
  "jwt_encode refresh_platform k hh c = retP k"
  "jwt_decode_with_jwkset refresh_platform ks t vd = failP ''signature''"
  by (simp_all add: refresh_platform_def sample_platform_def)

lemma refresh_deployed: "deployed refresh_platform sample_provider"
  by (simp add: deployed_def)

lemma refresh_opens:
  "token_open refresh_platform (pv_codec sample_provider) ''RefreshTokenPayload'' refresh_from_json TYP_REFRESH minted_token
     = Inr sample_refresh"
proof -
  have "json_from_slice refresh_platform [] = Inr (json_norm (sealed_envelope TYP_REFRESH (refresh_to_json sample_refresh)))"
    by (simp add: refresh_platform_def refresh_text_def)
  moreover have "jwe_decrypt refresh_platform (pad32 ''secret'') minted_token = Inr []"
    by (simp add: refresh_platform_def sample_platform_def minted_token_def)
  ultimately show ?thesis
    using refresh_json_roundtrip [of sample_refresh]
    by (simp add: token_open_def sample_codec open_plaintext_def opened_sealed sample_refresh_def del: json_norm.simps)
qed

lemma refresh_client_authenticates:
  "authenticate_client_map refresh_platform sample_provider refresh_form None url (fresh_world [t] [public_client]) =
     (Inr public_client, fresh_world [t] [public_client])"
  by (simp add: authenticate_client_map_def refresh_form_def bt_contains_key_def require_client_def bindP_def effP_def
      clients_get_def world_clock_def fresh_world_def client_map_get_def with_clients_def client_map_new_def)
    (simp add: public_client_def)

lemma refresh_mints: "succeeds (mint_for_refresh refresh_platform sample_provider public_client rt scope cnf dpop now)"
proof -
  have seals: "succeeds (token_seal refresh_platform (pv_codec sample_provider) ty v)" for ty v
    by (simp add: succeeds_def token_seal_def sample_codec mapErrP_def bindP_def pad32_def)
  have "opt_token_hash refresh_platform sample_provider (hashable sample_provider a) =
      Inr (Some (b64url_encode refresh_platform (take (length (sha256 refresh_platform a) div 2) (sha256 refresh_platform a))))" for a
    by (simp add: opt_token_hash_def hashable_def oidc_token_hash_def oidc_digest_def sample_signing_key_def
        supports_oidc_token_hash_def Let_def)
  then have idt: "succeeds (build_id_token refresh_platform sample_provider cid sub n cl acr at None (hashable sample_provider a))"
    for cid sub n cl acr at a
    by (simp add: succeeds_def build_id_token_def jwt_sign_def opt_token_hash_def [of _ _ None] bindP_def effP_def mapErrP_def
        case_prod_beta)
  show ?thesis
    unfolding mint_for_refresh_def seal_access_token_def seal_refresh_token_def Let_def
    by (intro succeeds_intros seals idt)
qed

lemma refresh_at:
  assumes "t < 100"
  shows "\<exists>r w'. handle_refresh_token refresh_platform sample_provider refresh_form None url None
    (fresh_world [t] [public_client]) = (Inr r, w')"
proof -
  let ?w = "fresh_world [t] [public_client]"
  have c: "world_clock ?w = (t, ?w)" by (simp add: world_clock_def fresh_world_def)
  have e: "rt_exp sample_refresh = 100" "rt_client_id sample_refresh = ''rp''" "cl_client_id public_client = ''rp''"
      "client_allows_refresh public_client"
    by (simp_all add: sample_refresh_def public_client_def client_allows_refresh_def)
  have o: "open_refresh_token refresh_platform (pv_codec sample_provider) minted_token ?w = (Inr sample_refresh, ?w)"
    using assms by (simp add: open_refresh_token_def refresh_opens bindP_def effP_def guardP_def e c)
  obtain w4 where "uses_consume (token_use_hash refresh_platform ''refresh'' minted_token) (max (saturating_sub 100 t) 1) ?w = (Inr True, w4)"
    using consume_fresh by blast
  then have u: "consume_token_once refresh_platform sample_provider ''refresh'' minted_token 100
      ''refresh token already used'' ?w = (Inr (), w4)"
    by (simp add: consume_token_once_def bindP_def effP_def Let_def mapErrP_def c)
  have r: "refresh_confirmation sample_refresh None = Inr None" "refresh_scope sample_refresh refresh_form = Inr ''openid''"
    by (simp_all add: refresh_confirmation_def refresh_scope_def sample_refresh_def refresh_form_def)
  have f: "map_of refresh_form ''refresh_token'' = Some minted_token" by (simp add: refresh_form_def)
  have "handle_refresh_token refresh_platform sample_provider refresh_form None url None ?w =
      mint_for_refresh refresh_platform sample_provider public_client sample_refresh ''openid'' None None t w4"
    by (simp add: handle_refresh_token_def bindP_def refresh_client_authenticates e f mapErrP_def o r effP_def c u)
  then show ?thesis using refresh_mints unfolding succeeds_def by metis
qed

theorem refresh_rotates_witness:
  "\<exists>r w'. handle_refresh_token refresh_platform sample_provider refresh_form None ''u'' None
      (fresh_world [95] [public_client]) = (Inr r, w') \<and> tr_refresh_token r \<noteq> None"
proof -
  let ?w = "fresh_world [95] [public_client]"
  obtain r w' where h: "handle_refresh_token refresh_platform sample_provider refresh_form None ''u'' None ?w = (Inr r, w')"
    using refresh_at [of 95 "''u''"] by auto
  have c: "world_clock ?w = (95, ?w)" by (simp add: world_clock_def fresh_world_def)
  have o: "open_refresh_token refresh_platform (pv_codec sample_provider) minted_token ?w = (Inr sample_refresh, ?w)"
    by (simp add: open_refresh_token_def refresh_opens bindP_def effP_def guardP_def c sample_refresh_def)
  have f: "map_of refresh_form ''refresh_token'' = Some minted_token" by (simp add: refresh_form_def)
  show ?thesis
    using refresh_rotates [OF h] h refresh_client_authenticates [of "''u''" 95] o c f by auto
qed

definition refresh_request_at :: "u64 list \<Rightarrow> token_request" where
  "refresh_request_at ts = \<lparr>rq_times = ts, rq_form = refresh_form, rq_header = None, rq_url = ''u'', rq_dpop = None\<rparr>"

lemma refresh_form_unique: "unique_parameters refresh_form = Inr refresh_form"
  by (simp add: unique_parameters_def refresh_form_def insert_unique_def less_list_code less_char_def)

lemma serve_refresh_form:
  "serve refresh_platform sample_provider (refresh_request_at ts) w =
     handle_refresh_token refresh_platform sample_provider refresh_form None ''u'' None (w\<lparr>w_times := ts\<rparr>)"
  by (simp add: serve_def refresh_request_at_def handle_token_request_def refresh_form_unique handle_token_request_map_def)
    (simp add: refresh_form_def)

theorem refresh_redeemed_at_most_once_witness:
  "\<exists>r1 w1. serve refresh_platform sample_provider (refresh_request_at [91]) (fresh_world [] [public_client]) = (Inr r1, w1) \<and>
     (\<forall>r2 w2. serve refresh_platform sample_provider (refresh_request_at [92, 99]) w1 \<noteq> (Inr r2, w2))"
proof -
  have f: "(fresh_world [] [public_client])\<lparr>w_times := [91]\<rparr> = fresh_world [91] [public_client]"
    by (simp add: fresh_world_def)
  obtain r1 w1 where s1: "serve refresh_platform sample_provider (refresh_request_at [91]) (fresh_world [] [public_client]) = (Inr r1, w1)"
    using refresh_at [of 91 "''u''"] by (auto simp: serve_refresh_form f)
  have red: "redeems ''refresh_token'' minted_token (refresh_request_at ts)" for ts
    by (simp add: redeems_def refresh_request_at_def refresh_form_def)
  have "serve refresh_platform sample_provider (refresh_request_at [92, 99]) w1 \<noteq> (Inr r2, w2)" for r2 w2
    by (rule refresh_redeemed_at_most_once [OF refresh_deployed refresh_opens _ red red _ _ _ s1, where qs = "[]" and rs = "[]"])
      (simp_all add: sample_refresh_def refresh_request_at_def straddles_def)
  with s1 show ?thesis by blast
qed

section \<open>Client credentials and UserInfo\<close>

definition service_client :: client where
  "service_client = secret_client\<lparr>cl_grant_types := [''client_credentials''], cl_scope := Some ''read write''\<rparr>"

definition service_form :: "string btree" where
  "service_form = [(''client_id'', ''rp''), (''client_secret'', ''s3''), (''scope'', ''read'')]"

lemma service_scopes: "granted_scopes service_client service_form = [''read'']"
  unfolding granted_scopes_def service_form_def service_client_def secret_client_def by code_simp

lemma service_client_registration:
  "cl_token_endpoint_auth_method service_client \<noteq> AUTH_NONE" "''client_credentials'' \<in> set (cl_grant_types service_client)"
  by (simp_all add: service_client_def secret_client_def)

theorem client_credentials_grant_witness:
  "\<exists>r w'. handle_client_credentials exchange_platform sample_provider service_form None ''u'' None
     (fresh_world [7] [service_client]) = (Inr r, w') \<and> tr_refresh_token r = None"
proof -
  let ?w = "fresh_world [7] [service_client]"
  have c: "world_clock ?w = (7, ?w)" by (simp add: world_clock_def fresh_world_def)
  have g: "clients_get ''rp'' ?w = (Some service_client, ?w)"
    using sample_clients_get [of "''rp''" 7 service_client] by (simp add: service_client_def secret_client_def)
  have a: "authenticate_client_map exchange_platform sample_provider service_form None ''u'' ?w = (Inr service_client, ?w)"
    by (simp add: authenticate_client_map_def service_form_def bt_contains_key_def check_secret_def require_client_def
        bindP_def effP_def g) (simp add: service_client_def secret_client_def constant_time_eq_iff guardP_def)
  obtain tok w' where s: "token_seal exchange_platform (pv_codec sample_provider) TYP_ACCESS (access_to_json
      \<lparr>at_client_id = cl_client_id service_client, at_sub = cl_client_id service_client, at_scope = ''read'', at_claims = [],
       at_exp = 7 + access_token_ttl (pv_lifetimes sample_provider), at_cnf_jkt = None\<rparr>) ?w = (Inr tok, w')"
    using seals_always [of world_clock] unfolding succeeds_def sample_codec by metis
  have "\<exists>r. handle_client_credentials exchange_platform sample_provider service_form None ''u'' None ?w = (Inr r, w')"
    using service_client_registration
    by (simp add: handle_client_credentials_def bindP_def a service_scopes effP_def c mapErrP_def seal_access_token_def s
        guardP_def Let_def)
  then obtain r where h: "handle_client_credentials exchange_platform sample_provider service_form None ''u'' None ?w = (Inr r, w')"
    by blast
  from client_credentials_grant [OF h] h show ?thesis by blast
qed

definition sample_access :: access_token_payload where
  "sample_access = \<lparr>at_client_id = ''rp'', at_sub = ''alice'', at_scope = ''openid'',
     at_claims = [(''sub'', JString ''mallory'')], at_exp = 100, at_cnf_jkt = Some ''thumb''\<rparr>"

definition userinfo_platform :: "world platform" where
  "userinfo_platform = sample_platform world_clock [sealed_envelope TYP_ACCESS (access_to_json sample_access)]"

lemma access_opens:
  "open_access_token userinfo_platform (pv_codec sample_provider) minted_token (fresh_world [50] []) =
     (Inr sample_access, fresh_world [50] [])"
proof -
  have "json_from_slice userinfo_platform [] = Inr (json_norm (sealed_envelope TYP_ACCESS (access_to_json sample_access)))"
    by (simp add: userinfo_platform_def sample_platform_def)
  moreover have "jwe_decrypt userinfo_platform (pad32 ''secret'') minted_token = Inr []"
    by (simp add: userinfo_platform_def sample_platform_def minted_token_def)
  moreover have "claims_normal (at_claims sample_access)" by (simp add: claims_normal_def sample_access_def)
  ultimately have "token_open userinfo_platform (pv_codec sample_provider) ''AccessTokenPayload'' access_from_json TYP_ACCESS minted_token
      = Inr sample_access"
    using access_json_roundtrip [of sample_access]
    by (simp add: token_open_def sample_codec open_plaintext_def opened_sealed del: json_norm.simps)
  moreover have "now_secs userinfo_platform (fresh_world [50] []) = (50, fresh_world [50] [])"
    by (simp add: userinfo_platform_def sample_platform_def world_clock_def fresh_world_def)
  ultimately show ?thesis
    by (simp add: open_access_token_def bindP_def effP_def guardP_def) (simp add: sample_access_def)
qed

theorem userinfo_subject_authoritative_witness:
  "\<exists>j. userinfo userinfo_platform sample_provider minted_token (Some ''thumb'') (fresh_world [50] []) = (Inr j, fresh_world [50] []) \<and>
     json_get j ''sub'' = Some (JString ''alice'')"
proof -
  have "split_whitespace ''openid'' = [''openid'']" by code_simp
  then obtain j where u: "userinfo userinfo_platform sample_provider minted_token (Some ''thumb'') (fresh_world [50] []) = (Inr j, fresh_world [50] [])"
    by (simp add: userinfo_def bindP_def mapErrP_def access_opens guardP_def check_token_binding_def)
      (simp add: sample_access_def)
  have "token_open userinfo_platform (pv_codec sample_provider) ''AccessTokenPayload'' access_from_json TYP_ACCESS minted_token
      = Inr sample_access"
    using access_opens by (auto simp: open_access_token_def prog_ok)
  with userinfo_subject_authoritative [OF u] u show ?thesis by (auto simp: sample_access_def)
qed

end
