(* ===== verification/Concurrent_Run.thy ===== *)
theory Concurrent_Run
  imports Concurrency Example_Run
begin

text \<open>
  A concrete interleaving: two requests redeem the code of \<open>Example_Run\<close> at the same time.  Both look the client
  up, open the code, pass the expiry check and read the clock for the token-use store before either has its lock.
\<close>

definition scripted_provider :: "script provider" where
  "scripted_provider = \<lparr>pv_metadata = pv_metadata sample_provider, pv_signing_key = sample_signing_key,
     pv_clients = script_get, pv_codec = pv_codec sample_provider, pv_lifetimes = lifetimes_default,
     pv_token_use_store = script_use, pv_caller_managed_pairwise = False,
     pv_client_assertion_max_age = default_client_assertion_max_age, pv_emit_iss = False\<rparr>"

abbreviation script_platform :: "script platform" where
  "script_platform \<equiv> exchange_on script_clock"

lemma scripted_party: "exchange_party scripted_provider"
  by (simp add: exchange_party_def scripted_provider_def sample_codec)

lemma sample_scripted: "scripted script_platform scripted_provider"
  by (simp add: scripted_def scripted_provider_def retP_def failP_def)

text \<open>\<open>leaves g m\<close>: the program \<open>m\<close> answers a value in every world, and takes the world \<open>w\<close> to \<open>g w\<close>.\<close>

definition leaves :: "('w \<Rightarrow> 'w) \<Rightarrow> ('w, 'e, 'a) prog \<Rightarrow> bool" where
  "leaves g m \<longleftrightarrow> (\<forall>w. \<exists>x. m w = (Inr x, g w))"

lemma leaves_intros:
  "leaves (\<lambda>w. w) (retP x)" "leaves (\<lambda>w. snd (act w)) (effP act)"
  "leaves g m \<Longrightarrow> leaves g (mapErrP h m)"
  "leaves g m \<Longrightarrow> (\<And>x. leaves g' (f x)) \<Longrightarrow> leaves (\<lambda>w. g' (g w)) (bindP m f)"
  "leaves g m \<Longrightarrow> b \<Longrightarrow> leaves g (whenP b m)"
  unfolding leaves_def by (simp_all add: retP_ok effP_ok mapErrP_ok bindP_ok whenP_ok) (metis prod.collapse)+

lemma leaves_cong: "leaves g m \<Longrightarrow> (\<And>w. g w = g' w) \<Longrightarrow> leaves g' m"
  by (simp add: leaves_def)

lemma seals_leave: "leaves (\<lambda>w. w) (token_seal (exchange_on clock) \<lparr>tc_keys = [pad32 ''secret'']\<rparr> ty v)"
  by (simp add: leaves_def token_seal_def mapErrP_def bindP_def pad32_def)

lemma id_token_leaves:
  assumes "exchange_party p"
  shows "leaves (\<lambda>w. snd (clock w)) (build_id_token (exchange_on clock) p cid sub n cl acr at None a)"
proof -
  obtain h where "opt_token_hash (exchange_on clock) p a = Inr h"
    using assms by (cases a) (auto simp: exchange_party_def opt_token_hash_def oidc_token_hash_def oidc_digest_def sample_signing_key_def Let_def)
  then show ?thesis
    by (simp add: leaves_def build_id_token_def jwt_sign_def opt_token_hash_def bindP_def effP_def mapErrP_def
        case_prod_beta)
qed

text \<open>A token response costs three readings of the clock: access token, ID token, refresh token.\<close>

lemma mint_leaves:
  assumes "exchange_party p"
  shows "leaves (\<lambda>w. snd (clock (snd (clock (snd (clock w))))))
    (mint_for_code (exchange_on clock) p public_client minted_code dpop)"
proof -
  have c: "pv_codec p = \<lparr>tc_keys = [pad32 ''secret'']\<rparr>" using assms by (simp add: exchange_party_def)
  have s: "split_whitespace ''openid'' = [''openid'']" by code_simp
  show ?thesis
    unfolding mint_for_code_def seal_access_token_def seal_refresh_token_def c
    by (rule leaves_cong)
      (rule leaves_intros seals_leave id_token_leaves [OF assms] |
        simp add: minted_code_fields s public_client_def client_allows_refresh_def)+
qed

section \<open>The two scripts\<close>

abbreviation shared_hash :: string where
  "shared_hash \<equiv> token_use_hash script_platform ''code'' minted_token"

definition racing_request :: token_request where
  "racing_request = \<lparr>rq_times = [], rq_form = code_form, rq_header = None, rq_url = ''https://op/token'', rq_dpop = None\<rparr>"

text \<open>Up to the store both requests make the same calls.\<close>

definition arriving :: "call list" where
  "arriving = [Lookup ''rp'' (Some public_client), Reading 200, Reading 200]"

definition winner_calls :: "call list" where
  "winner_calls = arriving @ [Reading 200, Use 200 shared_hash 500 (Inr True), Reading 201, Reading 201, Reading 202]"

definition loser_calls :: "call list" where
  "loser_calls = arriving @ [Reading 201, Use 201 shared_hash 500 (Inr False)]"

lemma scripted_fields [simp]:
  "pv_clients scripted_provider = script_get" "pv_token_use_store scripted_provider = script_use"
  "pv_codec scripted_provider = \<lparr>tc_keys = [pad32 ''secret'']\<rparr>"
  by (simp_all add: scripted_provider_def sample_codec)

lemma racing_handler:
  "handle_token_request script_platform scripted_provider (rq_form racing_request) (rq_header racing_request)
     (rq_url racing_request) (rq_dpop racing_request) =
   handle_authorization_code script_platform scripted_provider code_form None ''https://op/token'' None"
  by (rule ext, simp add: racing_request_def handle_token_request_def code_form_unique handle_token_request_map_def)
    (simp add: code_form_def)

lemma racing_authenticates:
  "authenticate_client_map script_platform scripted_provider code_form None url
     (Some (Lookup ''rp'' (Some public_client) # cs)) = (Inr public_client, Some cs)"
  by (simp add: authenticate_client_map_def code_form_def bt_contains_key_def require_client_def bindP_def effP_def)
    (simp add: public_client_def)

lemma racing_up_to_store:
  "handle_authorization_code script_platform scripted_provider code_form None url dpop
     (Some (arriving @ Reading t # Use t shared_hash 500 (Inr fresh) # cs)) =
   (if fresh then mint_for_code script_platform scripted_provider public_client minted_code dpop (Some cs)
    else (Inl (invalid_grant ''authorization code already used''), Some cs))"
proof -
  have o: "open_code script_platform (pv_codec scripted_provider) minted_token (Some (Reading 200 # ys)) = (Inr minted_code, Some ys)" for ys
    by (simp add: open_code_def minted_opens bindP_def effP_def guardP_def minted_code_fields)
  have f: "map_of code_form ''code'' = Some minted_token" by (simp add: code_form_def)
  have g: "''authorization_code'' \<in> set (cl_grant_types public_client)" by (simp add: public_client_def)
  have "max (saturating_sub 700 200) 1 = (500 :: u64)" by code_simp
  then have "consume_token_once script_platform scripted_provider ''code'' minted_token (ac_exp minted_code)
      ''authorization code already used'' (Some (Reading 200 # Reading t # Use t shared_hash 500 (Inr fresh) # cs)) =
      (if fresh then Inr () else Inl (invalid_grant ''authorization code already used''), Some cs)"
    by (simp add: consume_token_once_def minted_code_fields bindP_def effP_def guardP_def mapErrP_def Let_def retP_def failP_def)
  then show ?thesis using o
    by (simp add: handle_authorization_code_def arriving_def bindP_def racing_authenticates g f
        code_form_binds mapErrP_def)
qed

lemma winner_performs: "\<exists>r. performs script_platform scripted_provider racing_request winner_calls (Inr r)"
proof -
  obtain r where "mint_for_code script_platform scripted_provider public_client minted_code None
      (Some [Reading 201, Reading 201, Reading 202]) = (Inr r, Some [])"
    using mint_leaves [OF scripted_party, of script_clock None, unfolded leaves_def,
      THEN spec, of "Some [Reading 201, Reading 201, Reading 202]"] by auto
  then show ?thesis
    by (auto simp: performs_def racing_handler winner_calls_def racing_up_to_store)
qed

lemma loser_performs: "performs script_platform scripted_provider racing_request loser_calls
    (Inl (invalid_grant ''authorization code already used''))"
  by (simp add: performs_def racing_handler loser_calls_def racing_up_to_store)

section \<open>The interleaving\<close>

definition racing_start :: "token_use_inner config" where
  "racing_start = \<lparr>cf_store = token_use_new, cf_now = 0, cf_left = (\<lambda>k. if k = 0 then winner_calls else loser_calls)\<rparr>"

definition racing_events :: "(nat \<times> call) list" where
  "racing_events = [(0, Lookup ''rp'' (Some public_client)), (1, Lookup ''rp'' (Some public_client)),
     (0, Reading 200), (1, Reading 200), (1, Reading 200), (0, Reading 200), (0, Reading 200), (1, Reading 201),
     (0, Use 200 shared_hash 500 (Inr True)), (1, Use 201 shared_hash 500 (Inr False)),
     (0, Reading 201), (0, Reading 201), (0, Reading 202)]"

lemma racing_runs:
  "\<exists>c'. runs mem_consume racing_start racing_events c' \<and> cf_left c' 0 = [] \<and> cf_left c' 1 = []"
proof -
  have "mem_consume 200 shared_hash 500 token_use_new =
      (Inr True, \<lparr>tu_poisoned = False, tu_entries = [shared_hash \<mapsto> 700], tu_next_purge = 260\<rparr>)"
    by (simp add: mem_consume_def token_use_new_def Let_def purge_def purge_interval_def retain_def)
  moreover have "mem_consume 201 shared_hash 500 \<lparr>tu_poisoned = False, tu_entries = [shared_hash \<mapsto> 700], tu_next_purge = 260\<rparr> =
      (Inr False, \<lparr>tu_poisoned = False, tu_entries = [shared_hash \<mapsto> 700], tu_next_purge = 260\<rparr>)"
    by (simp add: mem_consume_def Let_def purge_def)
  ultimately show ?thesis
    by (simp add: racing_events_def racing_start_def winner_calls_def loser_calls_def arriving_def runs_simps step_simps)
qed

text \<open>The two requests present one code, and neither straddles its expiry.\<close>

lemma racing_token:
  "token_expiry script_platform scripted_provider ''authorization_code'' minted_token = Some 700"
  "redeems ''authorization_code'' minted_token racing_request"
  "\<not> straddled 700 k racing_events"
proof -
  show "\<not> straddled 700 k racing_events" by (rule early_not_straddled) (simp add: racing_events_def)
qed (simp_all add: minted_opens minted_code_fields redeems_def racing_request_def code_form_def)

theorem overlapping_redemption_at_most_once_witness:
  "\<exists>c'. runs mem_consume racing_start racing_events c' \<and>
     (\<exists>r. performs script_platform scripted_provider racing_request (cf_left racing_start 0) (Inr r)) \<and>
     (\<exists>e. performs script_platform scripted_provider racing_request (cf_left racing_start 1) (Inl e))"
proof -
  obtain c' where c: "runs mem_consume racing_start racing_events c'" "cf_left c' 0 = []" "cf_left c' 1 = []"
    using racing_runs by blast
  obtain r where r: "performs script_platform scripted_provider racing_request winner_calls (Inr r)"
    using winner_performs by blast
  obtain x where x: "performs script_platform scripted_provider racing_request loser_calls x"
    using loser_performs by blast
  let ?res = "\<lambda>k :: nat. if k = 0 then Inr r else x"
  have l: "cf_left racing_start 0 = winner_calls" "cf_left racing_start 1 = loser_calls"
    by (simp_all add: racing_start_def)
  have "\<exists>e. ?res 1 = Inl e"
    by (rule overlapping_redemption_at_most_once [OF sample_scripted c(1) racing_token(1), where i = 0 and q = "\<lambda>_. racing_request" and r = r])
      (use c r l x racing_token in simp_all)
  then show ?thesis using c r l x by auto
qed

end
