(* ===== verification/Redis_Store.thy ===== *)
theory Redis_Store
  imports Concurrent_Run
begin

text \<open>
  \<^verbatim>\<open>RedisStore\<close> of \<^verbatim>\<open>src/provider.rs\<close> as the store of several processes: its configuration, and the one
  redemption of a code or refresh token when all the processes share one Redis server.
\<close>

section \<open>The store\<close>

text \<open>The connection of the store; the key prefix is its only state of its own.\<close>

record 'c redis_store =
  rs_conn :: 'c
  rs_key_prefix :: string

text \<open>\<open>open_client\<close> and \<open>lazy_manager\<close> are \<^verbatim>\<open>redis::Client::open\<close> and \<^verbatim>\<open>get_connection_manager_lazy\<close>.\<close>

definition redis_from_client :: "('cl \<Rightarrow> ('e, 'c) result) \<Rightarrow> 'cl \<Rightarrow> ('e, 'c redis_store) result" where
  "redis_from_client lazy_manager client =
     res_bind (lazy_manager client) (\<lambda>conn. Inr \<lparr>rs_conn = conn, rs_key_prefix = redis_default_key_prefix\<rparr>)"

definition redis_store_new ::
    "(string \<Rightarrow> ('e, 'cl) result) \<Rightarrow> ('cl \<Rightarrow> ('e, 'c) result) \<Rightarrow> string \<Rightarrow> ('e, 'c redis_store) result" where
  "redis_store_new open_client lazy_manager redis_url =
     res_bind (open_client redis_url) (redis_from_client lazy_manager)"

definition with_key_prefix :: "string \<Rightarrow> 'c redis_store \<Rightarrow> 'c redis_store" where
  "with_key_prefix key_prefix s = s\<lparr>rs_key_prefix := key_prefix\<rparr>"

section \<open>The server\<close>

text \<open>
  \<open>set now key ttl\<close> is the server's answer to \<^verbatim>\<open>SET key 1 EX ttl NX\<close> at second \<open>now\<close>, with its new state; the
  command may also fail.  What the store relies on is the documented meaning of \<^verbatim>\<open>EX\<close> and \<^verbatim>\<open>NX\<close>: a reply that says
  the key was set means that the server holds it for \<open>ttl\<close> seconds; a held key is not set again; and no command
  releases it before its time.  The processes and the server are assumed to read one clock that does not go backwards: the second of a
  command is the one the server read before it executed the command.
\<close>

definition says_set :: "redis_value \<Rightarrow> bool" where
  "says_set v = (case v of Okay \<Rightarrow> True | SimpleString s \<Rightarrow> eq_ignore_ascii_case s ''OK'' | _ \<Rightarrow> False)"

definition redis_honours ::
    "(u64 \<Rightarrow> string \<Rightarrow> u64 \<Rightarrow> ('s, string, redis_value) prog) \<Rightarrow> ('s \<Rightarrow> string \<Rightarrow> nat \<Rightarrow> bool) \<Rightarrow> bool" where
  "redis_honours set_ex_nx holds \<longleftrightarrow>
     (\<forall>now key ttl s v s'. set_ex_nx now key ttl s = (Inr v, s') \<longrightarrow> says_set v \<longrightarrow> 1 \<le> ttl \<longrightarrow> unat now + unat ttl < 2 ^ 64 \<longrightarrow>
        holds s' key (unat now + unat ttl)) \<and>
     (\<forall>now key ttl s v s' t. set_ex_nx now key ttl s = (Inr v, s') \<longrightarrow> holds s key t \<longrightarrow> unat now < t \<longrightarrow> \<not> says_set v) \<and>
     (\<forall>now key key' ttl s t. holds s key t \<longrightarrow> unat now < t \<longrightarrow> holds (snd (set_ex_nx now key' ttl s)) key t)"

text \<open>A call of \<^verbatim>\<open>RedisStore::consume\<close> at a time.\<close>

definition redis_at ::
    "(redis_value \<Rightarrow> string) \<Rightarrow> (u64 \<Rightarrow> string \<Rightarrow> u64 \<Rightarrow> ('s, string, redis_value) prog) \<Rightarrow> string \<Rightarrow> 's consumer" where
  "redis_at error_text set_ex_nx key_prefix now h ttl = redis_consume error_text (set_ex_nx now) key_prefix h ttl"

lemma redis_reply_True: "redis_reply error_text v = Inr True \<longleftrightarrow> says_set v"
  by (cases v) (auto simp: says_set_def)

lemma redis_at_True:
  "redis_at error_text set_ex_nx key_prefix now h ttl s = (Inr True, s') \<longleftrightarrow>
     (\<exists>v. set_ex_nx now (redis_key key_prefix h) (max ttl 1) s = (Inr v, s') \<and> says_set v)"
  by (auto simp: redis_at_def redis_consume_def bindP_ok liftR_ok redis_reply_True)

lemma redis_at_state:
  "snd (redis_at error_text set_ex_nx key_prefix now h ttl s) = snd (set_ex_nx now (redis_key key_prefix h) (max ttl 1) s)"
  by (auto simp: redis_at_def redis_consume_def bindP_def split: prod.splits sum.splits)

text \<open>So the Redis store keeps the contract of \<^verbatim>\<open>TokenUseStore\<close>, and everything shown of it.\<close>

lemma redis_contract:
  assumes "redis_honours set_ex_nx holds"
  shows "token_use_store (redis_at error_text set_ex_nx key_prefix) (\<lambda>s h t. holds s (redis_key key_prefix h) t)"
proof
  fix now ttl :: u64 and h s s'
  assume "redis_at error_text set_ex_nx key_prefix now h ttl s = (Inr True, s')" and d: "deadline now ttl < 2 ^ 64"
  then obtain v where "set_ex_nx now (redis_key key_prefix h) (max ttl 1) s = (Inr v, s')" "says_set v"
    by (auto simp: redis_at_True)
  moreover have "unat now + unat (max ttl 1) = deadline now ttl"
    unfolding deadline_def unat_max_one max.commute [of 1 "unat ttl"] ..
  moreover have "1 \<le> max ttl 1" by simp
  ultimately show "holds s' (redis_key key_prefix h) (deadline now ttl)"
    using assms d unfolding redis_honours_def by metis
next
  fix now ttl :: u64 and s h t
  assume "holds s (redis_key key_prefix h) t" "unat now < t"
  then show "fst (redis_at error_text set_ex_nx key_prefix now h ttl s) \<noteq> Inr True"
    using assms redis_at_True unfolding redis_honours_def by (metis prod.collapse)
next
  fix now ttl :: u64 and s h t h'
  assume "holds s (redis_key key_prefix h) t" "unat now < t"
  then show "holds (snd (redis_at error_text set_ex_nx key_prefix now h' ttl s)) (redis_key key_prefix h) t"
    using assms unfolding redis_honours_def redis_at_state by blast
qed

text \<open>
  C3.  Processes that share one Redis server redeem a code or refresh token at most once between them.  Any number of
  token requests run in any number of processes of one deployment, interleaved call by call; connections may break and
  replies may be anything, as long as the server keeps a key it reported as set for its lifetime (\<open>redis_honours\<close>),
  and all processes and the server read the same clock.
  Of two requests with the same token, when one obtained tokens the other was refused, unless one of them straddled the
  second the token expires in: it read the clock before that second and still had a call to make after someone read
  it at that second or later.
\<close>

theorem shared_redis_redeems_once:
  assumes "redis_honours set_ex_nx holds" and "scripted P p"
    and "runs (redis_at error_text set_ex_nx key_prefix) c es c'"
    and "token_expiry P p grant token = Some exp" and "unat exp < 2 ^ 63" and "i \<noteq> j"
    and "\<forall>k \<in> {i, j}. cf_left c' k = [] \<and> performs P p (q k) (cf_left c k) (res k) \<and> redeems grant token (q k) \<and>
      \<not> straddled exp k es"
    and "res i = Inr r"
  shows "\<exists>e. res j = Inl e"
  by (rule token_use_store.overlapping_redemption [OF redis_contract [OF assms(1)] assms(2-)])

section \<open>A run\<close>

text \<open>A server with a table of keys and the seconds they expire in, and the interleaving of \<open>Concurrent_Run\<close>.\<close>

definition table_set :: "u64 \<Rightarrow> string \<Rightarrow> u64 \<Rightarrow> (string \<rightharpoonup> nat, string, redis_value) prog" where
  "table_set now key ttl m =
     (if (case m key of Some t \<Rightarrow> unat now < t | None \<Rightarrow> False) then (Inr Nil_reply, m)
      else (Inr Okay, m(key \<mapsto> unat now + unat ttl)))"

lemma table_honours: "redis_honours table_set (\<lambda>m key t. \<exists>e. m key = Some e \<and> t \<le> e)"
  unfolding redis_honours_def table_set_def says_set_def by (auto split: option.splits if_splits)

definition redis_start :: "(string \<rightharpoonup> nat) config" where
  "redis_start = \<lparr>cf_store = Map.empty, cf_now = 0, cf_left = (\<lambda>k. if k = 0 then winner_calls else loser_calls)\<rparr>"

lemma redis_runs:
  "\<exists>c'. runs (redis_at error_text table_set key_prefix) redis_start racing_events c' \<and> cf_left c' 0 = [] \<and> cf_left c' 1 = []"
proof -
  let ?k = "redis_key key_prefix shared_hash"
  have "redis_at error_text table_set key_prefix 200 shared_hash 500 Map.empty = (Inr True, [?k \<mapsto> 700])"
    by (simp add: redis_at_def redis_consume_def table_set_def bindP_def liftR_def max_def word_le_nat_alt)
  moreover have "redis_at error_text table_set key_prefix 201 shared_hash 500 [?k \<mapsto> 700] = (Inr False, [?k \<mapsto> 700])"
    by (simp add: redis_at_def redis_consume_def table_set_def bindP_def liftR_def)
  ultimately show ?thesis
    by (simp add: racing_events_def redis_start_def winner_calls_def loser_calls_def arriving_def runs_simps step_simps)
qed

theorem shared_redis_redeems_once_witness:
  "\<exists>c'. runs (redis_at (\<lambda>_. ''reply'') table_set redis_default_key_prefix) redis_start racing_events c' \<and>
     (\<exists>r. performs script_platform scripted_provider racing_request (cf_left redis_start 0) (Inr r)) \<and>
     (\<exists>e. performs script_platform scripted_provider racing_request (cf_left redis_start 1) (Inl e))"
proof -
  obtain c' where c: "runs (redis_at (\<lambda>_. ''reply'') table_set redis_default_key_prefix) redis_start racing_events c'"
      "cf_left c' 0 = []" "cf_left c' 1 = []"
    using redis_runs by blast
  obtain r x where r: "performs script_platform scripted_provider racing_request winner_calls (Inr r)"
      and x: "performs script_platform scripted_provider racing_request loser_calls x"
    using winner_performs loser_performs by blast
  let ?res = "\<lambda>k :: nat. if k = 0 then Inr r else x"
  have "\<exists>e. ?res 1 = Inl e"
    by (rule shared_redis_redeems_once [OF table_honours sample_scripted c(1) racing_token(1), where i = 0 and q = "\<lambda>_. racing_request" and r = r])
      (use c r x racing_token in \<open>simp_all add: redis_start_def\<close>)
  then show ?thesis using c r x by (auto simp: redis_start_def)
qed

end
