(* ===== verification/Released_Claims.thy ===== *)
theory Released_Claims
  imports Token_Endpoint
begin

text \<open>
  The claims a provider releases, as data: from the host's \<^verbatim>\<open>BTreeMap\<close>s through codes, tokens and refreshes they
  stay well-formed \<^verbatim>\<open>BTreeMap<String, Value>\<close>s, which is what the JSON round trips of \<open>Tokens\<close> need, and every
  claim in them has a named origin.
\<close>

section \<open>Normal maps\<close>

lemma bt_insert_front: "\<forall>k' \<in> set (List.map fst m). k < k' \<Longrightarrow> bt_insert k v m = (k, v) # m"
  by (cases m) auto

lemma bt_ok_fold: "bt_ok (foldr (\<lambda>(k, v). bt_insert k (f v)) m [])"
  by (induction m) (auto intro: bt_ok_insert)

lemma fold_sorted:
  "bt_ok m \<Longrightarrow> foldr (\<lambda>(k, v). bt_insert k (f v)) m [] = List.map (\<lambda>(k, v). (k, f v)) m"
proof (induction m)
  case (Cons a m)
  then have "foldr (\<lambda>(k, v). bt_insert k (f v)) m [] = List.map (\<lambda>(k, v). (k, f v)) m"
    by (simp add: bt_ok_def)
  moreover have "\<forall>k' \<in> set (List.map fst (List.map (\<lambda>(k, v). (k, f v)) m)). fst a < k'"
    using Cons.prems by (auto simp: bt_ok_def)
  ultimately show ?case by (cases a) (simp add: bt_insert_front)
qed simp

text \<open>A claims map is normal iff its keys are in order and its values are normal.\<close>

lemma claims_normal_iff: "claims_normal m \<longleftrightarrow> bt_ok m \<and> (\<forall>kv \<in> set m. json_norm (snd kv) = snd kv)"
proof
  assume n: "claims_normal m"
  then have f: "foldr (\<lambda>(k, v). bt_insert k (json_norm v)) m [] = m" by (simp add: claims_normal_def)
  have b: "bt_ok m" using bt_ok_fold [of json_norm m] unfolding f .
  have "List.map (\<lambda>(k, v). (k, json_norm v)) m = m" using f fold_sorted [OF b, of json_norm] by simp
  then have "List.map (\<lambda>(k, v). (k, json_norm v)) m = List.map (\<lambda>kv. kv) m" by simp
  then have "\<forall>kv \<in> set m. (\<lambda>(k, v). (k, json_norm v)) kv = kv" unfolding map_eq_conv .
  with b show "bt_ok m \<and> (\<forall>kv \<in> set m. json_norm (snd kv) = snd kv)" by (auto simp: prod_eq_iff case_prod_beta)
next
  assume "bt_ok m \<and> (\<forall>kv \<in> set m. json_norm (snd kv) = snd kv)"
  then show "claims_normal m"
    by (simp add: claims_normal_def fold_sorted) (rule map_idI, auto)
qed

lemma set_bt_insert: "set (bt_insert k v m) \<subseteq> insert (k, v) (set m)"
  by (induction k v m rule: bt_insert.induct) auto

named_theorems normal_intros \<open>operations that keep a claims map normal\<close>

lemma normal_nil [normal_intros]: "claims_normal []"
  by (simp add: claims_normal_iff)

lemma normal_insert [normal_intros]: "claims_normal m \<Longrightarrow> json_norm v = v \<Longrightarrow> claims_normal (bt_insert k v m)"
  using set_bt_insert [of k v m] by (auto simp: claims_normal_iff bt_ok_insert)

lemma normal_opt_insert [normal_intros]:
  "claims_normal m \<Longrightarrow> (\<And>j. v = Some j \<Longrightarrow> json_norm j = j) \<Longrightarrow> claims_normal (opt_insert k v m)"
  by (auto simp: opt_insert_def normal_intros split: option.splits)

lemma normal_filter [normal_intros]: "claims_normal m \<Longrightarrow> claims_normal (filter_claims scope m)"
  by (simp add: claims_normal_iff filter_claims_def bt_ok_filter)

lemma normal_flatten_value: "json_norm (flatten_value k v) = flatten_value k v"
proof -
  have "json_norm j = j" if "coerce_standard_claim k x = Some j" for x j
    using that by (auto simp: coerce_standard_claim_def Let_def split: if_splits option.splits)
  then show ?thesis by (auto simp: flatten_value_def o_def split: list.splits option.splits)
qed

lemma normal_flatten [normal_intros]: "bt_ok ext \<Longrightarrow> claims_normal (flatten_claims ext)"
  by (auto simp: claims_normal_iff flatten_claims_def bt_ok_def normal_flatten_value o_def case_prod_beta)

lemma claims_normal_Cons: "claims_normal ((k, v) # m) \<Longrightarrow> json_norm v = v \<and> claims_normal m"
  by (auto simp: claims_normal_iff bt_ok_def)

lemma normal_insert_asserted [normal_intros]:
  "claims_normal extra \<Longrightarrow> claims_normal claims \<Longrightarrow> claims_normal (insert_asserted scope claims extra)"
proof (induction scope claims extra rule: insert_asserted.induct)
  case (2 scope claims k v extra)
  note n = claims_normal_Cons [OF 2(2)]
  show ?case using 2 n normal_insert [of claims v k] by simp
qed simp

lemma normal_insert_released [normal_intros]:
  "claims_normal claims \<Longrightarrow> claims_normal extra \<Longrightarrow> claims_normal (insert_released extra claims)"
proof (induction extra claims rule: insert_released.induct)
  case (2 extra k v claims)
  note n = claims_normal_Cons [OF 2(2)]
  show ?case using 2 n normal_insert [of extra v k] by simp
qed simp

lemma normal_fold_insert [normal_intros]:
  "claims_normal m \<Longrightarrow> claims_normal b \<Longrightarrow> claims_normal (foldl (\<lambda>b (k, v). bt_insert k v b) b m)"
proof (induction m arbitrary: b)
  case (Cons a m)
  note n = claims_normal_Cons [of "fst a" "snd a" m]
  from Cons.prems n have "claims_normal (bt_insert (fst a) (snd a) b)" "claims_normal m" by (auto intro: normal_insert)
  then show ?case using Cons.IH by (simp add: case_prod_beta)
qed simp

section \<open>Where a released claim comes from\<close>

lemma map_of_flatten: "map_of (flatten_claims ext) k = map_option (flatten_value k) (map_of ext k)"
  by (induction ext) (auto simp: flatten_claims_def)

lemma map_of_filter_claims: "map_of (filter_claims scope m) k = (if claim_allowed_by_scope scope k then map_of m k else None)"
  by (induction m) (auto simp: filter_claims_def)

lemma map_of_insert_asserted:
  "distinct (List.map fst extra) \<Longrightarrow> map_of (insert_asserted scope claims extra) k =
     (if is_reserved_id_token_claim k \<or> \<not> claim_allowed_by_scope scope k \<or> map_of extra k = None then map_of claims k
      else map_of extra k)"
proof (induction scope claims extra rule: insert_asserted.induct)
  case (2 scope claims ka v extra)
  have "map_of extra ka = None" using "2.prems" by (simp add: map_of_eq_None_iff)
  with 2 show ?case by auto
qed simp

lemma released_normal [normal_intros]:
  "bt_ok ext \<Longrightarrow> claims_normal extra \<Longrightarrow> claims_normal (released_claims scope ext extra)"
  unfolding released_claims_def by (intro normal_intros)

text \<open>
  C14.  What a provider releases is well-formed and has an origin.  From the host's attributes and asserted claims the
  released claims, the extra claims of the ID token that carries them and what a refresh keeps of them are
  maps in key order with values in normal form, as the token codec needs to read them back.  A
  claim is released only if the granted scope allows it; its value is the one the host asserted, or for a
  claim that is reserved or not asserted the flattened attribute.
\<close>

theorem released_claims_typed:
  assumes "bt_ok ext" and "claims_normal extra" and "rel = released_claims scope ext extra"
  shows "claims_normal rel \<and>
    claims_normal (c_extra (id_token_claims p now cid sub nonce rel acr auth_time c_hash at_hash)) \<and>
    claims_normal (filter_claims narrower rel) \<and>
    map_of rel k =
      (if \<not> claim_allowed_by_scope scope k then None
       else if is_reserved_id_token_claim k \<or> map_of extra k = None then map_option (flatten_value k) (map_of ext k)
       else map_of extra k)"
proof (intro conjI)
  show rel: "claims_normal rel"
    unfolding assms(3) by (intro normal_intros assms(1,2))
  then show "claims_normal (filter_claims narrower rel)" by (intro normal_intros)
  show "claims_normal (c_extra (id_token_claims p now cid sub nonce rel acr auth_time c_hash at_hash))"
    unfolding id_token_claims_def by (simp, intro normal_intros rel) auto
  have "distinct (List.map fst extra)" using assms(2) by (simp add: claims_normal_iff bt_ok_distinct)
  then show "map_of rel k = (if \<not> claim_allowed_by_scope scope k then None
       else if is_reserved_id_token_claim k \<or> map_of extra k = None then map_option (flatten_value k) (map_of ext k)
       else map_of extra k)"
    by (cases "map_of extra k") (simp_all add: assms(3) released_claims_def map_of_insert_asserted map_of_filter_claims map_of_flatten
        del: map_of_eq_None_iff)
qed

text \<open>An asserted \<^verbatim>\<open>sub\<close> is not released, an asserted address needs its scope, a flag becomes a boolean.\<close>

theorem released_claims_typed_witness:
  "map_of (released_claims ''openid email'' [(''email_verified'', [''Yes''])]
     [(''address'', JString ''x''), (''email'', JString ''a''), (''sub'', JString ''mallory'')]) ''email_verified'' = Some (JBool True)"
proof -
  let ?ext = "[(''email_verified'', [''Yes''])]"
  let ?extra = "[(''address'', JString ''x''), (''email'', JString ''a''), (''sub'', JString ''mallory'')]"
  have e: "bt_ok ?ext" "claims_normal ?extra"
    by (simp_all add: claims_normal_iff bt_ok_def less_list_code less_char_def)
  have "claim_allowed_by_scope ''openid email'' ''email_verified''" "flatten_value ''email_verified'' [''Yes''] = JBool True"
    by code_simp+
  with released_claims_typed [OF e refl, of "''openid email''" sample_provider _ _ _ _ _ _ _ _ _ "''email_verified''"] show ?thesis by simp
qed

end
