(* ===== verification/Refresh_Chain.thy ===== *)
theory Refresh_Chain
  imports Example_Run Released_Claims
begin

text \<open>
  Chains of refreshes: a refresh token, the one the token endpoint rotated it to, and so on, each the answer of a run
  of \<^verbatim>\<open>handle_refresh_token\<close> of \<^verbatim>\<open>src/provider.rs\<close> to the one before.
\<close>

section \<open>Chains\<close>

inductive refreshes :: "'w platform \<Rightarrow> 'w provider \<Rightarrow> string \<Rightarrow> string \<Rightarrow> bool" for P p token where
  refreshes_start: "refreshes P p token token"
| refreshes_step: "refreshes P p token token1 \<Longrightarrow> handle_refresh_token P p form hdr url dpop w = (Inr r, w') \<Longrightarrow>
    map_of form ''refresh_token'' = Some token1 \<Longrightarrow> tr_refresh_token r = Some token2 \<Longrightarrow> refreshes P p token token2"

abbreviation opens_refresh :: "'w platform \<Rightarrow> 'w provider \<Rightarrow> string \<Rightarrow> refresh_token_payload \<Rightarrow> bool" where
  "opens_refresh P p token rt \<equiv>
     token_open P (pv_codec p) ''RefreshTokenPayload'' refresh_from_json TYP_REFRESH token = Inr rt"

abbreviation opens_access :: "'w platform \<Rightarrow> 'w provider \<Rightarrow> string \<Rightarrow> access_token_payload \<Rightarrow> bool" where
  "opens_access P p token at \<equiv>
     token_open P (pv_codec p) ''AccessTokenPayload'' access_from_json TYP_ACCESS token = Inr at"

text \<open>\<^verbatim>\<open>serde_json\<close> reads back every text it wrote.\<close>

definition json_faithful :: "'w platform \<Rightarrow> bool" where
  "json_faithful P \<longleftrightarrow> (\<forall>v t. json_to_vec P v = Inr t \<longrightarrow> json_from_slice P t = Inr (json_norm v))"

lemma sealed_opens:
  assumes "token_seal P c ty v w = (Inr tok, w')" and "aead_sound P" and "json_faithful P" and "tc_keys c \<noteq> []"
    and "from_json (json_norm v) = Some x"
  shows "token_open P c n from_json ty tok = Inr x"
proof -
  obtain t where "json_to_vec P (sealed_envelope ty v) = Inr t" using assms(1) by (auto simp: token_seal_def prog_ok)
  with assms(3) have "json_trip P (sealed_envelope ty v)" by (auto simp: json_faithful_def json_trip_def)
  moreover have "hd (tc_keys c) \<in> set (tc_keys c)" using assms(4) by simp
  ultimately show ?thesis using open_sealed_own [where from_json = from_json, OF assms(1,2)] assms(5) by simp
qed

text \<open>
  \<open>grant_within rt' rt\<close>: the grant of \<open>rt'\<close> is no wider than that of \<open>rt\<close>: same client and authentication, scopes and claims among
  those of \<open>rt\<close>, and the same DPoP key once there is one.
\<close>

definition grant_within :: "refresh_token_payload \<Rightarrow> refresh_token_payload \<Rightarrow> bool" where
  "grant_within rt' rt \<longleftrightarrow> rt_client_id rt' = rt_client_id rt \<and> rt_sub rt' = rt_sub rt \<and> rt_nonce rt' = rt_nonce rt \<and>
     rt_auth_time rt' = rt_auth_time rt \<and> rt_acr rt' = rt_acr rt \<and>
     set (split_whitespace (rt_scope rt')) \<subseteq> set (split_whitespace (rt_scope rt)) \<and>
     (\<forall>k v. map_of (rt_claims rt') k = Some v \<longrightarrow> map_of (rt_claims rt) k = Some v) \<and>
     (\<forall>j. rt_cnf_jkt rt = Some j \<longrightarrow> rt_cnf_jkt rt' = Some j)"

lemma grant_within_refl: "grant_within rt rt"
  by (simp add: grant_within_def)

lemma grant_within_trans: "grant_within rt2 rt1 \<Longrightarrow> grant_within rt1 rt \<Longrightarrow> grant_within rt2 rt"
  by (auto simp: grant_within_def)

text \<open>One run of the handler: the tokens it answers open to payloads within those of the token presented.\<close>

lemma refresh_answers:
  assumes h: "handle_refresh_token P p form hdr url dpop w = (Inr r, w')" and f: "map_of form ''refresh_token'' = Some token"
    and o: "opens_refresh P p token rt" and n: "claims_normal (rt_claims rt)"
    and c: "aead_sound P" "json_faithful P" "tc_keys (pv_codec p) \<noteq> []"
  shows "\<exists>client w1 rt' at. authenticate_client_map P p form hdr url w = (Inr client, w1) \<and> cl_client_id client = rt_client_id rt \<and>
    tr_refresh_token r \<noteq> None \<and> opens_refresh P p (the (tr_refresh_token r)) rt' \<and> claims_normal (rt_claims rt') \<and>
    grant_within rt' rt \<and> (\<forall>k v. map_of (rt_claims rt') k = Some v \<longrightarrow> claim_allowed_by_scope (rt_scope rt') k) \<and>
    opens_access P p (tr_access_token r) at \<and> at_client_id at = rt_client_id rt' \<and> at_sub at = rt_sub rt' \<and>
    at_scope at = rt_scope rt' \<and> at_claims at = rt_claims rt' \<and> at_cnf_jkt at = rt_cnf_jkt rt'"
proof -
  obtain client tok rt0 rt' now w1 w2 w3 w4 w5 w6 where a: "authenticate_client_map P p form hdr url w = (Inr client, w1)"
      "map_of form ''refresh_token'' = Some tok" "open_refresh_token P (pv_codec p) tok w1 = (Inr rt0, w2)"
      and s: "rt_client_id rt0 = cl_client_id client" "refresh_confirmation rt0 dpop = Inr (rt_cnf_jkt rt')"
        "refresh_scope rt0 form = Inr (rt_scope rt')"
        "rt' = rotated_refresh_payload p client rt0 (rt_scope rt') (filter_claims (rt_scope rt') (rt_claims rt0)) (rt_cnf_jkt rt') now"
      and m: "seal_access_token P (pv_codec p)
        \<lparr>at_client_id = rt_client_id rt0, at_sub = rt_sub rt0, at_scope = rt_scope rt', at_claims = rt_claims rt',
         at_exp = now + access_token_ttl (pv_lifetimes p), at_cnf_jkt = rt_cnf_jkt rt'\<rparr> w4 = (Inr (tr_access_token r), w5)"
        "seal_refresh_token P (pv_codec p) rt' w6 = (Inr (the (tr_refresh_token r)), w')" "tr_refresh_token r \<noteq> None"
    using refresh_rotates [OF h] by blast
  have rt0: "rt0 = rt" using a(2,3) f o by (auto simp: open_refresh_token_def prog_ok)
  note nar = rotation_narrows [OF s(2,3,1,4), unfolded rt0]
  have "rt_claims rt' = filter_claims (rt_scope rt') (rt_claims rt)"
    using s(4) rt0 unfolding rotated_refresh_payload_def by (metis refresh_token_payload.select_convs(5))
  with n have n': "claims_normal (rt_claims rt')" by (simp add: normal_filter)
  have "opens_refresh P p (the (tr_refresh_token r)) rt'"
    by (rule sealed_opens [OF m(2) [unfolded seal_refresh_token_def] c]) (rule refresh_json_roundtrip [OF n'])
  moreover have "opens_access P p (tr_access_token r)
      \<lparr>at_client_id = rt_client_id rt0, at_sub = rt_sub rt0, at_scope = rt_scope rt', at_claims = rt_claims rt',
       at_exp = now + access_token_ttl (pv_lifetimes p), at_cnf_jkt = rt_cnf_jkt rt'\<rparr>"
    by (rule sealed_opens [OF m(1) [unfolded seal_access_token_def] c], rule access_json_roundtrip) (simp add: n')
  moreover have "grant_within rt' rt" "\<forall>k v. map_of (rt_claims rt') k = Some v \<longrightarrow> claim_allowed_by_scope (rt_scope rt') k"
    using nar by (auto simp: grant_within_def)
  ultimately show ?thesis using a(1) s(1) m(3) n' nar unfolding rt0
    by (intro exI [of _ client] exI [of _ w1] exI [of _ rt'] exI conjI) (assumption | simp)+
qed

text \<open>
  C18.  However often a refresh token is rotated by the token endpoint, with whatever clients, requested scopes and
  proofs, the grant only shrinks: the last token of the chain opens to a payload whose client, subject, nonce,
  authentication time and context are those of the first, whose scopes are a subset of the first ones, whose claims are
  claims of the first with the same value, and which stays bound to a DPoP key once bound.  Any access token issued
  for it goes to that client only, after it authenticated, and opens to the same subject, scopes within
  the first ones, claims of the first that those scopes allow, and the same key binding.
  Assumed are sound authenticated encryption and JSON that reads back as it was written.
\<close>

theorem refresh_chain_never_widens:
  assumes "refreshes P p token token'" and "opens_refresh P p token rt" and "claims_normal (rt_claims rt)"
    and "aead_sound P" and "json_faithful P" and "tc_keys (pv_codec p) \<noteq> []"
  shows "(\<exists>rt'. opens_refresh P p token' rt' \<and> grant_within rt' rt) \<and>
    (\<forall>form hdr url dpop w r w'. handle_refresh_token P p form hdr url dpop w = (Inr r, w') \<longrightarrow>
      map_of form ''refresh_token'' = Some token' \<longrightarrow>
      (\<exists>client w1 at. authenticate_client_map P p form hdr url w = (Inr client, w1) \<and> cl_client_id client = rt_client_id rt \<and>
        opens_access P p (tr_access_token r) at \<and> at_client_id at = rt_client_id rt \<and> at_sub at = rt_sub rt \<and>
        set (split_whitespace (at_scope at)) \<subseteq> set (split_whitespace (rt_scope rt)) \<and>
        (\<forall>k v. map_of (at_claims at) k = Some v \<longrightarrow>
           map_of (rt_claims rt) k = Some v \<and> claim_allowed_by_scope (at_scope at) k) \<and>
        (\<forall>j. rt_cnf_jkt rt = Some j \<longrightarrow> at_cnf_jkt at = Some j)))"
proof -
  note c = assms(4-6)
  have "\<exists>rt'. opens_refresh P p token' rt' \<and> claims_normal (rt_claims rt') \<and> grant_within rt' rt" using assms(1)
  proof (induction rule: refreshes.induct)
    case refreshes_start
    then show ?case using assms(2,3) grant_within_refl by blast
  next
    case (refreshes_step token1 form hdr url dpop w r w' token2)
    from refreshes_step.IH obtain rt1 where o: "opens_refresh P p token1 rt1" "claims_normal (rt_claims rt1)" "grant_within rt1 rt" by blast
    obtain rt' where "opens_refresh P p (the (tr_refresh_token r)) rt'" "claims_normal (rt_claims rt')" "grant_within rt' rt1"
      using refresh_answers [OF refreshes_step.hyps(2,3) o(1,2) c] by blast
    then show ?case using refreshes_step.hyps(4) grant_within_trans [OF _ o(3)] by auto
  qed
  then obtain rt' where o: "opens_refresh P p token' rt'" "claims_normal (rt_claims rt')" "grant_within rt' rt" by blast
  have "\<exists>client w1 at. authenticate_client_map P p form hdr url w = (Inr client, w1) \<and> cl_client_id client = rt_client_id rt \<and>
        opens_access P p (tr_access_token r) at \<and> at_client_id at = rt_client_id rt \<and> at_sub at = rt_sub rt \<and>
        set (split_whitespace (at_scope at)) \<subseteq> set (split_whitespace (rt_scope rt)) \<and>
        (\<forall>k v. map_of (at_claims at) k = Some v \<longrightarrow>
           map_of (rt_claims rt) k = Some v \<and> claim_allowed_by_scope (at_scope at) k) \<and>
        (\<forall>j. rt_cnf_jkt rt = Some j \<longrightarrow> at_cnf_jkt at = Some j)"
    if h: "handle_refresh_token P p form hdr url dpop w = (Inr r, w')" "map_of form ''refresh_token'' = Some token'"
    for form hdr url dpop w r w'
  proof -
    obtain client w1 rt2 at where a: "authenticate_client_map P p form hdr url w = (Inr client, w1)"
        "cl_client_id client = rt_client_id rt'" "opens_access P p (tr_access_token r) at" "grant_within rt2 rt'"
      and t: "\<forall>k v. map_of (rt_claims rt2) k = Some v \<longrightarrow> claim_allowed_by_scope (rt_scope rt2) k"
        "at_client_id at = rt_client_id rt2" "at_sub at = rt_sub rt2" "at_scope at = rt_scope rt2" "at_claims at = rt_claims rt2"
        "at_cnf_jkt at = rt_cnf_jkt rt2"
      using refresh_answers [OF h o(1,2) c] by blast
    have "grant_within rt2 rt" by (rule grant_within_trans [OF a(4) o(3)])
    with a(1-3) t o(3) show ?thesis by (auto simp: grant_within_def)
  qed
  with o show ?thesis by blast
qed

section \<open>A chain\<close>

text \<open>The refresh token of \<open>Example_Run\<close> is rotated, and the rotated one is within it.\<close>

theorem refresh_chain_never_widens_witness:
  "\<exists>token' rt'. refreshes refresh_platform sample_provider minted_token token' \<and>
     opens_refresh refresh_platform sample_provider token' rt' \<and> rt_sub rt' = ''alice''"
proof -
  obtain r w' where h: "handle_refresh_token refresh_platform sample_provider refresh_form None ''u'' None
      (fresh_world [95] [public_client]) = (Inr r, w')"
    using refresh_at [of 95 "''u''"] by auto
  have f: "map_of refresh_form ''refresh_token'' = Some minted_token" by (simp add: refresh_form_def)
  obtain token' where t: "tr_refresh_token r = Some token'" using refresh_rotates [OF h] by auto
  have chain: "refreshes refresh_platform sample_provider minted_token token'"
    by (rule refreshes_step [OF refreshes_start h f t])
  have p: "aead_sound refresh_platform" "json_faithful refresh_platform" "tc_keys (pv_codec sample_provider) \<noteq> []"
    by (auto simp: aead_sound_def json_faithful_def refresh_platform_def sample_platform_def sample_codec)
  have n: "claims_normal (rt_claims sample_refresh)" by (simp add: sample_refresh_def)
  from refresh_chain_never_widens [OF chain refresh_opens n p] chain show ?thesis
    unfolding grant_within_def by (auto simp: sample_refresh_def)
qed

end
