(* ===== verification/Ip_Address.thy ===== *)
theory Ip_Address
  imports Rust_Strings
begin

text \<open>
  \<^verbatim>\<open>std::net::IpAddr\<close>, as far as \<^verbatim>\<open>is_loopback_host\<close> of \<^verbatim>\<open>src/rp.rs\<close> uses it: the parser of the
  standard library for IPv4 and IPv6 text forms, and \<^verbatim>\<open>is_loopback\<close>.  A reader returns its value and
  the rest of the input, or \<open>None\<close> and leaves the input where it was.
\<close>

datatype ip_addr = V4 "int list" | V6 "int list"

definition to_digit :: "int \<Rightarrow> char \<Rightarrow> int option" where
  "to_digit radix c =
     (let n = of_char c :: int;
          d = (if 48 \<le> n \<and> n \<le> 57 then n - 48
               else if 97 \<le> n \<and> n \<le> 122 then n - 87
               else if 65 \<le> n \<and> n \<le> 90 then n - 55
               else radix)
      in if d < radix then Some d else None)"

definition read_number :: "int \<Rightarrow> nat \<Rightarrow> bool \<Rightarrow> int \<Rightarrow> string \<Rightarrow> (int \<times> string) option" where
  "read_number radix max_digits allow_zero_prefix limit s =
     (let ds = takeWhile (\<lambda>c. to_digit radix c \<noteq> None) s;
          n = foldl (\<lambda>acc c. acc * radix + the (to_digit radix c)) 0 ds
      in if ds = [] \<or> max_digits < length ds then None
         else if \<not> allow_zero_prefix \<and> hd ds = CHR ''0'' \<and> 1 < length ds then None
         else if n \<le> limit then Some (n, drop (length ds) s) else None)"

fun read_separator :: "char \<Rightarrow> bool \<Rightarrow> (string \<Rightarrow> ('a \<times> string) option) \<Rightarrow> string \<Rightarrow> ('a \<times> string) option" where
  "read_separator sep True inner s = inner s"
| "read_separator sep False inner [] = None"
| "read_separator sep False inner (c # s) = (if c = sep then inner s else None)"

fun read_octets :: "nat \<Rightarrow> bool \<Rightarrow> string \<Rightarrow> (int list \<times> string) option" where
  "read_octets 0 first s = Some ([], s)"
| "read_octets (Suc k) first s =
     Option.bind (read_separator (CHR ''.'') first (read_number 10 3 False 255) s) (\<lambda>(n, s').
     Option.bind (read_octets k False s') (\<lambda>(ns, s''). Some (n # ns, s'')))"

definition read_ipv4_addr :: "string \<Rightarrow> (int list \<times> string) option" where
  "read_ipv4_addr s = read_octets 4 True s"

text \<open>Up to \<open>k\<close> groups; an embedded IPv4 address fills two of them and ends the list.\<close>

fun read_groups :: "nat \<Rightarrow> bool \<Rightarrow> string \<Rightarrow> (int list \<times> bool) \<times> string" where
  "read_groups 0 first s = (([], False), s)"
| "read_groups (Suc k) first s =
     (case (if 0 < k then read_separator (CHR '':'') first read_ipv4_addr s else None) of
        Some (o4, s') \<Rightarrow> (([o4 ! 0 * 256 + o4 ! 1, o4 ! 2 * 256 + o4 ! 3], True), s')
      | None \<Rightarrow>
          (case read_separator (CHR '':'') first (read_number 16 4 True 65535) s of
             Some (g, s') \<Rightarrow>
               (case read_groups k False s' of ((gs, v4), s'') \<Rightarrow> ((g # gs, v4), s''))
           | None \<Rightarrow> (([], False), s)))"

definition read_ipv6_addr :: "string \<Rightarrow> (int list \<times> string) option" where
  "read_ipv6_addr s =
     (case read_groups 8 True s of ((head, head_ipv4), s1) \<Rightarrow>
        if length head = 8 then Some (head, s1)
        else if head_ipv4 then None
        else Option.bind (strip_prefix ''::'' s1) (\<lambda>s2.
          case read_groups (8 - (length head + 1)) True s2 of ((tail, _), s3) \<Rightarrow>
            Some (head @ replicate (8 - (length head + length tail)) 0 @ tail, s3)))"

definition parse_ip :: "string \<Rightarrow> ip_addr option" where
  "parse_ip s =
     (case (case read_ipv4_addr s of
              Some (a, r) \<Rightarrow> Some (V4 a, r)
            | None \<Rightarrow> map_option (\<lambda>(a, r). (V6 a, r)) (read_ipv6_addr s)) of
        Some (a, r) \<Rightarrow> if r = [] then Some a else None
      | None \<Rightarrow> None)"

fun is_loopback :: "ip_addr \<Rightarrow> bool" where
  "is_loopback (V4 a) \<longleftrightarrow> hd a = 127"
| "is_loopback (V6 a) \<longleftrightarrow> a = [0, 0, 0, 0, 0, 0, 0, 1]"

section \<open>Dotted quads\<close>

lemma octet_text:
  "list_all (\<lambda>n. takeWhile (\<lambda>c. to_digit 10 c \<noteq> None) (dec_str n) = dec_str n \<and> length (dec_str n) \<le> 3 \<and>
     (hd (dec_str n) = CHR ''0'' \<longrightarrow> length (dec_str n) = 1) \<and>
     foldl (\<lambda>acc c. acc * 10 + the (to_digit 10 c)) 0 (dec_str n) = n) [0..255]"
  by code_simp

lemma takeWhile_stop: "takeWhile p xs = xs \<Longrightarrow> \<not> p y \<Longrightarrow> takeWhile p (xs @ y # ys) = xs"
  by (metis takeWhile_eq_all_conv takeWhile_tail)

lemma read_octet:
  assumes "0 \<le> n" and "n \<le> 255" and "r = [] \<or> hd r = CHR ''.''"
  shows "read_number 10 3 False 255 (dec_str n @ r) = Some (n, r)"
proof -
  have f: "takeWhile (\<lambda>c. to_digit 10 c \<noteq> None) (dec_str n) = dec_str n" "length (dec_str n) \<le> 3"
      "hd (dec_str n) = CHR ''0'' \<longrightarrow> length (dec_str n) = 1"
      "foldl (\<lambda>acc c. acc * 10 + the (to_digit 10 c)) 0 (dec_str n) = n"
    using octet_text assms(1,2) by (auto simp: list_all_iff)
  have "to_digit 10 (CHR ''.'') = None" by (simp add: to_digit_def)
  with assms(3) f(1) have "takeWhile (\<lambda>c. to_digit 10 c \<noteq> None) (dec_str n @ r) = dec_str n"
    by (cases r) (simp_all add: takeWhile_stop)
  with f(2-4) assms(2) show ?thesis by (auto simp: read_number_def Let_def)
qed

definition octet :: "int \<Rightarrow> bool" where
  "octet n \<longleftrightarrow> 0 \<le> n \<and> n \<le> 255"

lemma parse_dotted_quad:
  assumes "list_all octet [a, b, c, d]"
  shows "parse_ip (join ''.'' (List.map dec_str [a, b, c, d])) = Some (V4 [a, b, c, d])"
proof -
  have o: "0 \<le> a" "a \<le> 255" "0 \<le> b" "b \<le> 255" "0 \<le> c" "c \<le> 255" "0 \<le> d" "d \<le> 255"
    using assms by (simp_all add: octet_def)
  have four: "(4 :: nat) = Suc (Suc (Suc (Suc 0)))" by simp
  have "read_ipv4_addr (dec_str a @ CHR ''.'' # dec_str b @ CHR ''.'' # dec_str c @ CHR ''.'' # dec_str d)
      = Some ([a, b, c, d], [])"
    using read_octet [OF o(7,8), of "[]"]
    by (simp add: read_ipv4_addr_def four read_octet o)
  then show ?thesis by (simp add: parse_ip_def)
qed

end
