(* ===== verification/Endpoints.thy ===== *)
theory Endpoints
  imports Metadata Pkce Ip_Address
begin

text \<open>
  \<^verbatim>\<open>src/rp.rs\<close>, first part: what a relying party knows of its provider, the validation of every URL
  before a request or a credential is sent to it, and the authorization request URL.
\<close>

section \<open>Configuration\<close>

record provider_info =
  pi_issuer :: string
  pi_authorization_endpoint :: string
  pi_token_endpoint :: string
  pi_userinfo_endpoint :: "string option"
  pi_jwks_uri :: "string option"

definition provider_info_from :: "provider_metadata \<Rightarrow> provider_info" where
  "provider_info_from m =
     \<lparr>pi_issuer = md_issuer m, pi_authorization_endpoint = md_authorization_endpoint m,
      pi_token_endpoint = md_token_endpoint m, pi_userinfo_endpoint = md_userinfo_endpoint m,
      pi_jwks_uri = Some (md_jwks_uri m)\<rparr>"

definition require_userinfo_endpoint :: "provider_info \<Rightarrow> (error, string) result" where
  "require_userinfo_endpoint p =
     ok_or (pi_userinfo_endpoint p) (Config ''provider does not advertise a userinfo_endpoint'')"

definition require_jwks_uri :: "provider_info \<Rightarrow> (error, string) result" where
  "require_jwks_uri p = ok_or (pi_jwks_uri p) (Config ''provider does not advertise a jwks_uri'')"

datatype client_auth =
    NoClientAuth
  | ClientSecretBasic string
  | ClientSecretPost string
  | PrivateKeyJwt signing_key

record rp_client =
  rp_client_id :: string
  rp_redirect_uri :: string
  rp_auth :: client_auth
  rp_scope :: string

record token_set =
  ts_access_token :: string
  ts_id_token :: string
  ts_token_type :: string
  ts_raw :: json

section \<open>URL validation\<close>

text \<open>\<^verbatim>\<open>trim_start_matches('[')\<close> is \<open>dropWhile\<close>.\<close>

definition is_loopback_host :: "string \<Rightarrow> bool" where
  "is_loopback_host host \<longleftrightarrow>
     eq_ignore_ascii_case host ''localhost'' \<or>
     (case parse_ip (trim_end_matches (CHR '']'') (dropWhile (\<lambda>c. c = CHR ''['') host)) of
        Some ip \<Rightarrow> is_loopback ip | None \<Rightarrow> False)"

definition unsafe_char :: "codepoint \<Rightarrow> bool" where
  "unsafe_char c \<longleftrightarrow> is_whitespace c \<or> is_control c \<or> is_invisible_format c"

definition loopback_http :: "url \<Rightarrow> bool" where
  "loopback_http u \<longleftrightarrow>
     u_scheme u = ''http'' \<and> (case u_host u of Some h \<Rightarrow> is_loopback_host h | None \<Rightarrow> False)"

definition validate_endpoint :: "'w platform \<Rightarrow> string \<Rightarrow> string \<Rightarrow> bool \<Rightarrow> (error, unit) result" where
  "validate_endpoint P name endpoint allow_loopback_http =
     res_bind (ensure (\<not> list_ex unsafe_char (chars endpoint))
       (BadRequest (name @ '' must not contain whitespace, control, bidi or invisible formatting characters''))) (\<lambda>_.
     res_bind (map_err (\<lambda>e. BadRequest (''invalid '' @ name @ '' URL '' @ display_safe endpoint @ '': '' @ e))
       (url_parse P endpoint)) (\<lambda>parsed.
     let scheme_ok = u_scheme parsed = ''https'' \<or> (allow_loopback_http \<and> loopback_http parsed);
         policy = (if allow_loopback_http
                   then ''an absolute https URL (http allowed only for loopback hosts)''
                   else ''an absolute https URL'')
     in
     res_bind (ensure (scheme_ok \<and> u_host parsed \<noteq> None)
       (BadRequest (name @ '' must be '' @ policy @ '': '' @ display_safe endpoint))) (\<lambda>_.
     res_bind (ensure (u_username parsed = [] \<and> u_password parsed = None)
       (BadRequest (name @ '' must not contain userinfo: '' @ display_safe endpoint))) (\<lambda>_.
     ensure (u_fragment parsed = None)
       (BadRequest (name @ '' must not contain a fragment: '' @ display_safe endpoint))))))"

definition validate_service_endpoint :: "'w platform \<Rightarrow> string \<Rightarrow> string \<Rightarrow> (error, unit) result" where
  "validate_service_endpoint P name endpoint = validate_endpoint P name endpoint False"

definition issuer_allows_loopback_http :: "'w platform \<Rightarrow> string \<Rightarrow> bool" where
  "issuer_allows_loopback_http P issuer =
     (if list_ex unsafe_char (chars issuer) then False
      else case url_parse P issuer of
        Inl _ \<Rightarrow> False
      | Inr parsed \<Rightarrow>
          loopback_http parsed \<and> u_username parsed = [] \<and> u_password parsed = None \<and>
          u_query parsed = None \<and> u_fragment parsed = None)"

definition validate_service_endpoint_for_issuer ::
    "'w platform \<Rightarrow> string \<Rightarrow> string \<Rightarrow> string \<Rightarrow> (error, unit) result" where
  "validate_service_endpoint_for_issuer P name endpoint issuer =
     validate_endpoint P name endpoint (issuer_allows_loopback_http P issuer)"

definition library_params :: "string list" where
  "library_params = [''response_type'', ''client_id'', ''redirect_uri'', ''scope'', ''state'', ''nonce'',
     ''code_challenge'', ''code_challenge_method'']"

text \<open>The loop over the parameters of the endpoint, \<open>seen\<close> the names so far.\<close>

fun endpoint_names :: "string set \<Rightarrow> string list \<Rightarrow> (error, unit) result" where
  "endpoint_names seen [] = Inr ()"
| "endpoint_names seen (name # names) =
     (if name \<in> set library_params
      then Inl (BadRequest (''authorization_endpoint query parameter '' @ display_safe name @ '' is library-controlled''))
      else if name \<noteq> ''resource'' \<and> name \<in> seen
      then Inl (BadRequest ''authorization_endpoint contains duplicate query parameters'')
      else endpoint_names (if name \<noteq> ''resource'' then insert name seen else seen) names)"

definition validate_authorization_endpoint_query :: "'w platform \<Rightarrow> string \<Rightarrow> (error, unit) result" where
  "validate_authorization_endpoint_query P endpoint =
     res_bind (map_err (\<lambda>e. BadRequest (''invalid authorization_endpoint: '' @ e)) (url_parse P endpoint)) (\<lambda>parsed.
     endpoint_names {} (List.map fst (u_query_pairs parsed)))"

definition validate_issuer :: "'w platform \<Rightarrow> string \<Rightarrow> (error, unit) result" where
  "validate_issuer P issuer =
     res_bind (validate_endpoint P ''issuer'' issuer True) (\<lambda>_.
     res_bind (map_err (\<lambda>e. BadRequest (''invalid issuer URL '' @ display_safe issuer @ '': '' @ e))
       (url_parse P issuer)) (\<lambda>parsed.
     ensure (u_query parsed = None \<and> u_fragment parsed = None)
       (BadRequest ''issuer URL must not contain a query or fragment'')))"

definition validate_redirect_uri_syntax :: "'w platform \<Rightarrow> string \<Rightarrow> (error, unit) result" where
  "validate_redirect_uri_syntax P redirect_uri =
     res_bind (map_err (\<lambda>e. BadRequest (''invalid redirect_uri '' @ display_safe redirect_uri @ '': '' @ e))
       (url_parse P redirect_uri)) (\<lambda>parsed.
     ensure (u_fragment parsed = None) (BadRequest ''redirect_uri must not contain a fragment''))"

definition validate_optional_endpoint ::
    "'w platform \<Rightarrow> string \<Rightarrow> string option \<Rightarrow> string \<Rightarrow> (error, unit) result" where
  "validate_optional_endpoint P name endpoint issuer =
     (case endpoint of
        Some e \<Rightarrow> validate_service_endpoint_for_issuer P name e issuer | None \<Rightarrow> Inr ())"

definition provider_info_validate :: "'w platform \<Rightarrow> provider_info \<Rightarrow> (error, unit) result" where
  "provider_info_validate P p =
     res_bind (validate_issuer P (pi_issuer p)) (\<lambda>_.
     res_bind (validate_service_endpoint_for_issuer P ''authorization_endpoint''
       (pi_authorization_endpoint p) (pi_issuer p)) (\<lambda>_.
     res_bind (validate_authorization_endpoint_query P (pi_authorization_endpoint p)) (\<lambda>_.
     res_bind (validate_service_endpoint_for_issuer P ''token_endpoint'' (pi_token_endpoint p) (pi_issuer p)) (\<lambda>_.
     res_bind (validate_optional_endpoint P ''userinfo_endpoint'' (pi_userinfo_endpoint p) (pi_issuer p)) (\<lambda>_.
     validate_optional_endpoint P ''jwks_uri'' (pi_jwks_uri p) (pi_issuer p))))))"

section \<open>The authorization request\<close>

fun extra_names :: "string set \<Rightarrow> string list \<Rightarrow> (error, unit) result" where
  "extra_names seen [] = Inr ()"
| "extra_names seen (name # names) =
     (if name \<in> set library_params
      then Inl (BadRequest (''authorization extra parameter '' @ display_safe name @ '' is library-controlled''))
      else if name \<noteq> ''resource'' \<and> name \<in> seen
      then Inl (BadRequest (''duplicate authorization extra parameter: '' @ display_safe name))
      else extra_names (if name \<noteq> ''resource'' then insert name seen else seen) names)"

definition validate_authorization_extras ::
    "'w platform \<Rightarrow> string \<Rightarrow> (string \<times> string) list \<Rightarrow> (error, unit) result" where
  "validate_authorization_extras P endpoint extra =
     res_bind (map_err (\<lambda>e. BadRequest (''invalid authorization_endpoint: '' @ e)) (url_parse P endpoint)) (\<lambda>parsed.
     extra_names (set (List.map fst (u_query_pairs parsed)) - {''resource''}) (List.map fst extra))"

text \<open>The checks \<^verbatim>\<open>authorization_url\<close> and \<^verbatim>\<open>signed_request_object\<close> share.\<close>

definition check_request ::
    "'w platform \<Rightarrow> provider_info \<Rightarrow> rp_client \<Rightarrow> string option \<Rightarrow> (error, unit) result" where
  "check_request P provider client code_challenge =
     res_bind (provider_info_validate P provider) (\<lambda>_.
     res_bind (validate_redirect_uri_syntax P (rp_redirect_uri client)) (\<lambda>_.
     res_bind (ensure (''openid'' \<in> set (split_whitespace (rp_scope client)))
       (BadRequest ''OIDC authorization requests require the openid scope'')) (\<lambda>_.
     res_bind (ensure (\<not> (rp_auth client = NoClientAuth \<and> code_challenge = None))
       (BadRequest ''public clients must use S256 PKCE'')) (\<lambda>_.
     ensure (case code_challenge of Some c \<Rightarrow> is_valid_s256_challenge P c | None \<Rightarrow> True)
       (BadRequest ''invalid S256 code_challenge'')))))"

definition authorization_params ::
    "rp_client \<Rightarrow> string \<Rightarrow> string \<Rightarrow> string option \<Rightarrow> (string \<times> string) list \<Rightarrow> (string \<times> string) list" where
  "authorization_params client state nonce code_challenge extra =
     [(''response_type'', ''code''), (''client_id'', rp_client_id client),
      (''redirect_uri'', rp_redirect_uri client), (''scope'', rp_scope client), (''state'', state),
      (''nonce'', nonce)]
     @ (case code_challenge of
          Some cc \<Rightarrow> [(''code_challenge'', cc), (''code_challenge_method'', ''S256'')] | None \<Rightarrow> [])
     @ extra"

definition authorization_url ::
    "'w platform \<Rightarrow> provider_info \<Rightarrow> rp_client \<Rightarrow> string \<Rightarrow> string \<Rightarrow> string option \<Rightarrow> (string \<times> string) list \<Rightarrow>
     (error, string) result" where
  "authorization_url P provider client state nonce code_challenge extra =
     res_bind (check_request P provider client code_challenge) (\<lambda>_.
     res_bind (validate_authorization_extras P (pi_authorization_endpoint provider) extra) (\<lambda>_.
     let qs = encode_params P (authorization_params client state nonce code_challenge extra);
         sep = (if CHR ''?'' \<in> set (pi_authorization_endpoint provider) then ''&'' else ''?'')
     in Inr (pi_authorization_endpoint provider @ sep @ qs)))"

section \<open>What validation gives\<close>

text \<open>
  \<open>safe_url P issuer s\<close>: the text \<open>s\<close> is what the URL parser read, an https URL, or a loopback http
  URL of an issuer that is one itself, with a host and without credentials or fragment.
\<close>

definition safe_url :: "'w platform \<Rightarrow> string \<Rightarrow> string \<Rightarrow> bool" where
  "safe_url P issuer s \<longleftrightarrow> \<not> list_ex unsafe_char (chars s) \<and>
     (\<exists>u. url_parse P s = Inr u \<and> u_host u \<noteq> None \<and> u_username u = [] \<and> u_password u = None \<and>
        u_fragment u = None \<and>
        (u_scheme u = ''https'' \<or> loopback_http u \<and> issuer_allows_loopback_http P issuer))"

lemma validate_endpoint_ok:
  "validate_endpoint P name s allow = Inr v \<longleftrightarrow> \<not> list_ex unsafe_char (chars s) \<and>
     (\<exists>u. url_parse P s = Inr u \<and> u_host u \<noteq> None \<and> u_username u = [] \<and> u_password u = None \<and>
        u_fragment u = None \<and> (u_scheme u = ''https'' \<or> allow \<and> loopback_http u))"
  by (auto simp: validate_endpoint_def Let_def result_simps)

lemma service_endpoint_safe:
  "validate_service_endpoint_for_issuer P name s issuer = Inr v \<longleftrightarrow> safe_url P issuer s"
  by (auto simp: validate_service_endpoint_for_issuer_def validate_endpoint_ok safe_url_def)

lemma validate_issuer_ok:
  "validate_issuer P issuer = Inr v \<longleftrightarrow>
     safe_url P issuer issuer \<and> (\<exists>u. url_parse P issuer = Inr u \<and> u_query u = None)"
  by (auto simp: validate_issuer_def validate_endpoint_ok safe_url_def issuer_allows_loopback_http_def result_simps)

lemma optional_endpoint_safe:
  "validate_optional_endpoint P name e issuer = Inr v \<longleftrightarrow> (case e of Some s \<Rightarrow> safe_url P issuer s | None \<Rightarrow> True)"
  by (auto simp: validate_optional_endpoint_def service_endpoint_safe split: option.splits)



text \<open>Names that do not collide: with each other, with \<open>seen\<close>, or with the library's own.\<close>

definition fresh_names :: "string set \<Rightarrow> string list \<Rightarrow> bool" where
  "fresh_names seen names \<longleftrightarrow>
     set names \<inter> set library_params = {} \<and> distinct (filter (\<lambda>n. n \<noteq> ''resource'') names) \<and>
     (set names - {''resource''}) \<inter> seen = {}"

lemma fresh_names_Cons:
  "fresh_names seen (n # ns) \<longleftrightarrow> n \<notin> set library_params \<and> (n = ''resource'' \<or> n \<notin> seen) \<and>
     fresh_names (if n \<noteq> ''resource'' then insert n seen else seen) ns"
  by (auto simp: fresh_names_def)

lemma endpoint_names_ok: "endpoint_names seen names = Inr v \<longleftrightarrow> fresh_names seen names"
  by (induction seen names rule: endpoint_names.induct) (simp_all add: fresh_names_Cons, simp add: fresh_names_def)

lemma extra_names_ok: "extra_names seen names = Inr v \<longleftrightarrow> fresh_names seen names"
  by (induction seen names rule: extra_names.induct) (simp_all add: fresh_names_Cons, simp add: fresh_names_def)

definition provider_urls :: "provider_info \<Rightarrow> string list" where
  "provider_urls p = [pi_issuer p, pi_authorization_endpoint p, pi_token_endpoint p]
     @ (case pi_userinfo_endpoint p of Some e \<Rightarrow> [e] | None \<Rightarrow> [])
     @ (case pi_jwks_uri p of Some e \<Rightarrow> [e] | None \<Rightarrow> [])"

lemma provider_info_validate_ok:
  "provider_info_validate P p = Inr v \<longleftrightarrow>
     list_all (safe_url P (pi_issuer p)) (provider_urls p) \<and>
     (\<exists>u. url_parse P (pi_issuer p) = Inr u \<and> u_query u = None) \<and>
     (\<exists>u. url_parse P (pi_authorization_endpoint p) = Inr u \<and> fresh_names {} (List.map fst (u_query_pairs u)))"
  by (auto simp: provider_info_validate_def provider_urls_def service_endpoint_safe optional_endpoint_safe
      validate_issuer_ok validate_authorization_endpoint_query_def endpoint_names_ok result_simps split: option.splits)

text \<open>
  C33.  Provider information is accepted exactly when: the issuer and every endpoint parse as URLs with
  a host and without credentials and fragment, and contain no whitespace, control or invisible characters; each is
  https, or else a loopback http URL where the issuer is itself a loopback http origin; the issuer has no query; and
  in the query of the authorization endpoint no name but \<^verbatim>\<open>resource\<close> is repeated and none is one of the parameters the
  library sets itself.  An https issuer therefore never sends a client to an http endpoint.
\<close>

theorem provider_endpoints_safe:
  "(provider_info_validate P p = Inr () \<longleftrightarrow>
      list_all (safe_url P (pi_issuer p)) (provider_urls p) \<and>
      (\<exists>u. url_parse P (pi_issuer p) = Inr u \<and> u_query u = None) \<and>
      (\<exists>u. url_parse P (pi_authorization_endpoint p) = Inr u \<and> fresh_names {} (List.map fst (u_query_pairs u)))) \<and>
   (provider_info_validate P p = Inr () \<and> url_parse P (pi_issuer p) = Inr i \<and> u_scheme i = ''https'' \<longrightarrow>
      list_all (\<lambda>s. \<exists>u. url_parse P s = Inr u \<and> u_scheme u = ''https'') (provider_urls p))"
  by (auto simp: provider_info_validate_ok list_all_iff safe_url_def issuer_allows_loopback_http_def loopback_http_def)

section \<open>The URL\<close>

lemma check_request_ok:
  "check_request P provider client cc = Inr v \<longleftrightarrow> provider_info_validate P provider = Inr () \<and>
     validate_redirect_uri_syntax P (rp_redirect_uri client) = Inr () \<and>
     ''openid'' \<in> set (split_whitespace (rp_scope client)) \<and>
     (rp_auth client = NoClientAuth \<longrightarrow> cc \<noteq> None) \<and>
     (case cc of Some c \<Rightarrow> is_valid_s256_challenge P c | None \<Rightarrow> True)"
  by (auto simp: check_request_def result_simps)

lemma library_params_names:
  "List.map fst (authorization_params client state nonce cc extra) =
     (if cc = None then take 6 library_params else library_params) @ List.map fst extra"
  by (auto simp: authorization_params_def library_params_def split: option.splits)

lemma fresh_after:
  "fresh_names {} ns \<Longrightarrow> fresh_names (set ns - {''resource''}) es \<Longrightarrow>
     distinct (filter (\<lambda>n. n \<noteq> ''resource'') (ns @ es)) \<and> set (ns @ es) \<inter> set library_params = {}"
  by (auto simp: fresh_names_def)

lemma distinct_library_params: "distinct library_params" "''resource'' \<notin> set library_params"
  by (simp_all add: library_params_def)

lemma authorization_url_ok:
  assumes "authorization_url P provider client state nonce cc extra = Inr loc"
  shows "check_request P provider client cc = Inr ()"
    and "loc = pi_authorization_endpoint provider
      @ (if CHR ''?'' \<in> set (pi_authorization_endpoint provider) then ''&'' else ''?'')
      @ encode_params P (authorization_params client state nonce cc extra)"
    and "\<exists>u. url_parse P (pi_authorization_endpoint provider) = Inr u \<and>
      fresh_names {} (List.map fst (u_query_pairs u)) \<and>
      fresh_names (set (List.map fst (u_query_pairs u)) - {''resource''}) (List.map fst extra)"
proof -
  from assms show c: "check_request P provider client cc = Inr ()"
    by (simp add: authorization_url_def result_simps)
  from assms show "loc = pi_authorization_endpoint provider
      @ (if CHR ''?'' \<in> set (pi_authorization_endpoint provider) then ''&'' else ''?'')
      @ encode_params P (authorization_params client state nonce cc extra)"
    by (simp add: authorization_url_def result_simps Let_def)
  from assms have "validate_authorization_extras P (pi_authorization_endpoint provider) extra = Inr ()"
    by (simp add: authorization_url_def result_simps)
  with c show "\<exists>u. url_parse P (pi_authorization_endpoint provider) = Inr u \<and>
      fresh_names {} (List.map fst (u_query_pairs u)) \<and>
      fresh_names (set (List.map fst (u_query_pairs u)) - {''resource''}) (List.map fst extra)"
    by (auto simp: validate_authorization_extras_def extra_names_ok result_simps check_request_ok provider_info_validate_ok)
qed

lemma distinct_filter_mid:
  "distinct (filter p (ns @ es)) \<Longrightarrow> distinct (filter p lib) \<Longrightarrow> set lib \<inter> set (ns @ es) = {} \<Longrightarrow>
     distinct (filter p (ns @ lib @ es))"
  by auto

lemma authorization_names_distinct:
  assumes "fresh_names {} ns" and "fresh_names (set ns - {''resource''}) (List.map fst extra)"
  shows "distinct (filter (\<lambda>n. n \<noteq> ''resource'') (ns @ List.map fst (authorization_params client state nonce cc extra)))"
proof -
  let ?lib = "if cc = None then take 6 library_params else library_params"
  have "distinct (filter (\<lambda>n. n \<noteq> ''resource'') ?lib)" "set ?lib \<subseteq> set library_params"
    using distinct_library_params(1) set_take_subset [of 6 library_params] by (simp_all add: distinct_take)
  moreover from this(2) fresh_after [OF assms] have "set ?lib \<inter> set (ns @ List.map fst extra) = {}" by blast
  ultimately show ?thesis
    using fresh_after [OF assms] distinct_filter_mid unfolding library_params_names by blast
qed

text \<open>
  An authorization URL is built only for validated provider information, an \<^verbatim>\<open>openid\<close> scope and,
  for a public client, a canonical S256 challenge.  It is the authorization endpoint followed by the
  encoded parameters; among the parameters of the endpoint and those appended no name but
  \<^verbatim>\<open>resource\<close> occurs twice, so that no reader can disagree about them, and the library's parameters
  have the values of this request.
\<close>

theorem authorization_url_unambiguous:
  assumes "authorization_url P provider client state nonce cc extra = Inr loc"
  shows "\<exists>u params. url_parse P (pi_authorization_endpoint provider) = Inr u \<and>
    loc = pi_authorization_endpoint provider
      @ (if CHR ''?'' \<in> set (pi_authorization_endpoint provider) then ''&'' else ''?'') @ encode_params P params \<and>
    distinct (filter (\<lambda>n. n \<noteq> ''resource'') (List.map fst (u_query_pairs u @ params))) \<and>
    map_of params ''response_type'' = Some ''code'' \<and>
    map_of params ''client_id'' = Some (rp_client_id client) \<and>
    map_of params ''redirect_uri'' = Some (rp_redirect_uri client) \<and>
    map_of params ''scope'' = Some (rp_scope client) \<and>
    map_of params ''state'' = Some state \<and> map_of params ''nonce'' = Some nonce \<and>
    map_of params ''code_challenge'' = cc \<and>
    map_of params ''code_challenge_method'' = (if cc = None then None else Some ''S256'') \<and>
    ''openid'' \<in> set (split_whitespace (rp_scope client)) \<and>
    list_all (safe_url P (pi_issuer provider)) (provider_urls provider) \<and>
    (rp_auth client = NoClientAuth \<longrightarrow> (\<exists>c. cc = Some c \<and> is_valid_s256_challenge P c))"
proof -
  note ok = authorization_url_ok [OF assms]
  let ?ps = "authorization_params client state nonce cc extra"
  obtain u where u: "url_parse P (pi_authorization_endpoint provider) = Inr u"
      "fresh_names {} (List.map fst (u_query_pairs u))"
      "fresh_names (set (List.map fst (u_query_pairs u)) - {''resource''}) (List.map fst extra)"
    using ok(3) by blast
  have cc: "map_of extra ''code_challenge'' = None" "map_of extra ''code_challenge_method'' = None"
    using u(3) by (auto simp: fresh_names_def library_params_def map_of_eq_None_iff)
  have "map_of ?ps ''code_challenge'' = cc" "map_of ?ps ''code_challenge_method'' = (if cc = None then None else Some ''S256'')"
    using cc by (auto simp: authorization_params_def split: option.splits)
  moreover have "rp_auth client = NoClientAuth \<longrightarrow> (\<exists>c. cc = Some c \<and> is_valid_s256_challenge P c)"
    using ok(1) by (auto simp: check_request_ok)
  moreover note authorization_names_distinct [OF u(2,3), of client state nonce cc]
  ultimately show ?thesis
    using ok(1,2) u(1)
    by (intro exI [of _ u] exI [of _ ?ps])
      (simp add: check_request_ok provider_info_validate_ok, simp add: authorization_params_def)
qed

section \<open>Concrete endpoints\<close>

text \<open>A platform whose URL parser knows one https provider and one client.\<close>

definition https_url :: "string \<Rightarrow> url" where
  "https_url s = \<lparr>u_scheme = ''https'', u_host = Some ''op'', u_query = None, u_fragment = None, u_username = [],
     u_password = None, u_query_pairs = [], u_text = s\<rparr>"

definition rp_platform :: "('w \<Rightarrow> u64 \<times> 'w) \<Rightarrow> json list \<Rightarrow> 'w platform" where
  "rp_platform clock vals = (sample_platform clock vals)
     \<lparr>url_parse := (\<lambda>s. if take 8 s = ''https://'' then Inr (https_url s) else Inl ''relative URL without a base'')\<rparr>"

definition still :: "unit \<Rightarrow> u64 \<times> unit" where
  "still w = (0, w)"

definition sample_info :: provider_info where
  "sample_info = \<lparr>pi_issuer = ''https://op'', pi_authorization_endpoint = ''https://op/authorization'',
     pi_token_endpoint = ''https://op/token'', pi_userinfo_endpoint = Some ''https://op/userinfo'',
     pi_jwks_uri = Some ''https://op/jwks''\<rparr>"

definition sample_rp :: rp_client where
  "sample_rp = \<lparr>rp_client_id = ''rp'', rp_redirect_uri = ''https://rp/cb'', rp_auth = ClientSecretBasic ''s3'',
     rp_scope = ''openid email''\<rparr>"

lemma https_safe:
  "take 8 s = ''https://'' \<Longrightarrow> \<not> list_ex unsafe_char (chars s) \<Longrightarrow> safe_url (rp_platform clock vals) issuer s"
  by (simp add: safe_url_def rp_platform_def https_url_def)

lemma sample_info_valid: "provider_info_validate (rp_platform clock vals) sample_info = Inr ()"
proof -
  have "list_all (\<lambda>s. take 8 s = ''https://'' \<and> \<not> list_ex unsafe_char (chars s)) (provider_urls sample_info)"
    by code_simp
  then have "list_all (safe_url (rp_platform clock vals) (pi_issuer sample_info)) (provider_urls sample_info)"
    by (auto simp: list_all_iff intro: https_safe)
  then show ?thesis
    by (simp add: provider_info_validate_ok) (simp add: rp_platform_def sample_info_def https_url_def fresh_names_def)
qed

theorem provider_endpoints_safe_witness:
  "list_all (\<lambda>s. \<exists>u. url_parse (rp_platform still []) s = Inr u \<and> u_scheme u = ''https'') (provider_urls sample_info)"
proof -
  have "url_parse (rp_platform still []) (pi_issuer sample_info) = Inr (https_url ''https://op'')"
    by (simp add: rp_platform_def sample_info_def)
  with provider_endpoints_safe [of "rp_platform still []" sample_info "https_url ''https://op''"] sample_info_valid [of still "[]"]
  show ?thesis by (simp add: https_url_def)
qed

lemma sample_check_request: "check_request (rp_platform clock vals) sample_info sample_rp None = Inr ()"
proof -
  have "''openid'' \<in> set (split_whitespace (rp_scope sample_rp))" by code_simp
  then show ?thesis
    by (simp add: check_request_ok sample_info_valid)
      (simp add: sample_rp_def validate_redirect_uri_syntax_def rp_platform_def https_url_def)
qed

theorem authorization_url_unambiguous_witness:
  "\<exists>loc. authorization_url (rp_platform still []) sample_info sample_rp ''st'' ''no'' None
     [(''prompt'', ''login''), (''resource'', ''a''), (''resource'', ''b'')] = Inr loc \<and>
   list_all (safe_url (rp_platform still []) (pi_issuer sample_info)) (provider_urls sample_info)"
proof -
  have "validate_authorization_extras (rp_platform still []) (pi_authorization_endpoint sample_info)
      [(''prompt'', ''login''), (''resource'', ''a''), (''resource'', ''b'')] = Inr ()"
    by (simp add: validate_authorization_extras_def rp_platform_def sample_info_def https_url_def library_params_def)
  then obtain loc where t: "authorization_url (rp_platform still []) sample_info sample_rp ''st'' ''no'' None
      [(''prompt'', ''login''), (''resource'', ''a''), (''resource'', ''b'')] = Inr loc"
    by (simp add: authorization_url_def sample_check_request Let_def)
  from authorization_url_unambiguous [OF t] t show ?thesis by blast
qed

end
