(* ===== verification/Upstream.thy ===== *)
theory Upstream
  imports Endpoints Tokens
begin

text \<open>
  \<^verbatim>\<open>src/rp.rs\<close>, second part, with the client trait of \<^verbatim>\<open>src/http.rs\<close>: outbound requests, the error built
  from a failed one, discovery of provider metadata and of key sets.
\<close>

section \<open>The HTTP client\<close>

text \<open>The trait \<^verbatim>\<open>HttpClient\<close> is a callback of the host: three programs over the world.\<close>

record 'w http_client =
  hc_get :: "string \<Rightarrow> ('w, error, http_fetch_response) prog"
  hc_post_form :: "string \<Rightarrow> (string \<times> string) list \<Rightarrow> (string \<times> string) list \<Rightarrow> ('w, error, http_fetch_response) prog"
  hc_get_with_headers :: "string \<Rightarrow> (string \<times> string) list \<Rightarrow> ('w, error, http_fetch_response) prog"

definition default_get_with_headers :: "string \<Rightarrow> (string \<times> string) list \<Rightarrow> ('w, error, http_fetch_response) prog" where
  "default_get_with_headers url headers = failP (Config ''this HttpClient does not implement get_with_headers'')"

definition fetch_text :: "http_fetch_response \<Rightarrow> string" where
  "fetch_text r = from_utf8_lossy (hf_body r)"

definition fetch_value :: "'w platform \<Rightarrow> http_fetch_response \<Rightarrow> (error, json) result" where
  "fetch_value P r = map_err Json (json_from_slice P (hf_body r))"

definition fetch_json ::
    "'w platform \<Rightarrow> string \<Rightarrow> (json \<Rightarrow> 'a option) \<Rightarrow> http_fetch_response \<Rightarrow> (error, 'a) result" where
  "fetch_json P ty from_json r =
     res_bind (fetch_value P r) (\<lambda>j. ok_or (from_json j) (Json (de_error P ty (hf_body r))))"

section \<open>Errors of upstream requests\<close>

datatype upstream_kind = Auth | Metadata

definition max_upstream_message_chars :: nat where "max_upstream_message_chars = 1024"
definition max_error_json_bytes :: nat where "max_error_json_bytes = 16 * 1024"
definition max_error_header_bytes :: nat where "max_error_header_bytes = 8 * 1024"
definition max_error_body_chars :: nat where "max_error_body_chars = 512"

lemmas upstream_limits = max_upstream_message_chars_def max_error_json_bytes_def max_error_header_bytes_def
  max_error_body_chars_def

definition bounded_message :: "string \<Rightarrow> string" where
  "bounded_message m =
     (if max_upstream_message_chars < length (chars m)
      then from_chars (take max_upstream_message_chars (chars m) @ [0x2026]) else m)"

definition body_error :: "'w platform \<Rightarrow> http_fetch_response \<Rightarrow> string option \<times> string option" where
  "body_error P resp =
     (if length (hf_body resp) \<le> max_error_json_bytes then
        (case json_from_slice P (hf_body resp) of
           Inr (JObject obj) \<Rightarrow>
             (case Option.bind (map_of obj ''error'') as_str of
                Some code \<Rightarrow>
                  (Some (escape_upstream_text code 64),
                   map_option (\<lambda>d. escape_upstream_text d 256) (Option.bind (map_of obj ''error_description'') as_str))
              | None \<Rightarrow> (None, None))
         | _ \<Rightarrow> (None, None))
      else (None, None))"

definition header_error :: "http_fetch_response \<Rightarrow> string option \<times> string option" where
  "header_error resp =
     (let values = header_values resp ''www-authenticate''
      in if sum_list (List.map length values) \<le> max_error_header_bytes then
           (case parse_www_authenticate_bearer (join '', '' values) of
              Some (e, d) \<Rightarrow>
                (map_option (\<lambda>e. escape_upstream_text e 64) e, map_option (\<lambda>d. escape_upstream_text d 256) d)
            | None \<Rightarrow> (None, None))
         else (None, None))"

definition body_excerpt :: "http_fetch_response \<Rightarrow> string option" where
  "body_excerpt resp =
     (if hf_body resp = [] then None
      else Some (escape_upstream_text
        (from_utf8_lossy (take ((max_error_body_chars + 1) * 4) (hf_body resp))) max_error_body_chars))"

definition upstream_error :: "'w platform \<Rightarrow> upstream_kind \<Rightarrow> string \<Rightarrow> http_fetch_response \<Rightarrow> error" where
  "upstream_error P kind message resp =
     (let (prefix, auth_failure) =
            (case kind of Auth \<Rightarrow> (''authentication error: '', True) | Metadata \<Rightarrow> (''internal error: '', False));
          (err, description) =
            (let (e, d) = body_error P resp in if e = None then header_error resp else (e, d))
      in UpstreamHttp \<lparr>ue_status = Some (hf_status resp), ue_error = err, ue_error_description = description,
           ue_body = body_excerpt resp, ue_message = bounded_message (prefix @ message),
           ue_auth_failure = auth_failure\<rparr>)"

section \<open>Reading provider metadata\<close>

definition strings_field :: "json \<Rightarrow> string \<Rightarrow> string list option" where
  "strings_field j k =
     (case json_get j k of
        None \<Rightarrow> Some []
      | Some v \<Rightarrow> Option.bind (as_array v) (\<lambda>xs. those (List.map as_str xs)))"

definition bool_field :: "json \<Rightarrow> string \<Rightarrow> bool option" where
  "bool_field j k = (case json_get j k of None \<Rightarrow> Some False | Some v \<Rightarrow> as_bool v)"

definition metadata_names :: "string list" where
  "metadata_names = [''issuer'', ''authorization_endpoint'', ''token_endpoint'', ''userinfo_endpoint'', ''jwks_uri'',
     ''registration_endpoint'', ''scopes_supported'', ''response_types_supported'', ''response_modes_supported'',
     ''grant_types_supported'', ''subject_types_supported'', ''id_token_signing_alg_values_supported'',
     ''token_endpoint_auth_methods_supported'', ''claims_supported'', ''code_challenge_methods_supported'',
     ''claims_parameter_supported'', ''request_parameter_supported'', ''dpop_signing_alg_values_supported'']"

definition metadata_extra :: "json \<Rightarrow> json btree" where
  "metadata_extra j =
     (case as_object j of Some m \<Rightarrow> filter (\<lambda>(k, _). k \<notin> set metadata_names) m | None \<Rightarrow> [])"

definition metadata_from_json :: "json \<Rightarrow> provider_metadata option" where
  "metadata_from_json j =
     Option.bind (str_field j ''issuer'') (\<lambda>iss.
     Option.bind (str_field j ''authorization_endpoint'') (\<lambda>ae.
     Option.bind (str_field j ''token_endpoint'') (\<lambda>te.
     Option.bind (opt_str_field j ''userinfo_endpoint'') (\<lambda>ue.
     Option.bind (str_field j ''jwks_uri'') (\<lambda>ju.
     Option.bind (opt_str_field j ''registration_endpoint'') (\<lambda>re.
     Option.bind (strings_field j ''scopes_supported'') (\<lambda>sc.
     Option.bind (strings_field j ''response_types_supported'') (\<lambda>rt.
     Option.bind (strings_field j ''response_modes_supported'') (\<lambda>rm.
     Option.bind (strings_field j ''grant_types_supported'') (\<lambda>gt.
     Option.bind (strings_field j ''subject_types_supported'') (\<lambda>st.
     Option.bind (strings_field j ''id_token_signing_alg_values_supported'') (\<lambda>ia.
     Option.bind (strings_field j ''token_endpoint_auth_methods_supported'') (\<lambda>am.
     Option.bind (strings_field j ''claims_supported'') (\<lambda>cs.
     Option.bind (strings_field j ''code_challenge_methods_supported'') (\<lambda>cm.
     Option.bind (bool_field j ''claims_parameter_supported'') (\<lambda>cp.
     Option.bind (bool_field j ''request_parameter_supported'') (\<lambda>rp.
     Option.bind (strings_field j ''dpop_signing_alg_values_supported'') (\<lambda>da.
     Some \<lparr>md_issuer = iss, md_authorization_endpoint = ae, md_token_endpoint = te, md_userinfo_endpoint = ue,
       md_jwks_uri = ju, md_registration_endpoint = re, md_scopes_supported = sc, md_response_types_supported = rt,
       md_response_modes_supported = rm, md_grant_types_supported = gt, md_subject_types_supported = st,
       md_id_token_signing_alg_values_supported = ia, md_token_endpoint_auth_methods_supported = am,
       md_claims_supported = cs, md_code_challenge_methods_supported = cm, md_claims_parameter_supported = cp,
       md_request_parameter_supported = rp, md_dpop_signing_alg_values_supported = da,
       md_extra = metadata_extra j\<rparr>))))))))))))))))))"

section \<open>Discovery\<close>

record discovery_response =
  dr_metadata :: provider_metadata
  dr_response :: http_fetch_response

definition max_jwks_cache_ttl_secs :: u64 where "max_jwks_cache_ttl_secs = 86400"

definition dr_cache_ttl_secs_max :: "discovery_response \<Rightarrow> u64 \<Rightarrow> u64 option" where
  "dr_cache_ttl_secs_max r ceiling = cache_ttl_secs_max (dr_response r) ceiling"

definition dr_cache_ttl_secs :: "discovery_response \<Rightarrow> u64 option" where
  "dr_cache_ttl_secs r = dr_cache_ttl_secs_max r max_jwks_cache_ttl_secs"

definition discovery_url :: "string \<Rightarrow> string" where
  "discovery_url issuer = trim_end_matches (CHR ''/'') issuer @ ''/.well-known/openid-configuration''"

definition discover_response ::
    "'w platform \<Rightarrow> 'w http_client \<Rightarrow> string \<Rightarrow> ('w, error, discovery_response) prog" where
  "discover_response P http issuer =
     bindP (liftR (validate_issuer P issuer)) (\<lambda>_.
     bindP (hc_get http (discovery_url issuer)) (\<lambda>resp.
     guardP (hf_status resp = 200)
       (upstream_error P Metadata (''discovery failed ('' @ usize_str (hf_status resp) @ '') for ''
         @ display_safe (discovery_url issuer)) resp) (
     bindP (liftR (fetch_json P ''ProviderMetadata'' metadata_from_json resp)) (\<lambda>metadata.
     guardP (md_issuer metadata = issuer)
       (Authn (''discovered issuer '' @ display_safe (md_issuer metadata) @ '' does not match requested issuer ''
         @ display_safe issuer)) (
     bindP (liftR (provider_info_validate P (provider_info_from metadata))) (\<lambda>_.
     retP \<lparr>dr_metadata = metadata, dr_response = resp\<rparr>))))))"

definition discover :: "'w platform \<Rightarrow> 'w http_client \<Rightarrow> string \<Rightarrow> ('w, error, provider_metadata) prog" where
  "discover P http issuer = bindP (discover_response P http issuer) (\<lambda>r. retP (dr_metadata r))"

record jwks_response =
  jr_jwks :: jwk_set
  jr_cache_control :: "string option"
  jr_etag :: "string option"
  jr_age :: "u64 option"

definition jr_advertised_ttl_secs :: "jwks_response \<Rightarrow> u64 option" where
  "jr_advertised_ttl_secs r = advertised_ttl (jr_cache_control r)"

definition jr_cache_ttl_secs_max :: "jwks_response \<Rightarrow> u64 \<Rightarrow> u64 option" where
  "jr_cache_ttl_secs_max r ceiling =
     map_option (\<lambda>ttl. min (saturating_sub ttl (case jr_age r of Some a \<Rightarrow> a | None \<Rightarrow> 0)) ceiling)
       (jr_advertised_ttl_secs r)"

definition jr_cache_ttl_secs :: "jwks_response \<Rightarrow> u64 option" where
  "jr_cache_ttl_secs r = jr_cache_ttl_secs_max r max_jwks_cache_ttl_secs"

definition fetch_jwks_response ::
    "'w platform \<Rightarrow> 'w http_client \<Rightarrow> string \<Rightarrow> string \<Rightarrow> ('w, error, jwks_response) prog" where
  "fetch_jwks_response P http jwks_uri issuer =
     bindP (liftR (validate_issuer P issuer)) (\<lambda>_.
     bindP (liftR (validate_service_endpoint_for_issuer P ''jwks_uri'' jwks_uri issuer)) (\<lambda>_.
     bindP (hc_get http jwks_uri) (\<lambda>resp.
     guardP (hf_status resp = 200)
       (upstream_error P Metadata (''jwks fetch failed ('' @ usize_str (hf_status resp) @ '')'') resp) (
     bindP (liftR (map_err Jose (jwk_set_from_text P (fetch_text resp)))) (\<lambda>jwks.
     retP \<lparr>jr_jwks = jwks, jr_cache_control = cache_control resp, jr_etag = fetch_header resp ''etag'',
           jr_age = fetch_age resp\<rparr>)))))"

definition fetch_jwks :: "'w platform \<Rightarrow> 'w http_client \<Rightarrow> string \<Rightarrow> string \<Rightarrow> ('w, error, jwk_set) prog" where
  "fetch_jwks P http jwks_uri issuer = bindP (fetch_jwks_response P http jwks_uri issuer) (\<lambda>r. retP (jr_jwks r))"


section \<open>Cached documents and guarded requests\<close>

interpretation discovered: cache_policy dr_cache_ttl_secs_max "\<lambda>r. cache_control (dr_response r)" "\<lambda>r. fetch_age (dr_response r)"
  by unfold_locales (simp add: dr_cache_ttl_secs_max_def fetched.ttl_max_eq)

interpretation key_set: cache_policy jr_cache_ttl_secs_max jr_cache_control jr_age
  by unfold_locales (simp add: jr_cache_ttl_secs_max_def jr_advertised_ttl_secs_def)

text \<open>
  What the requests to a provider or federation entity share: the policy for the endpoint decides before anything
  is sent, a failed request is the error returned, and a value is only ever read from a 200 response.
\<close>

locale guarded_fetch =
  fixes fetch :: "'i \<Rightarrow> ('w, error, 'r) prog" and policy :: "'i \<Rightarrow> (error, unit) result"
    and send :: "'i \<Rightarrow> ('w, error, http_fetch_response) prog"
  assumes refused: "policy i = Inl e \<Longrightarrow> fetch i w = (Inl e, w)"
    and unreachable: "policy i = Inr () \<Longrightarrow> send i w = (Inl e, w1) \<Longrightarrow> fetch i w = (Inl e, w1)"
    and answered: "fetch i w = (Inr r, w') \<Longrightarrow> \<exists>resp w1. send i w = (Inr resp, w1) \<and> hf_status resp = 200"
begin

lemma returned:
  assumes "fetch i w = (Inr r, w')"
  shows "\<exists>resp w1. policy i = Inr () \<and> send i w = (Inr resp, w1) \<and> hf_status resp = 200"
  using answered [OF assms] refused [of i _ w] assms by (cases "policy i") auto

lemma silent: "snd (fetch i w) \<noteq> w \<Longrightarrow> policy i = Inr ()"
  using refused [of i _ w] by (cases "policy i") auto

lemma only_200: "send i w = (Inr resp, w1) \<Longrightarrow> hf_status resp \<noteq> 200 \<Longrightarrow> isl (fst (fetch i w))"
  using answered [of i w] by (cases "fst (fetch i w)") (auto simp: prod_eq_iff)

end

interpretation discovery_get: guarded_fetch "discover_response P http" "validate_issuer P" "\<lambda>i. hc_get http (discovery_url i)"
  for P :: "'w platform" and http
proof unfold_locales
  fix i w r w'
  assume "discover_response P http i w = (Inr r, w')"
  then show "\<exists>resp w1. hc_get http (discovery_url i) w = (Inr resp, w1) \<and> hf_status resp = 200"
    by (auto simp: discover_response_def prog_ok)
qed (simp_all add: discover_response_def bindP_def)

interpretation jwks_get: guarded_fetch "\<lambda>(uri, iss). fetch_jwks_response P http uri iss"
    "\<lambda>(uri, iss). res_bind (validate_issuer P iss) (\<lambda>_. validate_service_endpoint_for_issuer P ''jwks_uri'' uri iss)"
    "\<lambda>(uri, iss). hc_get http uri"
  for P :: "'w platform" and http
proof (unfold_locales, goal_cases)
  case (3 i w r w')
  then show ?case by (cases i) (auto simp: fetch_jwks_response_def prog_ok)
qed (auto simp: fetch_jwks_response_def bindP_def res_bind_def split: sum.splits)

section \<open>Bounded errors\<close>

definition capped :: "nat \<Rightarrow> string \<Rightarrow> bool" where
  "capped n s \<longleftrightarrow> list_all printable (chars s) \<and> length (chars s) \<le> n + 1"

lemma escape_capped: "capped n (escape_upstream_text s n)"
  using escape_loop_length [of "[]" 0 n "chars s"]
  by (simp add: capped_def chars_escape escape_loop_printable chars_scalar)

lemma escape_option_capped: "pred_option (capped n) (map_option (\<lambda>d. escape_upstream_text d n) v)"
  by (cases v) (simp_all add: escape_capped)

lemma bounded_message_length: "length (chars (bounded_message m)) \<le> max_upstream_message_chars + 1"
proof (cases "max_upstream_message_chars < length (chars m)")
  case True
  have "list_all scalar (take max_upstream_message_chars (chars m) @ [0x2026])"
    using chars_scalar [of m] by (auto simp: list_all_iff scalar_def dest: in_set_takeD)
  with True show ?thesis by (simp add: bounded_message_def chars_from_chars)
qed (simp add: bounded_message_def)

lemma body_error_capped:
  "pred_option (capped 64) (fst (body_error P resp)) \<and> pred_option (capped 256) (snd (body_error P resp))"
  by (auto simp: body_error_def escape_capped escape_option_capped split: sum.splits json.splits option.splits)

lemma header_error_capped:
  "pred_option (capped 64) (fst (header_error resp)) \<and> pred_option (capped 256) (snd (header_error resp))"
  by (auto simp: header_error_def Let_def escape_option_capped split: option.splits)

text \<open>
  However large and hostile the response of an upstream server is, the error built from it has a
  message of at most 1025 characters, an error code of at most 65, a description of at most 257 and a
  body excerpt of at most 513, the last three without control or invisible characters; it carries the
  status of the response, and counts as an authentication failure exactly for token and UserInfo
  requests.
\<close>

theorem upstream_error_bounded:
  "case upstream_error P kind message resp of
     UpstreamHttp e \<Rightarrow>
       ue_status e = Some (hf_status resp) \<and> (ue_auth_failure e \<longleftrightarrow> kind = Auth) \<and>
       length (chars (ue_message e)) \<le> 1025 \<and>
       pred_option (capped 64) (ue_error e) \<and> pred_option (capped 256) (ue_error_description e) \<and>
       pred_option (capped 512) (ue_body e)
   | _ \<Rightarrow> False"
proof -
  have "pred_option (capped 512) (body_excerpt resp)"
    by (simp add: body_excerpt_def max_error_body_chars_def escape_capped)
  then show ?thesis
    using bounded_message_length body_error_capped [of P resp] header_error_capped [of resp]
    by (cases kind) (auto simp: upstream_error_def Let_def max_upstream_message_chars_def case_prod_beta)
qed

section \<open>Discovery binds the issuer\<close>

lemma discover_response_ok:
  "discover_response P http issuer w = (Inr r, w') \<longleftrightarrow>
     validate_issuer P issuer = Inr () \<and> hc_get http (discovery_url issuer) w = (Inr (dr_response r), w') \<and>
     hf_status (dr_response r) = 200 \<and>
     fetch_json P ''ProviderMetadata'' metadata_from_json (dr_response r) = Inr (dr_metadata r) \<and>
     md_issuer (dr_metadata r) = issuer \<and>
     provider_info_validate P (provider_info_from (dr_metadata r)) = Inr ()"
  by (cases r) (auto simp: discover_response_def prog_ok)

text \<open>A text without the slashes it ends with.\<close>

lemma without_slashes: "\<exists>n. s = trim_end_matches c s @ replicate n c \<and> (trim_end_matches c s = [] \<or> last (trim_end_matches c s) \<noteq> c)"
proof -
  let ?t = "takeWhile (\<lambda>x. x = c) (rev s)" and ?d = "dropWhile (\<lambda>x. x = c) (rev s)"
  have "s = rev ?d @ rev ?t" by (simp flip: rev_append)
  moreover have "rev ?t = replicate (length ?t) c" by (rule replicate_eqI) (auto dest: set_takeWhileD)
  moreover have "?d = [] \<or> last (rev ?d) \<noteq> c" using hd_dropWhile [of "\<lambda>x. x = c" "rev s"] by (auto simp: last_rev)
  ultimately show ?thesis unfolding trim_end_matches_def by auto
qed

lemma discover_sends:
  "validate_issuer P issuer = Inr () \<Longrightarrow>
     snd (discover_response P http issuer w) = snd (hc_get http (discovery_url issuer) w)"
  by (simp add: discover_response_def bindP_def liftR_def guardP_def retP_def failP_def split: prod.splits sum.splits)

text \<open>
  C34.  Discovery of an issuer sends nothing unless the issuer is a valid identifier.  For a valid one every run, successful
  or not, makes one GET and nothing else: to the issuer without the slashes it ends with, followed by
  \<^verbatim>\<open>/.well-known/openid-configuration\<close>.  Discovery succeeds only if that GET was answered with status 200 and a document whose
  issuer is, byte for byte, the one asked for and whose every endpoint is safe for that issuer; the response
  may be cached for at most a day.
\<close>

theorem discover_binds_issuer:
  assumes "discover_response P http issuer w = (res, w')"
  shows "(\<forall>e. validate_issuer P issuer = Inl e \<longrightarrow> res = Inl e \<and> w' = w) \<and>
    (validate_issuer P issuer = Inr () \<longrightarrow>
      (\<exists>prefix n. issuer = prefix @ replicate n (CHR ''/'') \<and> (prefix = [] \<or> last prefix \<noteq> CHR ''/'') \<and>
         w' = snd (hc_get http (prefix @ ''/.well-known/openid-configuration'') w) \<and>
         (\<forall>r. res = Inr r \<longrightarrow> fst (hc_get http (prefix @ ''/.well-known/openid-configuration'') w) = Inr (dr_response r)))) \<and>
    (\<forall>r. res = Inr r \<longrightarrow> validate_issuer P issuer = Inr () \<and>
       hf_status (dr_response r) = 200 \<and> md_issuer (dr_metadata r) = issuer \<and>
       list_all (safe_url P issuer) (provider_urls (provider_info_from (dr_metadata r))) \<and>
       (\<forall>ttl. dr_cache_ttl_secs r = Some ttl \<longrightarrow> ttl \<le> 86400))"
proof (intro conjI allI impI)
  fix e
  assume "validate_issuer P issuer = Inl e"
  then show "res = Inl e" "w' = w" using discovery_get.refused [of P issuer e http w] assms by simp_all
next
  assume v: "validate_issuer P issuer = Inr ()"
  obtain n where n: "issuer = trim_end_matches (CHR ''/'') issuer @ replicate n (CHR ''/'')"
      "trim_end_matches (CHR ''/'') issuer = [] \<or> last (trim_end_matches (CHR ''/'') issuer) \<noteq> CHR ''/''"
    using without_slashes by blast
  have "w' = snd (hc_get http (discovery_url issuer) w)" using discover_sends [OF v, of http w] assms by simp
  moreover have "\<forall>r. res = Inr r \<longrightarrow> fst (hc_get http (discovery_url issuer) w) = Inr (dr_response r)"
    using assms by (auto simp: discover_response_ok)
  ultimately show "\<exists>prefix n. issuer = prefix @ replicate n (CHR ''/'') \<and> (prefix = [] \<or> last prefix \<noteq> CHR ''/'') \<and>
         w' = snd (hc_get http (prefix @ ''/.well-known/openid-configuration'') w) \<and>
         (\<forall>r. res = Inr r \<longrightarrow> fst (hc_get http (prefix @ ''/.well-known/openid-configuration'') w) = Inr (dr_response r))"
    using n unfolding discovery_url_def by blast
next
  fix r
  assume "res = Inr r"
  with assms have r: "discover_response P http issuer w = (Inr r, w')" by simp
  then show "validate_issuer P issuer = Inr ()" "hf_status (dr_response r) = 200" "md_issuer (dr_metadata r) = issuer"
    by (simp_all add: discover_response_ok)
  have "pi_issuer (provider_info_from (dr_metadata r)) = issuer"
    using r by (simp add: discover_response_ok provider_info_from_def)
  then show "list_all (safe_url P issuer) (provider_urls (provider_info_from (dr_metadata r)))"
    using r by (simp add: discover_response_ok provider_info_validate_ok)
  fix ttl
  assume "dr_cache_ttl_secs r = Some ttl"
  then show "ttl \<le> 86400"
    using discovered.within_ceiling by (simp add: dr_cache_ttl_secs_def max_jwks_cache_ttl_secs_def)
qed

section \<open>Metadata round trip\<close>

lemma those_Some [simp]: "those (List.map Some xs) = Some xs"
  by (induction xs) simp_all

lemma bt_ok_insert_all: "bt_ok b \<Longrightarrow> bt_ok (foldl (\<lambda>b (k, v). bt_insert k v b) b ms)"
  by (induction ms arbitrary: b) (auto simp: bt_ok_insert)

lemma metadata_members_names:
  "set (List.map fst (metadata_members m)) \<subseteq> set metadata_names \<union> set (List.map fst (md_extra m))"
  by (auto simp: metadata_members_def metadata_names_def opt_json_def split: option.splits if_splits)

lemma metadata_members_extra:
  "metadata_members m = metadata_members (m\<lparr>md_extra := []\<rparr>) @ md_extra m"
  by (simp add: metadata_members_def)

text \<open>A member of the published document: one of the record, or one of the extensions.\<close>

lemma metadata_to_json_member:
  assumes "bt_ok (md_extra m)" and "set (List.map fst (md_extra m)) \<inter> set metadata_names = {}"
  shows "json_get (metadata_to_json m) k =
    (if k \<in> set metadata_names then map_of (rev (metadata_members (m\<lparr>md_extra := []\<rparr>))) k else map_of (md_extra m) k)"
proof -
  let ?f = "metadata_members (m\<lparr>md_extra := []\<rparr>)"
  have e: "map_of (rev (md_extra m)) = map_of (md_extra m)"
    using bt_ok_distinct [OF assms(1)] by (intro map_of_inject_set [THEN iffD2]) (simp_all add: rev_map [symmetric])
  have "k \<in> set metadata_names \<Longrightarrow> map_of (md_extra m) k = None"
    using assms(2) by (auto simp: map_of_eq_None_iff)
  moreover have "k \<notin> set metadata_names \<Longrightarrow> map_of (rev ?f) k = None"
    using metadata_members_names [of "m\<lparr>md_extra := []\<rparr>"] by (auto simp: map_of_eq_None_iff)
  moreover have "json_get (metadata_to_json m) k = map_of (rev (?f @ md_extra m)) k"
    unfolding metadata_to_json_get by (subst metadata_members_extra) (rule refl)
  ultimately show ?thesis by (simp add: e map_add_def split: option.splits)
qed

lemma metadata_reads_back:
  assumes "bt_ok (md_extra m)" and "set (List.map fst (md_extra m)) \<inter> set metadata_names = {}"
  shows "metadata_from_json (metadata_to_json m) = Some m"
proof -
  note get = metadata_to_json_member [OF assms]
  have "metadata_extra (metadata_to_json m) = md_extra m"
  proof (rule bt_ok_unique)
    show "bt_ok (metadata_extra (metadata_to_json m))"
      by (simp add: metadata_extra_def metadata_to_json_def bt_ok_filter bt_ok_insert_all)
    have "map_of (metadata_extra (metadata_to_json m)) k = map_of (md_extra m) k" for k
    proof (cases "k \<in> set metadata_names")
      case True
      then have "map_of (md_extra m) k = None" using assms(2) by (auto simp: map_of_eq_None_iff)
      with True show ?thesis by (simp add: metadata_extra_def metadata_to_json_def map_of_filter_key)
    next
      case False
      with get [of k] show ?thesis by (simp add: metadata_extra_def metadata_to_json_def map_of_filter_key)
    qed
    then show "map_of (metadata_extra (metadata_to_json m)) = map_of (md_extra m)" by blast
  qed (rule assms(1))
  then show ?thesis
    unfolding metadata_from_json_def str_field_def opt_str_field_def strings_field_def bool_field_def get
    by (cases m) (simp add: metadata_names_def metadata_members_def opt_json_def json_strings_def comp_def split: option.splits)
qed

text \<open>
  The discovery document a provider publishes reads back, at a relying party, as the metadata it
  was written from, provided the extension members use none of the names of the record.
\<close>

theorem metadata_roundtrip:
  assumes "bt_ok (md_extra m)" and "set (List.map fst (md_extra m)) \<inter> set metadata_names = {}"
  shows "metadata_from_json (metadata_to_json m) = Some m"
  using assms by (rule metadata_reads_back)

definition sample_metadata :: provider_metadata where
  "sample_metadata = (metadata_new ''https://op'' ''https://op'')\<lparr>md_extra := [(''x'', JBool True)]\<rparr>"

theorem metadata_roundtrip_witness:
  "metadata_from_json (metadata_to_json sample_metadata) = Some sample_metadata"
  by (rule metadata_roundtrip) (simp_all add: sample_metadata_def bt_ok_def metadata_names_def)

section \<open>A concrete discovery\<close>

definition sample_http :: "http_fetch_response \<Rightarrow> 'w http_client" where
  "sample_http resp = \<lparr>hc_get = (\<lambda>_. retP resp), hc_post_form = (\<lambda>_ _ _. retP resp),
     hc_get_with_headers = default_get_with_headers\<rparr>"

lemma sample_metadata_info: "provider_info_from sample_metadata = sample_info"
  by (simp add: provider_info_from_def sample_metadata_def metadata_new_def sample_info_def trim_end_matches_def Let_def)

lemma sample_metadata_norm: "json_norm (metadata_to_json sample_metadata) = metadata_to_json sample_metadata"
  by code_simp

lemma sample_metadata_fetched:
  "fetch_json (rp_platform clock [metadata_to_json sample_metadata]) ''ProviderMetadata'' metadata_from_json
     (fetch_response_new 200 []) = Inr sample_metadata"
proof -
  have "metadata_from_json (metadata_to_json sample_metadata) = Some sample_metadata"
    by (rule metadata_reads_back) (simp_all add: sample_metadata_def bt_ok_def metadata_names_def)
  moreover have "json_from_slice (rp_platform clock [metadata_to_json sample_metadata]) [] = Inr (metadata_to_json sample_metadata)"
    by (simp add: rp_platform_def sample_platform_def sample_metadata_norm)
  ultimately show ?thesis by (simp add: fetch_json_def fetch_value_def fetch_response_new_def)
qed

theorem discover_binds_issuer_witness:
  "\<exists>r. discover_response (rp_platform still [metadata_to_json sample_metadata]) (sample_http (fetch_response_new 200 []))
     ''https://op'' () = (Inr r, ()) \<and>
   list_all (safe_url (rp_platform still [metadata_to_json sample_metadata]) ''https://op'')
     (provider_urls (provider_info_from (dr_metadata r)))"
proof -
  let ?P = "rp_platform still [metadata_to_json sample_metadata]"
  have "validate_issuer ?P (pi_issuer sample_info) = Inr ()"
    using sample_info_valid [of still] by (simp add: provider_info_validate_def result_simps)
  then have "validate_issuer ?P ''https://op'' = Inr ()" by (simp add: sample_info_def)
  moreover have "md_issuer sample_metadata = ''https://op''" by (simp add: sample_metadata_def metadata_new_def Let_def)
  ultimately have d: "discover_response ?P (sample_http (fetch_response_new 200 [])) ''https://op'' () =
      (Inr \<lparr>dr_metadata = sample_metadata, dr_response = fetch_response_new 200 []\<rparr>, ())"
    by (simp add: discover_response_ok sample_http_def sample_metadata_fetched sample_metadata_info sample_info_valid)
      (simp add: fetch_response_new_def)
  from discover_binds_issuer [OF d] d show ?thesis by blast
qed

end
