(* ===== verification/Jose_Contract.thy ===== *)
theory Jose_Contract
  imports Tokens
begin

text \<open>
  What is assumed of \<^verbatim>\<open>jose-rs\<close>.  In one direction, what a successful decode means: the claims meet the validation
  and were in time at the reading of the clock the decoder made.  In the other, what decodes: a token right after
  it was signed, under a validation its claims meet, at a second at which they are valid.  Both are what the
  sources rely on (the comments of \<^verbatim>\<open>verify_private_key_jwt\<close> in \<^verbatim>\<open>src/provider.rs\<close>, the options in
  \<^verbatim>\<open>src/rp.rs\<close>); an expired token is accepted by neither.
\<close>

section \<open>What a decode means\<close>

definition claims_meet :: "validation \<Rightarrow> claims \<Rightarrow> bool" where
  "claims_meet v c \<longleftrightarrow>
     (case v_issuer v of Some i \<Rightarrow> c_iss c = Some i | None \<Rightarrow> True) \<and>
     (case v_audience v of
        Some a \<Rightarrow> (case c_aud c of Some x \<Rightarrow> aud_contains x a | None \<Rightarrow> False) | None \<Rightarrow> True) \<and>
     (v_require_exp v \<longrightarrow> c_exp c \<noteq> None) \<and> (v_require_iat v \<longrightarrow> c_iat c \<noteq> None)"

definition jose_validates :: "'w platform \<Rightarrow> bool" where
  "jose_validates P \<longleftrightarrow> (\<forall>ks t v w c w'. jwt_decode_with_jwkset P ks t v w = (Inr c, w') \<longrightarrow> claims_meet v c)"

text \<open>
  At second \<open>t\<close> the claims have not expired: \<open>t\<close> is strictly before \<^verbatim>\<open>exp\<close> plus leeway (a fractional \<^verbatim>\<open>exp\<close> counts to the
  next second) and, when there is a maximum age, not past \<^verbatim>\<open>iat\<close> plus that age plus leeway.
\<close>

definition exp_second :: "numeric_date \<Rightarrow> nat" where
  "exp_second d = unat (as_secs d) + (if 0 < subsec_nanos d then 1 else 0)"

definition timely :: "validation \<Rightarrow> claims \<Rightarrow> u64 \<Rightarrow> bool" where
  "timely v c t \<longleftrightarrow>
     (\<forall>exp. c_exp c = Some exp \<longrightarrow> unat t < exp_second exp + unat (v_leeway v)) \<and>
     (\<forall>iat m. c_iat c = Some iat \<longrightarrow> v_max_age v = Some m \<longrightarrow> unat t \<le> unat (as_secs iat) + unat m + unat (v_leeway v))"

text \<open>The decoder reads the clock once.\<close>

definition jose_checks_time :: "'w platform \<Rightarrow> bool" where
  "jose_checks_time P \<longleftrightarrow> (\<forall>ks t v w c w'. jwt_decode_with_jwkset P ks t v w = (Inr c, w') \<longrightarrow>
     (\<exists>now. now_secs P w = (now, w') \<and> timely v c now))"

section \<open>What decodes\<close>

text \<open>
  Claims that are written and read back as they are: whole seconds, and a well-formed map beside the registered
  claims, which it does not repeat.
\<close>

definition registered_names :: "string set" where
  "registered_names = {''iss'', ''sub'', ''aud'', ''exp'', ''nbf'', ''iat'', ''jti''}"

definition writable :: "claims \<Rightarrow> bool" where
  "writable c \<longleftrightarrow> claims_normal (c_extra c) \<and> (\<forall>k \<in> registered_names. map_of (c_extra c) k = None) \<and>
     (\<forall>d. d \<in> {c_exp c, c_nbf c, c_iat c} \<longrightarrow> pred_option (\<lambda>n. subsec_nanos n = 0) d)"

text \<open>\<open>current v c t\<close>: at second \<open>t\<close> the claims are valid without any leeway.\<close>

definition current :: "validation \<Rightarrow> claims \<Rightarrow> u64 \<Rightarrow> bool" where
  "current v c t \<longleftrightarrow> (\<forall>d. c_exp c = Some d \<longrightarrow> t < as_secs d) \<and> (\<forall>d. c_nbf c = Some d \<longrightarrow> as_secs d \<le> t) \<and>
     (\<forall>d. c_iat c = Some d \<longrightarrow> as_secs d \<le> t \<and> (\<forall>m. v_max_age v = Some m \<longrightarrow> unat t \<le> unat (as_secs d) + unat m))"

lemma current_timely: "current v c t \<Longrightarrow> timely v c t"
  by (fastforce simp: current_def timely_def exp_second_def word_less_nat_alt)

text \<open>Claims with a lifetime are current from the second they were made until it has passed.\<close>

lemma lifetime_current:
  assumes "c_iat c = Some (date_of_secs t0)" and "c_exp c = Some (date_of_secs (t0 + ttl))" and "c_nbf c = None"
    and "t0 \<le> t" and "unat t < unat t0 + unat ttl" and "unat t0 + unat ttl < 2 ^ 64"
    and "\<And>m. v_max_age v = Some m \<Longrightarrow> unat t \<le> unat t0 + unat m"
  shows "current v c t"
proof -
  have "unat (t0 + ttl) = unat t0 + unat ttl" using assms(6) by (simp add: unat_word_ariths)
  then show ?thesis using assms by (simp add: current_def date_of_secs_def word_less_nat_alt)
qed

text \<open>The header \<^verbatim>\<open>jwt::sign\<close> writes without a type, and the validations under which the claims decode by their names.\<close>

definition own_header :: "signing_key \<Rightarrow> jose_header" where
  "own_header key = \<lparr>h_alg = alg_str (sk_alg key), h_typ = None, h_kid = sk_kid key, h_jwk = None\<rparr>"

definition accepts_for :: "validation \<Rightarrow> signing_key \<Rightarrow> claims \<Rightarrow> bool" where
  "accepts_for v key c \<longleftrightarrow> claims_meet v c \<and> (v_subject v = None \<or> v_subject v = c_sub c) \<and> v_typ v = None \<and>
     (v_require_kid v \<longrightarrow> sk_kid key \<noteq> None) \<and>
     (case v_algs v of Some algs \<Rightarrow> sk_alg key \<in> set algs | None \<Rightarrow> True)"

text \<open>
  For a key and a key set that holds its public part: the header of a token just signed reads back, and at a
  second at which the claims are valid, under any validation they meet, the token decodes to them.
\<close>

definition verifies_fresh :: "'w platform \<Rightarrow> signing_key \<Rightarrow> jwk_set \<Rightarrow> bool" where
  "verifies_fresh P key jwks \<longleftrightarrow>
     (\<forall>c w tok w'. jwt_encode P (sk_signer key) (own_header key) c w = (Inr tok, w') \<longrightarrow> writable c \<longrightarrow>
        jws_decode_header P tok = Inr (own_header key) \<and>
        (\<forall>v now w2. accepts_for v key c \<longrightarrow> now_secs P w' = (now, w2) \<longrightarrow> current v c now \<longrightarrow>
           jwt_decode_with_jwkset P jwks tok v w' = (Inr c, w2)))"

text \<open>A new validation restricts nothing.\<close>

definition plain_validation :: "'w platform \<Rightarrow> bool" where
  "plain_validation P \<longleftrightarrow> v_audience (validation_new P) = None \<and> v_subject (validation_new P) = None \<and>
     v_typ (validation_new P) = None \<and> v_algs (validation_new P) = None \<and> v_max_age (validation_new P) = None \<and>
     \<not> v_require_kid (validation_new P)"

lemma verifies_freshD:
  assumes "verifies_fresh P key jwks" and "jwt_sign P key c None w = (Inr tok, w')" and "writable c"
  shows "peek_header P tok = Inr (own_header key)"
    and "accepts_for v key c \<Longrightarrow> now_secs P w' = (now, w2) \<Longrightarrow> current v c now \<Longrightarrow>
      verify_with_jwks P jwks tok v w' = (Inr c, w2)"
proof -
  have "jwt_encode P (sk_signer key) (own_header key) c w = (Inr tok, w')"
    using assms(2) by (simp add: jwt_sign_def own_header_def mapErrP_ok)
  with assms(1,3) have "jws_decode_header P tok = Inr (own_header key)"
      "accepts_for v key c \<Longrightarrow> now_secs P w' = (now, w2) \<Longrightarrow> current v c now \<Longrightarrow>
        jwt_decode_with_jwkset P jwks tok v w' = (Inr c, w2)"
    unfolding verifies_fresh_def by blast+
  then show "peek_header P tok = Inr (own_header key)"
      "accepts_for v key c \<Longrightarrow> now_secs P w' = (now, w2) \<Longrightarrow> current v c now \<Longrightarrow>
        verify_with_jwks P jwks tok v w' = (Inr c, w2)"
    by (simp_all add: peek_header_def verify_with_jwks_def mapErrP_def)
qed

lemma jose_validatesD:
  "jose_validates (P :: 'w platform) \<Longrightarrow> verify_with_jwks P ks t v w = (Inr c, w') \<Longrightarrow> claims_meet v c"
  unfolding jose_validates_def verify_with_jwks_def mapErrP_ok by blast

lemma jose_checks_timeD:
  "jose_checks_time P \<Longrightarrow> verify_with_jwks P ks t v w = (Inr c, w') \<Longrightarrow> \<exists>now. now_secs P w = (now, w') \<and> timely v c now"
  unfolding jose_checks_time_def verify_with_jwks_def mapErrP_ok by blast

end
