(* ===== verification/Id_Token.thy ===== *)
theory Id_Token
  imports Upstream Jose_Contract
begin

text \<open>
  \<^verbatim>\<open>src/rp.rs\<close>, third part: verification of ID tokens and of signed UserInfo responses.  The signature
  and the registered claims are checked by \<^verbatim>\<open>jose-rs\<close> under the \<^verbatim>\<open>Validation\<close> built here; everything
  beyond is in these definitions.
\<close>

section \<open>Options\<close>

definition DEFAULT_LEEWAY :: u64 where "DEFAULT_LEEWAY = 60"
definition MAX_ID_TOKEN_LEEWAY :: u64 where "MAX_ID_TOKEN_LEEWAY = 300"

record id_token_options =
  io_leeway :: "u64 option"
  io_max_age :: "u64 option"
  io_acr_values :: "string list option"
  io_access_token :: "string option"
  io_require_at_hash :: bool
  io_authorization_code :: "string option"
  io_require_c_hash :: bool
  io_allow_unchecked_hashes :: bool

definition id_token_options_new :: id_token_options where
  "id_token_options_new = \<lparr>io_leeway = None, io_max_age = None, io_acr_values = None, io_access_token = None,
     io_require_at_hash = False, io_authorization_code = None, io_require_c_hash = False,
     io_allow_unchecked_hashes = False\<rparr>"

definition with_leeway :: "u64 \<Rightarrow> id_token_options \<Rightarrow> id_token_options" where
  "with_leeway seconds opts = opts\<lparr>io_leeway := Some seconds\<rparr>"

definition with_max_age :: "u64 \<Rightarrow> id_token_options \<Rightarrow> id_token_options" where
  "with_max_age seconds opts = opts\<lparr>io_max_age := Some seconds\<rparr>"

definition with_acr_values :: "string list \<Rightarrow> id_token_options \<Rightarrow> id_token_options" where
  "with_acr_values values opts = opts\<lparr>io_acr_values := Some values\<rparr>"

definition with_access_token :: "string \<Rightarrow> id_token_options \<Rightarrow> id_token_options" where
  "with_access_token token opts = opts\<lparr>io_access_token := Some token\<rparr>"

definition with_required_at_hash :: "id_token_options \<Rightarrow> id_token_options" where
  "with_required_at_hash opts = opts\<lparr>io_require_at_hash := True\<rparr>"

definition with_authorization_code :: "string \<Rightarrow> id_token_options \<Rightarrow> id_token_options" where
  "with_authorization_code code opts = opts\<lparr>io_authorization_code := Some code\<rparr>"

definition with_required_c_hash :: "id_token_options \<Rightarrow> id_token_options" where
  "with_required_c_hash opts = opts\<lparr>io_require_c_hash := True\<rparr>"

definition allow_unchecked_hashes :: "id_token_options \<Rightarrow> id_token_options" where
  "allow_unchecked_hashes opts = opts\<lparr>io_allow_unchecked_hashes := True\<rparr>"

section \<open>The checks\<close>

definition ensure_kid_names_key :: "jwk_set \<Rightarrow> string option \<Rightarrow> string \<Rightarrow> (error, unit) result" where
  "ensure_kid_names_key jwks kid what =
     (case kid of
        Some k \<Rightarrow> ensure (list_ex (\<lambda>key. jwk_kid key = Some k) jwks)
                    (Authn (what @ '' kid does not name a key in the JWK Set''))
      | None \<Rightarrow> Inr ())"

definition auth_time_secs :: "json \<Rightarrow> (error, u64) result" where
  "auth_time_secs v =
     (case v of
        JPosInt n \<Rightarrow> Inr n
      | JFloat m e \<Rightarrow> if 0 \<le> m then Inr (float_as_u64 m e) else Inl (Authn ''id_token auth_time is not a valid number'')
      | _ \<Rightarrow> Inl (Authn ''id_token auth_time is not a valid number''))"

definition check_token_hash ::
    "'w platform \<Rightarrow> claims \<Rightarrow> string \<Rightarrow> string \<Rightarrow> string option \<Rightarrow> bool \<Rightarrow> bool \<Rightarrow> (error, unit) result" where
  "check_token_hash P claims id_token claim val required allow_unchecked =
     (let present = bt_get (c_extra claims) claim in
      res_bind (ensure (\<not> (required \<and> present = None)) (Authn (''id_token missing '' @ claim))) (\<lambda>_.
      res_bind (ensure (\<not> (val = None \<and> present \<noteq> None \<and> \<not> allow_unchecked))
        (Authn (''id_token carries '' @ claim @ '' but no value was supplied to verify it against; pass it, or use allow_unchecked_hashes''))) (\<lambda>_.
      case (val, present) of
        (Some v, Some j) \<Rightarrow>
          res_bind (ok_or (as_str j) (Authn (''id_token '' @ claim @ '' is not a string''))) (\<lambda>claimed.
          res_bind (peek_header P id_token) (\<lambda>header.
          res_bind (map_err Jose (alg_from_str P (h_alg header))) (\<lambda>alg.
          res_bind (oidc_token_hash P alg v) (\<lambda>expected.
          ensure (ct_eq P expected claimed) (Authn (''id_token '' @ claim @ '' mismatch''))))))
      | _ \<Rightarrow> Inr ())))"

fun audience_loop :: "string \<Rightarrow> string list \<Rightarrow> string set \<Rightarrow> string list \<Rightarrow> (error, unit) result" where
  "audience_loop client_id trusted seen [] = Inr ()"
| "audience_loop client_id trusted seen (a # as) =
     (if a \<in> seen then Inl (Authn ''id_token contains duplicate audiences'')
      else if a \<noteq> client_id \<and> a \<notin> set trusted
      then Inl (Authn (''id_token contains untrusted audience: '' @ display_safe a))
      else audience_loop client_id trusted (insert a seen) as)"

definition azp_str :: "claims \<Rightarrow> string option" where
  "azp_str claims = Option.bind (bt_get (c_extra claims) ''azp'') as_str"

definition check_audience :: "string \<Rightarrow> string list \<Rightarrow> claims \<Rightarrow> (error, unit) result" where
  "check_audience client_id trusted claims =
     res_bind
       (case c_aud claims of
          Some (Multiple values) \<Rightarrow>
            res_bind (audience_loop client_id trusted {} values) (\<lambda>_.
            ensure (\<not> (1 < length values \<and> azp_str claims \<noteq> Some client_id))
              (Authn ''multi-audience id_token requires azp equal to client_id''))
        | _ \<Rightarrow> Inr ()) (\<lambda>_.
     ensure (bt_get (c_extra claims) ''azp'' = None \<or> azp_str claims = Some client_id)
       (Authn ''id_token azp mismatch''))"

definition check_expected_nonce :: "string option \<Rightarrow> claims \<Rightarrow> (error, unit) result" where
  "check_expected_nonce expected_nonce claims =
     (case expected_nonce of
        Some nonce \<Rightarrow> ensure (Option.bind (bt_get (c_extra claims) ''nonce'') as_str = Some nonce)
                        (Authn ''id_token nonce mismatch'')
      | None \<Rightarrow> Inr ())"

definition check_auth_time ::
    "'w platform \<Rightarrow> id_token_options \<Rightarrow> claims \<Rightarrow> ('w, error, unit) prog" where
  "check_auth_time P options claims =
     (case io_max_age options of
        None \<Rightarrow> retP ()
      | Some max_age \<Rightarrow>
          let leeway = (case io_leeway options of Some l \<Rightarrow> l | None \<Rightarrow> DEFAULT_LEEWAY) in
          bindP (liftR (res_bind (ok_or (bt_get (c_extra claims) ''auth_time'')
            (Authn ''id_token missing auth_time required by max_age'')) auth_time_secs)) (\<lambda>auth_time.
          bindP (effP (now_secs P)) (\<lambda>now.
          guardP (\<not> saturating_add auth_time max_age < now) (Authn ''id_token auth_time is older than max_age'') (
          guardP (\<not> saturating_add now leeway < auth_time) (Authn ''id_token auth_time is in the future'') (
          retP ())))))"

definition check_acr :: "string list option \<Rightarrow> claims \<Rightarrow> (error, unit) result" where
  "check_acr acr_values claims =
     (case acr_values of
        None \<Rightarrow> Inr ()
      | Some allowed \<Rightarrow>
          ensure (case Option.bind (bt_get (c_extra claims) ''acr'') as_str of Some acr \<Rightarrow> acr \<in> set allowed | None \<Rightarrow> False)
            (Authn ''id_token acr missing or not in the accepted list''))"

definition check_id_token_config :: "jws_algorithm list \<Rightarrow> id_token_options \<Rightarrow> (error, unit) result" where
  "check_id_token_config allowed_algorithms options =
     res_bind (ensure (allowed_algorithms \<noteq> [])
       (BadRequest ''at least one allowed id_token signing algorithm is required'')) (\<lambda>_.
     res_bind (ensure (\<not> (io_require_at_hash options \<and> io_access_token options = None))
       (BadRequest ''require_at_hash needs an access_token to check against'')) (\<lambda>_.
     res_bind (ensure (\<not> (io_require_c_hash options \<and> io_authorization_code options = None))
       (BadRequest ''require_c_hash needs an authorization_code to check against'')) (\<lambda>_.
     res_bind (ensure (case io_leeway options of Some l \<Rightarrow> \<not> MAX_ID_TOKEN_LEEWAY < l | None \<Rightarrow> True)
       (BadRequest ''id_token leeway must be at most 300 seconds'')) (\<lambda>_.
     ensure (io_acr_values options \<noteq> Some []) (BadRequest ''acr_values must not be empty when set'')))))"

definition id_token_validation ::
    "'w platform \<Rightarrow> string \<Rightarrow> string \<Rightarrow> jws_algorithm list \<Rightarrow> id_token_options \<Rightarrow> jwk_set \<Rightarrow> validation" where
  "id_token_validation P issuer client_id allowed_algorithms options jwks =
     (let v = (validation_new P)\<lparr>v_issuer := Some issuer, v_audience := Some client_id, v_require_exp := True,
            v_require_iat := True, v_algs := Some allowed_algorithms\<rparr>;
          v = (case io_leeway options of Some l \<Rightarrow> v\<lparr>v_leeway := l\<rparr> | None \<Rightarrow> v)
      in if 1 < length jwks then v\<lparr>v_require_kid := True\<rparr> else v)"

definition verify_id_token_with ::
    "'w platform \<Rightarrow> jwk_set \<Rightarrow> string \<Rightarrow> string \<Rightarrow> string \<Rightarrow> string option \<Rightarrow> jws_algorithm list \<Rightarrow> string list \<Rightarrow>
     id_token_options \<Rightarrow> ('w, error, claims) prog" where
  "verify_id_token_with P jwks id_token issuer client_id expected_nonce allowed_algorithms trusted options =
     bindP (liftR (check_id_token_config allowed_algorithms options)) (\<lambda>_.
     bindP (liftR (peek_header P id_token)) (\<lambda>header.
     guardP (\<not> (1 < length jwks \<and> h_kid header = None))
       (Authn ''id_token has no kid but the JWK Set has several keys'') (
     bindP (liftR (ensure_kid_names_key jwks (h_kid header) ''id_token'')) (\<lambda>_.
     bindP (verify_with_jwks P jwks id_token
       (id_token_validation P issuer client_id allowed_algorithms options jwks)) (\<lambda>claims.
     guardP (c_sub claims \<noteq> None \<and> c_sub claims \<noteq> Some []) (Authn ''id_token missing sub'') (
     bindP (liftR (check_audience client_id trusted claims)) (\<lambda>_.
     bindP (liftR (check_expected_nonce expected_nonce claims)) (\<lambda>_.
     bindP (check_auth_time P options claims) (\<lambda>_.
     bindP (liftR (check_acr (io_acr_values options) claims)) (\<lambda>_.
     bindP (liftR (check_token_hash P claims id_token ''at_hash'' (io_access_token options)
       (io_require_at_hash options) (io_allow_unchecked_hashes options))) (\<lambda>_.
     bindP (liftR (check_token_hash P claims id_token ''c_hash'' (io_authorization_code options)
       (io_require_c_hash options) (io_allow_unchecked_hashes options))) (\<lambda>_.
     retP claims))))))))))))"

definition verify_id_token ::
    "'w platform \<Rightarrow> jwk_set \<Rightarrow> string \<Rightarrow> string \<Rightarrow> string \<Rightarrow> string option \<Rightarrow> jws_algorithm list \<Rightarrow> string list \<Rightarrow>
     ('w, error, claims) prog" where
  "verify_id_token P jwks id_token issuer client_id expected_nonce allowed_algorithms trusted =
     verify_id_token_with P jwks id_token issuer client_id expected_nonce allowed_algorithms trusted
       (allow_unchecked_hashes id_token_options_new)"

section \<open>Signed UserInfo\<close>

definition normalized_typ :: "string \<Rightarrow> string" where
  "normalized_typ t =
     (let t' = to_ascii_lowercase (str_trim (hd (split_char (CHR '';'') t)))
      in case strip_prefix ''application/'' t' of Some r \<Rightarrow> r | None \<Rightarrow> t')"

definition DEFAULT_USERINFO_JWT_MAX_AGE :: u64 where "DEFAULT_USERINFO_JWT_MAX_AGE = 300"

datatype userinfo_trust = Typed string | DedicatedKeys | UntypedSharedKey

record userinfo_jwt_options =
  uo_require_exp :: bool
  uo_max_age :: "u64 option"
  uo_allow_missing_kid :: bool
  uo_trust :: userinfo_trust

definition with_trust :: "userinfo_trust \<Rightarrow> userinfo_jwt_options" where
  "with_trust t = \<lparr>uo_require_exp = False, uo_max_age = Some DEFAULT_USERINFO_JWT_MAX_AGE,
     uo_allow_missing_kid = False, uo_trust = t\<rparr>"

definition uo_typed :: "string \<Rightarrow> userinfo_jwt_options" where
  "uo_typed t = with_trust (Typed t)"

definition uo_dedicated_keys :: userinfo_jwt_options where
  "uo_dedicated_keys = with_trust DedicatedKeys"

definition uo_untyped_shared_key_compat :: userinfo_jwt_options where
  "uo_untyped_shared_key_compat = with_trust UntypedSharedKey"

definition allow_missing_kid :: "userinfo_jwt_options \<Rightarrow> userinfo_jwt_options" where
  "allow_missing_kid opts = opts\<lparr>uo_allow_missing_kid := True\<rparr>"

definition with_require_exp :: "userinfo_jwt_options \<Rightarrow> userinfo_jwt_options" where
  "with_require_exp opts = opts\<lparr>uo_require_exp := True\<rparr>"

definition uo_with_max_age :: "u64 \<Rightarrow> userinfo_jwt_options \<Rightarrow> userinfo_jwt_options" where
  "uo_with_max_age seconds opts = opts\<lparr>uo_max_age := Some seconds\<rparr>"

definition without_max_age :: "userinfo_jwt_options \<Rightarrow> userinfo_jwt_options" where
  "without_max_age opts = opts\<lparr>uo_max_age := None\<rparr>"

definition media_type :: "http_fetch_response \<Rightarrow> string option" where
  "media_type resp =
     map_option (\<lambda>ct. str_trim (hd (split_char (CHR '';'') ct)))
       (case hf_content_type resp of Some ct \<Rightarrow> Some ct | None \<Rightarrow> fetch_header resp ''content-type'')"

definition is_jwt_response :: "http_fetch_response \<Rightarrow> bool" where
  "is_jwt_response resp =
     (case media_type resp of Some ct \<Rightarrow> eq_ignore_ascii_case ct ''application/jwt'' | None \<Rightarrow> False)"

definition audience_is_exactly :: "string \<Rightarrow> claims \<Rightarrow> bool" where
  "audience_is_exactly client_id claims =
     (case c_aud claims of
        Some (Single a) \<Rightarrow> a = client_id
      | Some (Multiple values) \<Rightarrow> values = [client_id]
      | None \<Rightarrow> False)"

definition userinfo_validation ::
    "'w platform \<Rightarrow> string \<Rightarrow> string \<Rightarrow> jws_algorithm list \<Rightarrow> bool \<Rightarrow> userinfo_jwt_options \<Rightarrow> (error, validation) result" where
  "userinfo_validation P issuer client_id allowed_algorithms require_kid options =
     (let v = (validation_new P)\<lparr>v_issuer := Some issuer, v_audience := Some client_id, v_algs := Some allowed_algorithms\<rparr>;
          v = (if require_kid then v\<lparr>v_require_kid := True\<rparr> else v);
          v = (if uo_require_exp options then v\<lparr>v_require_exp := True\<rparr> else v);
          v = (case uo_max_age options of Some m \<Rightarrow> v\<lparr>v_max_age := Some m\<rparr> | None \<Rightarrow> v)
      in case uo_trust options of
           Typed t \<Rightarrow>
             if normalized_typ t \<in> {'''', ''jwt'', ''id_token+jwt'', ''at+jwt''}
             then Inl (BadRequest ''typ must identify UserInfo specifically'')
             else Inr (v\<lparr>v_typ := Some t\<rparr>)
         | _ \<Rightarrow> Inr v)"

definition looks_like_token :: "jose_header \<Rightarrow> claims \<Rightarrow> bool" where
  "looks_like_token header claims \<longleftrightarrow>
     (case h_typ header of Some t \<Rightarrow> normalized_typ t \<in> {''id_token+jwt'', ''at+jwt''} | None \<Rightarrow> False) \<or>
     list_ex (\<lambda>k. bt_contains_key k (c_extra claims)) [''nonce'', ''at_hash'', ''c_hash'']"

definition userinfo_signed_claims ::
    "'w platform \<Rightarrow> jwk_set \<Rightarrow> http_fetch_response \<Rightarrow> string \<Rightarrow> string \<Rightarrow> string \<Rightarrow> jws_algorithm list \<Rightarrow>
     userinfo_jwt_options \<Rightarrow> ('w, error, json) prog" where
  "userinfo_signed_claims P jwks resp issuer client_id expected_sub allowed_algorithms options =
     guardP (allowed_algorithms \<noteq> []) (BadRequest ''at least one allowed userinfo signing algorithm is required'') (
     guardP (is_jwt_response resp) (Authn ''signed userinfo must be served as application/jwt'') (
     let token = str_trim (fetch_text resp);
         require_kid = (1 < length jwks \<or> \<not> uo_allow_missing_kid options) in
     bindP (liftR (peek_header P token)) (\<lambda>header.
     guardP (\<not> (require_kid \<and> h_kid header = None))
       (Authn (if 1 < length jwks then ''signed userinfo has no kid but the JWK Set has several keys''
               else ''signed userinfo has no kid; use UserinfoJwtOptions::allow_missing_kid for an OP that publishes a single key without kid'')) (
     bindP (liftR (ensure_kid_names_key jwks (h_kid header) ''signed userinfo'')) (\<lambda>_.
     bindP (liftR (userinfo_validation P issuer client_id allowed_algorithms require_kid options)) (\<lambda>validation.
     bindP (verify_with_jwks P jwks token validation) (\<lambda>claims.
     guardP (audience_is_exactly client_id claims)
       (Authn ''signed userinfo audience must be exactly the client_id'') (
     guardP (c_sub claims = Some expected_sub)
       (Authn ''userinfo sub does not match the validated id_token subject'') (
     bindP (liftR (peek_header P token)) (\<lambda>header.
     guardP (\<not> looks_like_token header claims)
       (Authn ''signed userinfo carries id_token claims (nonce/at_hash/c_hash); refusing to treat an id_token as UserInfo'') (
     liftR (map_err Json (claims_to_value P claims)))))))))))))"

definition userinfo_json_claims :: "'w platform \<Rightarrow> http_fetch_response \<Rightarrow> string \<Rightarrow> (error, json) result" where
  "userinfo_json_claims P resp expected_sub =
     res_bind (ensure (\<not> is_jwt_response resp)
       (Authn ''userinfo is a signed JWT (application/jwt); use rp::fetch_userinfo_response and rp::userinfo_signed_claims'')) (\<lambda>_.
     res_bind (fetch_value P resp) (\<lambda>claims.
     res_bind (ensure (Option.bind (json_get claims ''sub'') as_str = Some expected_sub)
       (Authn ''userinfo sub does not match the validated id_token subject'')) (\<lambda>_.
     Inr claims)))"


section \<open>What verification gives\<close>

lemma ensure_kid_ok:
  "ensure_kid_names_key jwks kid what = Inr u \<longleftrightarrow>
     (case kid of Some k \<Rightarrow> \<exists>key \<in> set jwks. jwk_kid key = Some k | None \<Rightarrow> True)"
  by (auto simp: ensure_kid_names_key_def list_ex_iff result_simps split: option.splits)

lemma audience_loop_ok:
  "audience_loop cid trusted seen vs = Inr u \<longleftrightarrow>
     distinct vs \<and> set vs \<inter> seen = {} \<and> set vs \<subseteq> insert cid (set trusted)"
  by (induction cid trusted seen vs rule: audience_loop.induct) auto

fun audience_values :: "audience \<Rightarrow> string list" where
  "audience_values (Single a) = [a]"
| "audience_values (Multiple as) = as"

lemma check_audience_ok:
  assumes "check_audience cid trusted claims = Inr u" and "c_aud claims = Some aud" and "aud_contains aud cid"
  shows "distinct (audience_values aud) \<and> cid \<in> set (audience_values aud) \<and>
    set (audience_values aud) \<subseteq> insert cid (set trusted) \<and>
    (1 < length (audience_values aud) \<longrightarrow> azp_str claims = Some cid)"
    and "bt_get (c_extra claims) ''azp'' = None \<or> azp_str claims = Some cid"
  using assms by (cases aud; auto simp: check_audience_def audience_loop_ok result_simps)+

lemma check_expected_nonce_ok:
  "check_expected_nonce n claims = Inr u \<longleftrightarrow>
     (case n of Some nonce \<Rightarrow> bt_get (c_extra claims) ''nonce'' = Some (JString nonce) | None \<Rightarrow> True)"
  by (auto simp: check_expected_nonce_def result_simps bind_eq_Some_conv split: option.splits elim: as_str.elims)

text \<open>\<open>bound_hash P tok claims claim v\<close>: the claim is the hash of \<open>v\<close> under the algorithm of the token.\<close>

definition bound_hash :: "'w platform \<Rightarrow> string \<Rightarrow> claims \<Rightarrow> string \<Rightarrow> string \<Rightarrow> bool" where
  "bound_hash P tok claims claim v \<longleftrightarrow>
     (\<exists>h alg x y. peek_header P tok = Inr h \<and> alg_from_str P (h_alg h) = Inr alg \<and>
        oidc_token_hash P alg v = Inr x \<and> bt_get (c_extra claims) claim = Some (JString y) \<and> ct_eq P x y)"

lemma check_token_hash_ok:
  "check_token_hash P claims tok claim v required unchecked = Inr u \<Longrightarrow>
     (required \<longrightarrow> bt_get (c_extra claims) claim \<noteq> None) \<and>
     (bt_get (c_extra claims) claim \<noteq> None \<longrightarrow>
        (case v of Some x \<Rightarrow> bound_hash P tok claims claim x | None \<Rightarrow> unchecked))"
  by (cases "bt_get (c_extra claims) claim"; cases v)
    (auto simp: check_token_hash_def Let_def result_simps bound_hash_def elim: as_str.elims)

lemma check_auth_time_ok:
  "check_auth_time P opts claims w = (Inr u, w') \<Longrightarrow> io_max_age opts = Some m \<Longrightarrow>
     \<exists>j t now. bt_get (c_extra claims) ''auth_time'' = Some j \<and> auth_time_secs j = Inr t \<and>
       now_secs P w = (now, w') \<and> now \<le> saturating_add t m \<and>
       t \<le> saturating_add now (case io_leeway opts of Some l \<Rightarrow> l | None \<Rightarrow> DEFAULT_LEEWAY)"
  by (auto simp: check_auth_time_def Let_def prog_ok not_less)

lemma check_acr_ok:
  "check_acr vs claims = Inr u \<longleftrightarrow>
     (case vs of Some allowed \<Rightarrow> \<exists>acr \<in> set allowed. bt_get (c_extra claims) ''acr'' = Some (JString acr) | None \<Rightarrow> True)"
  by (auto simp: check_acr_def result_simps bind_eq_Some_conv split: option.splits elim: as_str.elims)

lemma verify_id_token_with_ok:
  assumes "verify_id_token_with P jwks tok issuer cid nonce algs trusted opts w = (Inr claims, w')"
  shows "check_id_token_config algs opts = Inr () \<and>
    (\<exists>h w1. peek_header P tok = Inr h \<and> (1 < length jwks \<longrightarrow> h_kid h \<noteq> None) \<and>
      ensure_kid_names_key jwks (h_kid h) ''id_token'' = Inr () \<and>
      verify_with_jwks P jwks tok (id_token_validation P issuer cid algs opts jwks) w = (Inr claims, w1) \<and>
      c_sub claims \<noteq> None \<and> c_sub claims \<noteq> Some [] \<and>
      check_audience cid trusted claims = Inr () \<and> check_expected_nonce nonce claims = Inr () \<and>
      check_auth_time P opts claims w1 = (Inr (), w') \<and> check_acr (io_acr_values opts) claims = Inr () \<and>
      check_token_hash P claims tok ''at_hash'' (io_access_token opts) (io_require_at_hash opts)
        (io_allow_unchecked_hashes opts) = Inr () \<and>
      check_token_hash P claims tok ''c_hash'' (io_authorization_code opts) (io_require_c_hash opts)
        (io_allow_unchecked_hashes opts) = Inr ())"
  using assms by (auto simp: verify_id_token_with_def prog_ok)

lemma id_token_validation_fields:
  "v_issuer (id_token_validation P i c a o' ks) = Some i" "v_audience (id_token_validation P i c a o' ks) = Some c"
  "v_require_exp (id_token_validation P i c a o' ks)" "v_require_iat (id_token_validation P i c a o' ks)"
  "v_algs (id_token_validation P i c a o' ks) = Some a"
  by (simp_all add: id_token_validation_def Let_def split: option.splits)

text \<open>
  C9.  An ID token is accepted only if \<^verbatim>\<open>jose-rs\<close> verified it against the provider's keys under one of the
  allowed algorithms; its issuer is the expected one; it has an expiry, which had not passed by more than the leeway
  when the token was decoded, and a leeway that was set is at most 300 seconds; its subject is not empty; this client
  is among its audiences, none of which repeats or is untrusted, and is its authorized party when there
  are several (or one is named); it carries the expected nonce; a key set of several keys was searched
  by the key id of the token, and a key id it carries names a key; the authentication is no older than
  \<^verbatim>\<open>max_age\<close> allows, without leeway, not dated ahead by more than the leeway, and of an accepted class; and an access token
  or code given with it is the one its hash claims bind.  The hypotheses are that \<^verbatim>\<open>jose-rs\<close> returns only claims that
  meet the validation and were in time at the clock reading the decoder made.
\<close>

theorem id_token_accepted:
  assumes "verify_id_token_with P jwks tok issuer cid nonce algs trusted opts w = (Inr claims, w')"
    and "jose_validates P" and "jose_checks_time P"
  shows "\<exists>aud h v w1 exp now. jwt_decode_with_jwkset P jwks tok v w = (Inr claims, w1) \<and> v_algs v = Some algs \<and> algs \<noteq> [] \<and>
    now_secs P w = (now, w1) \<and> c_exp claims = Some exp \<and> unat now < exp_second exp + unat (v_leeway v) \<and>
    v_leeway v = (case io_leeway opts of Some l \<Rightarrow> l | None \<Rightarrow> v_leeway (validation_new P)) \<and>
    (\<forall>l. io_leeway opts = Some l \<longrightarrow> l \<le> 300) \<and>
    c_iss claims = Some issuer \<and> c_sub claims \<noteq> None \<and> c_sub claims \<noteq> Some [] \<and>
    c_aud claims = Some aud \<and> distinct (audience_values aud) \<and> cid \<in> set (audience_values aud) \<and>
    set (audience_values aud) \<subseteq> insert cid (set trusted) \<and>
    (1 < length (audience_values aud) \<or> bt_get (c_extra claims) ''azp'' \<noteq> None \<longrightarrow> azp_str claims = Some cid) \<and>
    (\<forall>n. nonce = Some n \<longrightarrow> bt_get (c_extra claims) ''nonce'' = Some (JString n)) \<and>
    peek_header P tok = Inr h \<and> (1 < length jwks \<longrightarrow> h_kid h \<noteq> None) \<and>
    (\<forall>k. h_kid h = Some k \<longrightarrow> (\<exists>key \<in> set jwks. jwk_kid key = Some k)) \<and>
    (\<forall>m. io_max_age opts = Some m \<longrightarrow>
       (\<exists>j t now. bt_get (c_extra claims) ''auth_time'' = Some j \<and> auth_time_secs j = Inr t \<and>
          now_secs P w1 = (now, w') \<and> now \<le> saturating_add t m \<and>
          t \<le> saturating_add now (case io_leeway opts of Some l \<Rightarrow> l | None \<Rightarrow> 60))) \<and>
    (\<forall>vs. io_acr_values opts = Some vs \<longrightarrow> (\<exists>acr \<in> set vs. bt_get (c_extra claims) ''acr'' = Some (JString acr))) \<and>
    (\<forall>a. io_access_token opts = Some a \<and> (io_require_at_hash opts \<or> bt_get (c_extra claims) ''at_hash'' \<noteq> None) \<longrightarrow>
       bound_hash P tok claims ''at_hash'' a) \<and>
    (\<forall>c. io_authorization_code opts = Some c \<and> (io_require_c_hash opts \<or> bt_get (c_extra claims) ''c_hash'' \<noteq> None) \<longrightarrow>
       bound_hash P tok claims ''c_hash'' c)"
proof -
  let ?v = "id_token_validation P issuer cid algs opts jwks"
  obtain h w1 where f: "check_id_token_config algs opts = Inr ()" "peek_header P tok = Inr h"
      "1 < length jwks \<longrightarrow> h_kid h \<noteq> None" "ensure_kid_names_key jwks (h_kid h) ''id_token'' = Inr ()"
      "verify_with_jwks P jwks tok ?v w = (Inr claims, w1)" "c_sub claims \<noteq> None" "c_sub claims \<noteq> Some []"
      "check_audience cid trusted claims = Inr ()" "check_expected_nonce nonce claims = Inr ()"
      "check_auth_time P opts claims w1 = (Inr (), w')" "check_acr (io_acr_values opts) claims = Inr ()"
      and ah: "check_token_hash P claims tok ''at_hash'' (io_access_token opts) (io_require_at_hash opts)
        (io_allow_unchecked_hashes opts) = Inr ()"
      and ch: "check_token_hash P claims tok ''c_hash'' (io_authorization_code opts) (io_require_c_hash opts)
        (io_allow_unchecked_hashes opts) = Inr ()"
    using verify_id_token_with_ok [OF assms(1)] by blast
  have m: "claims_meet ?v claims" by (rule jose_validatesD [OF assms(2) f(5)])
  then obtain aud where aud: "c_aud claims = Some aud" "aud_contains aud cid"
    by (auto simp: claims_meet_def id_token_validation_fields split: option.splits)
  obtain t0 where t0: "now_secs P w = (t0, w1)" "timely ?v claims t0" using jose_checks_timeD [OF assms(3) f(5)] by blast
  have d: "jwt_decode_with_jwkset P jwks tok ?v w = (Inr claims, w1)"
    using f(5) by (simp add: verify_with_jwks_def mapErrP_ok)
  obtain exp where i: "c_iss claims = Some issuer" "c_exp claims = Some exp"
    using m by (auto simp: claims_meet_def id_token_validation_fields)
  have "unat t0 < exp_second exp + unat (v_leeway ?v)" using t0(2) i(2) by (simp add: timely_def)
  moreover have "v_leeway ?v = (case io_leeway opts of Some l \<Rightarrow> l | None \<Rightarrow> v_leeway (validation_new P))"
    by (simp add: id_token_validation_def Let_def split: option.splits)
  moreover have "\<forall>l. io_leeway opts = Some l \<longrightarrow> l \<le> 300"
    using f(1) by (auto simp: check_id_token_config_def result_simps MAX_ID_TOKEN_LEEWAY_def not_less)
  moreover have "algs \<noteq> []" using f(1) by (simp add: check_id_token_config_def result_simps)
  moreover have "\<forall>n. nonce = Some n \<longrightarrow> bt_get (c_extra claims) ''nonce'' = Some (JString n)"
    using f(9) by (auto simp: check_expected_nonce_ok)
  moreover have "\<forall>vs. io_acr_values opts = Some vs \<longrightarrow>
      (\<exists>acr \<in> set vs. bt_get (c_extra claims) ''acr'' = Some (JString acr))"
    using f(11) by (auto simp: check_acr_ok)
  moreover have "\<forall>k. h_kid h = Some k \<longrightarrow> (\<exists>key \<in> set jwks. jwk_kid key = Some k)"
    using f(4) by (auto simp: ensure_kid_ok)
  moreover have "\<forall>m. io_max_age opts = Some m \<longrightarrow>
       (\<exists>j t now. bt_get (c_extra claims) ''auth_time'' = Some j \<and> auth_time_secs j = Inr t \<and>
          now_secs P w1 = (now, w') \<and> now \<le> saturating_add t m \<and>
          t \<le> saturating_add now (case io_leeway opts of Some l \<Rightarrow> l | None \<Rightarrow> 60))"
    using check_auth_time_ok [OF f(10)] unfolding DEFAULT_LEEWAY_def by blast
  moreover have "\<forall>a. io_access_token opts = Some a \<and> (io_require_at_hash opts \<or> bt_get (c_extra claims) ''at_hash'' \<noteq> None) \<longrightarrow>
       bound_hash P tok claims ''at_hash'' a"
    using check_token_hash_ok [OF ah] by auto
  moreover have "\<forall>c. io_authorization_code opts = Some c \<and> (io_require_c_hash opts \<or> bt_get (c_extra claims) ''c_hash'' \<noteq> None) \<longrightarrow>
       bound_hash P tok claims ''c_hash'' c"
    using check_token_hash_ok [OF ch] by auto
  ultimately show ?thesis
    using d i t0(1) f(2,3,6,7) aud(1) check_audience_ok [OF f(8) aud] id_token_validation_fields(5)
    by (intro exI [of _ aud] exI [of _ h] exI [of _ ?v] exI [of _ w1] exI [of _ exp] exI [of _ t0]) auto
qed

section \<open>What an accepted UserInfo response is\<close>

lemma userinfo_validation_ok:
  assumes "userinfo_validation P issuer cid algs rk opts = Inr v"
  shows "v_issuer v = Some issuer \<and> v_audience v = Some cid \<and> v_algs v = Some algs \<and>
    (rk \<longrightarrow> v_require_kid v) \<and> (uo_require_exp opts \<longrightarrow> v_require_exp v) \<and>
    (\<forall>m. uo_max_age opts = Some m \<longrightarrow> v_max_age v = Some m) \<and>
    (\<forall>t. uo_trust opts = Typed t \<longrightarrow> v_typ v = Some t \<and> normalized_typ t \<notin> {'''', ''jwt'', ''id_token+jwt'', ''at+jwt''})"
  using assms
  by (auto simp: userinfo_validation_def Let_def split: option.splits userinfo_trust.splits if_splits)

lemma userinfo_signed_claims_ok:
  assumes "userinfo_signed_claims P jwks resp issuer cid sub algs opts w = (Inr j, w')"
    and "rk = (1 < length jwks \<or> \<not> uo_allow_missing_kid opts)"
  shows "algs \<noteq> [] \<and> is_jwt_response resp \<and>
    (\<exists>h v claims. peek_header P (str_trim (fetch_text resp)) = Inr h \<and> \<not> (rk \<and> h_kid h = None) \<and>
      ensure_kid_names_key jwks (h_kid h) ''signed userinfo'' = Inr () \<and>
      userinfo_validation P issuer cid algs rk opts = Inr v \<and>
      verify_with_jwks P jwks (str_trim (fetch_text resp)) v w = (Inr claims, w') \<and>
      audience_is_exactly cid claims \<and> c_sub claims = Some sub \<and> \<not> looks_like_token h claims \<and>
      claims_to_value P claims = Inr j)"
  using assms(1) unfolding userinfo_signed_claims_def Let_def assms(2) [symmetric] by (auto simp: prog_ok)

text \<open>
  C32.  A signed UserInfo response is accepted only with media type \<^verbatim>\<open>application/jwt\<close>, verified by
  \<^verbatim>\<open>jose-rs\<close> for this issuer, with exactly this client as audience and the subject of the ID token; its
  key id names a key unless a single key without one was allowed; in typed mode its type was required
  and identifies UserInfo; and it is not an ID token or access token: neither its type nor a
  \<^verbatim>\<open>nonce\<close>, \<^verbatim>\<open>at_hash\<close> or \<^verbatim>\<open>c_hash\<close> claim says so.
\<close>

theorem userinfo_signed_accepted:
  assumes "userinfo_signed_claims P jwks resp issuer cid sub algs opts w = (Inr j, w')"
    and "jose_validates P"
  shows "\<exists>claims v h. is_jwt_response resp \<and>
    jwt_decode_with_jwkset P jwks (str_trim (fetch_text resp)) v w = (Inr claims, w') \<and>
    claims_to_value P claims = Inr j \<and>
    v_algs v = Some algs \<and> algs \<noteq> [] \<and> c_iss claims = Some issuer \<and> audience_is_exactly cid claims \<and>
    c_sub claims = Some sub \<and> peek_header P (str_trim (fetch_text resp)) = Inr h \<and>
    (1 < length jwks \<or> \<not> uo_allow_missing_kid opts \<longrightarrow>
       v_require_kid v \<and> (\<exists>key \<in> set jwks. jwk_kid key = h_kid h \<and> h_kid h \<noteq> None)) \<and>
    (\<forall>t. uo_trust opts = Typed t \<longrightarrow> v_typ v = Some t \<and> normalized_typ t \<notin> {'''', ''jwt'', ''id_token+jwt'', ''at+jwt''}) \<and>
    (\<forall>m. uo_max_age opts = Some m \<longrightarrow> v_max_age v = Some m) \<and>
    (\<forall>t. h_typ h = Some t \<longrightarrow> normalized_typ t \<notin> {''id_token+jwt'', ''at+jwt''}) \<and>
    list_all (\<lambda>k. bt_get (c_extra claims) k = None) [''nonce'', ''at_hash'', ''c_hash'']"
proof -
  let ?t = "str_trim (fetch_text resp)"
  let ?rk = "1 < length jwks \<or> \<not> uo_allow_missing_kid opts"
  obtain h v claims where f: "algs \<noteq> []" "is_jwt_response resp" "peek_header P ?t = Inr h"
      "\<not> (?rk \<and> h_kid h = None)" "ensure_kid_names_key jwks (h_kid h) ''signed userinfo'' = Inr ()"
      "userinfo_validation P issuer cid algs ?rk opts = Inr v" "verify_with_jwks P jwks ?t v w = (Inr claims, w')"
      "audience_is_exactly cid claims" "c_sub claims = Some sub" "\<not> looks_like_token h claims"
      "claims_to_value P claims = Inr j"
    using userinfo_signed_claims_ok [OF assms(1) refl] by blast
  note v = userinfo_validation_ok [OF f(6)]
  have "c_iss claims = Some issuer"
    using jose_validatesD [OF assms(2) f(7)] v by (simp add: claims_meet_def)
  moreover have "jwt_decode_with_jwkset P jwks ?t v w = (Inr claims, w')"
    using f(7) by (simp add: verify_with_jwks_def mapErrP_ok)
  moreover have "?rk \<longrightarrow> v_require_kid v \<and> (\<exists>key \<in> set jwks. jwk_kid key = h_kid h \<and> h_kid h \<noteq> None)"
    using v f(4,5) by (auto simp: ensure_kid_ok split: option.splits)
  moreover have "\<forall>t. h_typ h = Some t \<longrightarrow> normalized_typ t \<notin> {''id_token+jwt'', ''at+jwt''}"
    using f(10) by (auto simp: looks_like_token_def)
  moreover have "list_all (\<lambda>k. bt_get (c_extra claims) k = None) [''nonce'', ''at_hash'', ''c_hash'']"
    using f(10) by (simp add: looks_like_token_def bt_contains_key_def)
  ultimately show ?thesis
    using f(1,2,3,8,9,11) v by blast
qed

section \<open>Concrete tokens\<close>

text \<open>A platform on which every token has the header \<open>h\<close> and decodes, when they meet the validation, to the
  claims \<open>c\<close>.\<close>

definition jose_platform :: "jose_header \<Rightarrow> claims \<Rightarrow> unit platform" where
  "jose_platform h c = (sample_platform still [])
     \<lparr>jws_decode_header := (\<lambda>_. Inr h),
      jwt_decode_with_jwkset := (\<lambda>_ _ v. if claims_meet v c then retP c else failP ''claims''),
      claims_to_value := (\<lambda>_. Inr JNull)\<rparr>"

definition op_key :: jwk where
  "op_key = \<lparr>jwk_kty = ''RSA'', jwk_crv = None, jwk_kid = Some ''k1'', jwk_alg = None, jwk_d = None, jwk_priv = None,
     jwk_members = [], jwk_extra = []\<rparr>"

definition op_header :: jose_header where
  "op_header = \<lparr>h_alg = ''RS256'', h_typ = None, h_kid = Some ''k1'', h_jwk = None\<rparr>"

definition login_claims :: "json btree \<Rightarrow> claims" where
  "login_claims extra = claims_default\<lparr>c_iss := Some ''https://op'', c_sub := Some ''alice'',
     c_aud := Some (Single ''rp''), c_exp := Some (date_of_secs 600), c_iat := Some (date_of_secs 0), c_extra := extra\<rparr>"

lemma jose_platform_validates: "jose_validates (jose_platform h c)"
  by (auto simp: jose_validates_def jose_platform_def)

lemma login_claims_timely: "jose_checks_time (jose_platform h (login_claims extra))"
  by (auto simp: jose_checks_time_def jose_platform_def sample_platform_def still_def timely_def exp_second_def login_claims_def
      claims_default_def date_of_secs_def retP_def failP_def)

lemma id_token_sample:
  "verify_id_token_with (jose_platform op_header (login_claims [(''nonce'', JString ''n'')])) [op_key, op_key] ''t''
     ''https://op'' ''rp'' (Some ''n'') [RS256] [] id_token_options_new () =
   (Inr (login_claims [(''nonce'', JString ''n'')]), ())"
  by (simp add: verify_id_token_with_def check_id_token_config_def id_token_options_new_def peek_header_def
      verify_with_jwks_def jose_platform_def op_header_def op_key_def ensure_kid_names_key_def id_token_validation_def Let_def
      login_claims_def claims_default_def claims_meet_def check_audience_def check_expected_nonce_def check_auth_time_def
      check_acr_def check_token_hash_def azp_str_def bindP_def mapErrP_def)

theorem id_token_accepted_witness:
  "\<exists>aud. c_aud (login_claims [(''nonce'', JString ''n'')]) = Some aud \<and> ''rp'' \<in> set (audience_values aud)"
  using id_token_accepted [OF id_token_sample jose_platform_validates login_claims_timely] by blast

lemma userinfo_sample:
  "userinfo_signed_claims (jose_platform op_header (login_claims [])) [op_key]
     (fetch_with_header ''Content-Type'' ''application/jwt'' (fetch_response_new 200 ''t'')) ''https://op'' ''rp'' ''alice'' [RS256]
     uo_dedicated_keys () = (Inr JNull, ())"
proof -
  have "is_jwt_response (fetch_with_header ''Content-Type'' ''application/jwt'' (fetch_response_new 200 ''t''))"
    by code_simp
  then show ?thesis
    by (simp add: userinfo_signed_claims_def peek_header_def verify_with_jwks_def jose_platform_def op_header_def op_key_def
        ensure_kid_names_key_def userinfo_validation_def uo_dedicated_keys_def with_trust_def Let_def login_claims_def
        claims_default_def claims_meet_def audience_is_exactly_def looks_like_token_def bt_contains_key_def bindP_def mapErrP_def
        sample_platform_def)
qed

theorem userinfo_signed_accepted_witness:
  "\<exists>claims. audience_is_exactly ''rp'' claims \<and> c_sub claims = Some ''alice'' \<and> c_iss claims = Some ''https://op''"
  using userinfo_signed_accepted [OF userinfo_sample jose_platform_validates] by blast

end
