(* ===== verification/Assertion_Replay.thy ===== *)
theory Assertion_Replay
  imports Concurrent_Run Id_Token
begin

text \<open>
  A client assertion authenticates one request, also among requests that overlap.  The claims
  decide how long an assertion is acceptable; the replay entry is a redemption in the sense of \<open>Concurrency\<close>, with
  that deadline as its expiry.
\<close>

section \<open>What an assertion says\<close>

lemma acceptable_before_deadline:
  assumes "c_exp claims = Some exp" and "c_iat claims = Some iat"
    and "acceptable_at max_age leeway exp iat t" and "unat (assertion_deadline max_age leeway now claims) < 2 ^ 64 - 1"
  shows "t < unat (assertion_deadline max_age leeway now claims)"
proof -
  have d: "assertion_deadline max_age leeway now claims = min (exp_deadline leeway exp) (age_deadline max_age leeway iat)"
    using assms(1,2) by (simp add: assertion_deadline_def)
  have "t < unat (exp_deadline leeway exp)" if "unat (exp_deadline leeway exp) < 2 ^ 64 - 1"
    using assms(3) that unfolding acceptable_at_def unat_exp_deadline by simp
  moreover have "t < unat (age_deadline max_age leeway iat)" if "unat (age_deadline max_age leeway iat) < 2 ^ 64 - 1"
    using assms(3) that unfolding acceptable_at_def unat_age_deadline by simp
  ultimately show ?thesis using assms(4) unfolding d min_def by (auto split: if_splits)
qed

text \<open>The second from which a provider no longer accepts the assertion, and the key of its replay entry.\<close>

definition assertion_expiry :: "'w platform \<Rightarrow> 'w provider \<Rightarrow> string \<Rightarrow> u64 option" where
  "assertion_expiry P p assertion =
     (case peek_claims_unverified P assertion of
        Inr c \<Rightarrow> Some (assertion_deadline (pv_client_assertion_max_age p) (v_leeway (validation_new P)) 0 c)
      | Inl _ \<Rightarrow> None)"

definition assertion_key :: "'w platform \<Rightarrow> string \<Rightarrow> string option" where
  "assertion_key P assertion =
     (case peek_claims_unverified P assertion of
        Inr c \<Rightarrow> (case (c_iss c, c_jti c) of (Some i, Some j) \<Rightarrow> Some (assertion_use_hash P i j) | _ \<Rightarrow> None)
      | Inl _ \<Rightarrow> None)"

text \<open>
  What \<^verbatim>\<open>jose-rs\<close> documents of decoding: the claims are those of the payload, and the times they allow were
  checked against a reading of the clock.
\<close>

definition decodes_payload :: "'w platform \<Rightarrow> bool" where
  "decodes_payload P \<longleftrightarrow>
     (\<forall>ks t v w c w'. jwt_decode_with_jwkset P ks t v w = (Inr c, w') \<longrightarrow> peek_claims_unverified P t = Inr c)"

definition checks_time :: "script platform \<Rightarrow> bool" where
  "checks_time P \<longleftrightarrow> (\<forall>ks t v cs cs' c. jwt_decode_with_jwkset P ks t v (Some (cs @ cs')) = (Inr c, Some cs') \<longrightarrow>
     (\<exists>x \<in> set (moments cs). timely v c x))"

section \<open>Requests that present an assertion\<close>

lemma authentication_redeems:
  assumes s: "scripted P p" and au: "authenticate_client_map P p form hdr url (Some cs) = (Inr client, Some [])"
    and a: "map_of form ''client_assertion'' = Some assertion"
    and d: "assertion_expiry P p assertion = Some exp" "unat exp < 2 ^ 63"
    and j: "jose_validates P" "decodes_payload P" "checks_time P"
  shows "\<exists>h. assertion_key P assertion = Some h \<and> redemption cs h exp"
proof -
  obtain cid where "assertion_evidence P p cid assertion url client (Some cs) (Some [])"
    using authenticate_by_assertion [OF au] a by (auto dest!: verify_private_key_jwt_ok)
  then obtain jwks claims jti now v1 v2 v3 where
      f: "script_get cid (Some cs) = (Some client, v1)"
      "jwt_decode_with_jwkset P jwks assertion (assertion_validation P p cid) v1 = (Inr claims, v2)"
      "c_jti claims = Some jti" "script_clock v2 = (now, v3)"
      "script_use (assertion_use_hash P cid jti)
         (assertion_ttl (pv_client_assertion_max_age p) (v_leeway (validation_new P)) now claims) v3 = (Inr True, Some [])"
    using s by (auto simp: assertion_evidence_def scripted_def)
  have p: "peek_claims_unverified P assertion = Inr claims" using j(2) f(2) unfolding decodes_payload_def by blast
  have "claims_meet (assertion_validation P p cid) claims" using j(1) f(2) unfolding jose_validates_def by blast
  then obtain e i where c: "c_iss claims = Some cid" "c_exp claims = Some e" "c_iat claims = Some i"
    by (auto simp: claims_meet_def assertion_validation_def)
  then have dl: "assertion_deadline (pv_client_assertion_max_age p) (v_leeway (validation_new P)) n claims = exp" for n
    using d(1) p by (simp add: assertion_expiry_def assertion_deadline_def)
  let ?h = "assertion_use_hash P cid jti"
  obtain t1 where v3: "v3 = Some [Reading t1, Use t1 ?h (max (saturating_sub exp now) 1) (Inr True)]"
    using f(5) by (auto dest!: script_use_Some simp: assertion_ttl_def dl)
  have v2: "v2 = Some (Reading now # Reading t1 # Use t1 ?h (max (saturating_sub exp now) 1) (Inr True) # [])"
    using f(4) by (auto simp: v3 dest!: script_clock_Some)
  have "reads v1 v2" using s f(2) unfolding scripted_def by (metis snd_conv)
  then obtain xs where v1: "v1 = Some (xs @ Reading now # Reading t1 # Use t1 ?h (max (saturating_sub exp now) 1) (Inr True) # [])"
    by (auto simp: v2 dest!: reads_Some)
  obtain x where x: "x \<in> set (moments xs)" "timely (assertion_validation P p cid) claims x"
    using j(3) f(2) unfolding checks_time_def v1 v2 by blast
  have "acceptable_at (pv_client_assertion_max_age p) (v_leeway (validation_new P)) e i (unat x)"
    using x(2) c by (simp add: timely_def assertion_validation_def acceptable_at_def exp_second_def)
  then have "x < exp"
    using acceptable_before_deadline [OF c(2,3)] dl d(2) unfolding word_less_nat_alt by fastforce
  have "reads (Some cs) v1" using f(1) reads_calls(2) [of "Some cs" cid] by simp
  then obtain ys where "cs = ys @ xs @ Reading now # Reading t1 # Use t1 ?h (max (saturating_sub exp now) 1) (Inr True) # []"
    by (auto simp: v1 dest!: reads_Some)
  with x(1) \<open>x < exp\<close> have "redemption cs ?h exp"
    unfolding redemption_def by (intro exI [of _ "ys @ xs"] exI [of _ now] exI [of _ t1] exI [of _ "[]"]) auto
  moreover have "assertion_key P assertion = Some ?h" using p c(1) f(3) by (simp add: assertion_key_def)
  ultimately show ?thesis by blast
qed

text \<open>Of two authentications with one assertion at most one succeeds.\<close>

context token_use_store
begin

lemma overlapping_assertion:
  assumes "scripted P p" and "jose_validates P" and "decodes_payload P" and "checks_time P"
    and "runs consume c es c'" and "assertion_expiry P p assertion = Some exp" and "unat exp < 2 ^ 63" and "i \<noteq> j"
    and "\<forall>k \<in> {i, j}. es = pre k @ post k \<and>
      authenticate_client_map P p (form k) (hdr k) (url k) (Some (calls_of k (pre k))) = (res k, Some []) \<and>
      map_of (form k) ''client_assertion'' = Some assertion \<and> \<not> straddled exp k (pre k)"
    and "res i = Inr client"
  shows "\<exists>e. res j = Inl e"
proof (rule ccontr)
  assume "\<nexists>e. res j = Inl e"
  then obtain client' where j: "res j = Inr client'" by (cases "res j") auto
  have u: "\<exists>h. assertion_key P assertion = Some h \<and> redemption (calls_of k (pre k)) h exp" if k: "k \<in> {i, j}" for k
  proof -
    obtain cl where "res k = Inr cl" using k j assms(10) by auto
    then show ?thesis
      using authentication_redeems [OF assms(1) _ _ assms(6,7,2,3,4), of "form k" "hdr k" "url k" "calls_of k (pre k)" cl]
        assms(9) k by metis
  qed
  then obtain h where "assertion_key P assertion = Some h" by blast
  then have "i = j" using one_redemption [OF assms(5,7), of i j pre post h] u assms(9) by fastforce
  with assms(8) show False ..
qed

end

text \<open>
  C8.  A client assertion authenticates at most once, even among requests that overlap.  Any number of requests
  run against the in-memory store, interleaved step by step with the registrations changing at any time: of two
  authentications with the same assertion, for whatever endpoints' requests, when one succeeded the other failed,
  unless one of them straddled the second from which the assertion is no longer accepted: it read the clock
  before that second and had a call to make after some request read it at that second or later.  \<open>pre k\<close> are
  the events up to the end of the authentication of \<open>k\<close>.  Of the JWT crate it is assumed that what it decodes is the
  payload, meets the validation and was timely at a reading of the clock.
\<close>

theorem assertion_authenticates_once:
  assumes "scripted P p" and "jose_validates P" and "decodes_payload P" and "checks_time P"
    and "runs mem_consume c es c'" and "assertion_expiry P p assertion = Some exp" and "unat exp < 2 ^ 63" and "i \<noteq> j"
    and "\<forall>k \<in> {i, j}. es = pre k @ post k \<and>
      authenticate_client_map P p (form k) (hdr k) (url k) (Some (calls_of k (pre k))) = (res k, Some []) \<and>
      map_of (form k) ''client_assertion'' = Some assertion \<and> \<not> straddled exp k (pre k)"
    and "res i = Inr client"
  shows "\<exists>e. res j = Inl e"
  using assms by (rule memuse.overlapping_assertion)

section \<open>A run\<close>

text \<open>
  A service authenticates and is recorded; whoever saw its request sends it again at the same time.
\<close>

definition service_claims :: claims where
  "service_claims = claims_default\<lparr>c_iss := Some ''rp'', c_sub := Some ''rp'', c_aud := Some (Single ''u''),
     c_exp := Some (date_of_secs 300), c_iat := Some (date_of_secs 100), c_jti := Some ''j''\<rparr>"

definition service_decode :: "jwk_set \<Rightarrow> string \<Rightarrow> validation \<Rightarrow> (script, string, claims) prog" where
  "service_decode ks tok v s =
     (case script_clock s of (t, s') \<Rightarrow>
        (if tok = ''h.p.s'' \<and> claims_meet v service_claims \<and> timely v service_claims t then Inr service_claims
         else Inl ''invalid'', s'))"

definition assertion_platform :: "script platform" where
  "assertion_platform = (exchange_on script_clock)\<lparr>jwt_decode_with_jwkset := service_decode,
     jose_b64url_decode := (\<lambda>_. Inr []), claims_from_slice := (\<lambda>_. Inr service_claims)\<rparr>"

definition jwt_service :: client where
  "jwt_service = service_client\<lparr>cl_token_endpoint_auth_method := AUTH_PRIVATE_KEY_JWT, cl_jwks := Some []\<rparr>"

definition jwt_form :: "string btree" where
  "jwt_form = [(''client_assertion'', ''h.p.s''), (''client_assertion_type'', CLIENT_ASSERTION_TYPE),
     (''grant_type'', ''client_credentials''), (''scope'', ''read'')]"

abbreviation jwt_hash :: string where
  "jwt_hash \<equiv> assertion_use_hash assertion_platform ''rp'' ''j''"

definition first_calls :: "call list" where
  "first_calls = [Lookup ''rp'' (Some jwt_service), Reading 200, Reading 200, Reading 200, Use 200 jwt_hash 100 (Inr True)]"

definition second_calls :: "call list" where
  "second_calls = [Lookup ''rp'' (Some jwt_service), Reading 200, Reading 200, Reading 201, Use 201 jwt_hash 100 (Inr False)]"

lemma assertion_fields [simp]:
  "now_secs assertion_platform = script_clock" "jwt_decode_with_jwkset assertion_platform = service_decode"
  "jwe_encrypt assertion_platform k pt = (if length k = 32 then retP (k @ pt) else failP ''key length'')"
  "jwt_encode assertion_platform k hh c = retP k" "json_to_vec assertion_platform v = Inr []"
  "validation_new assertion_platform = sample_validation"
  by (simp_all add: assertion_platform_def) (simp add: exchange_on_def sample_platform_def)

lemma assertion_peek: "peek_claims_unverified assertion_platform ''h.p.s'' = Inr service_claims"
proof -
  have "splitn3 ''h.p.s'' = [''h'', ''p'', ''s'']" by code_simp
  then show ?thesis by (simp add: peek_claims_unverified_def) (simp add: assertion_platform_def)
qed

lemma assertion_crates:
  "scripted assertion_platform scripted_provider" "jose_validates assertion_platform" "decodes_payload assertion_platform"
  "checks_time assertion_platform"
proof -
  have "reads s (snd (service_decode ks t v s))" for ks t v s
    using reads_calls(1) [of s] by (simp add: service_decode_def case_prod_beta)
  then show "scripted assertion_platform scripted_provider"
    by (simp add: scripted_def scripted_provider_def retP_def failP_def)
  show "jose_validates assertion_platform" "decodes_payload assertion_platform"
    by (auto simp: jose_validates_def decodes_payload_def service_decode_def assertion_peek split: prod.splits if_splits)
  show "checks_time assertion_platform"
    by (auto simp: checks_time_def service_decode_def split: prod.splits if_splits dest!: script_clock_Some)
qed

lemma assertion_times:
  "assertion_expiry assertion_platform scripted_provider ''h.p.s'' = Some 300"
  "assertion_ttl 300 0 200 service_claims = 100"
  "claims_meet (assertion_validation assertion_platform scripted_provider ''rp'') service_claims"
  "timely (assertion_validation assertion_platform scripted_provider ''rp'') service_claims 200"
  by (simp_all add: assertion_expiry_def assertion_peek scripted_provider_def default_client_assertion_max_age_def
      sample_validation_def assertion_ttl_def assertion_deadline_def exp_deadline_def age_deadline_def service_claims_def
      claims_default_def date_of_secs_def saturating_add_def saturating_sub_def claims_meet_def assertion_validation_def
      timely_def exp_second_def max_def min_def) (simp add: word_le_nat_alt)

text \<open>Up to the store the two requests make the same calls.\<close>

lemma jwt_verified:
  "verify_private_key_jwt assertion_platform scripted_provider ''h.p.s'' jwt_form ''u''
     (Some (Lookup ''rp'' (Some jwt_service) # Reading 200 # Reading 200 # Reading t # Use t jwt_hash 100 (Inr fresh) # cs)) =
   (if fresh then Inr jwt_service else Inl (invalid_client ''client_assertion already used''), Some cs)"
proof -
  have c: "assertion_client_id assertion_platform ''h.p.s'' jwt_form = Inr ''rp''"
    by (simp add: assertion_client_id_def jwt_form_def assertion_peek service_claims_def claims_default_def)
  have m: "cl_token_endpoint_auth_method jwt_service = AUTH_PRIVATE_KEY_JWT" "cl_jwks jwt_service = Some []"
    by (simp_all add: jwt_service_def)
  have d: "service_decode [] ''h.p.s'' (assertion_validation assertion_platform scripted_provider ''rp'') (Some (Reading 200 # ys)) =
      (Inr service_claims, Some ys)" for ys
    using assertion_times(3,4) by (simp add: service_decode_def)
  have x: "c_aud service_claims = Some (Single ''u'')" "c_jti service_claims = Some ''j''"
    by (simp_all add: service_claims_def claims_default_def)
  have a: "pv_client_assertion_max_age scripted_provider = 300"
    "v_leeway (assertion_validation assertion_platform scripted_provider ''rp'') = 0"
    by (simp_all add: scripted_provider_def default_client_assertion_max_age_def assertion_validation_def sample_validation_def)
  show ?thesis
    by (simp add: verify_private_key_jwt_def verify_with_jwks_def c require_client_def bindP_def effP_def mapErrP_def m d x
        a assertion_times(2) Let_def guardP_def retP_def failP_def)
qed

lemma jwt_authenticated:
  "authenticate_client_map assertion_platform scripted_provider jwt_form None ''u'' s =
     verify_private_key_jwt assertion_platform scripted_provider ''h.p.s'' jwt_form ''u'' s"
  by (simp add: authenticate_client_map_def jwt_form_def bt_contains_key_def guardP_def)

definition jwt_start :: "token_use_inner config" where
  "jwt_start = \<lparr>cf_store = token_use_new, cf_now = 0, cf_left = (\<lambda>k. if k = 0 then first_calls else second_calls)\<rparr>"

definition jwt_events :: "(nat \<times> call) list" where
  "jwt_events = [(0, Lookup ''rp'' (Some jwt_service)), (1, Lookup ''rp'' (Some jwt_service)),
     (1, Reading 200), (0, Reading 200), (0, Reading 200), (1, Reading 200), (0, Reading 200), (1, Reading 201),
     (0, Use 200 jwt_hash 100 (Inr True)), (1, Use 201 jwt_hash 100 (Inr False))]"

lemma jwt_runs: "\<exists>c'. runs mem_consume jwt_start jwt_events c'"
proof -
  have "mem_consume 200 jwt_hash 100 token_use_new =
      (Inr True, \<lparr>tu_poisoned = False, tu_entries = [jwt_hash \<mapsto> 300], tu_next_purge = 260\<rparr>)"
    by (simp add: mem_consume_def token_use_new_def Let_def purge_def purge_interval_def retain_def)
  moreover have "mem_consume 201 jwt_hash 100 \<lparr>tu_poisoned = False, tu_entries = [jwt_hash \<mapsto> 300], tu_next_purge = 260\<rparr> =
      (Inr False, \<lparr>tu_poisoned = False, tu_entries = [jwt_hash \<mapsto> 300], tu_next_purge = 260\<rparr>)"
    by (simp add: mem_consume_def Let_def purge_def)
  ultimately show ?thesis
    by (simp add: jwt_events_def jwt_start_def first_calls_def second_calls_def runs_simps step_simps)
qed

lemma jwt_calls:
  "calls_of 0 jwt_events = first_calls" "calls_of 1 jwt_events = second_calls" "\<not> straddled 300 k jwt_events"
proof -
  show "\<not> straddled 300 k jwt_events" by (rule early_not_straddled) (simp add: jwt_events_def)
qed (simp_all add: jwt_events_def first_calls_def second_calls_def)

theorem assertion_authenticates_once_witness:
  "\<exists>c' e. runs mem_consume jwt_start jwt_events c' \<and>
     authenticate_client_map assertion_platform scripted_provider jwt_form None ''u'' (Some (calls_of 0 jwt_events)) =
       (Inr jwt_service, Some []) \<and>
     authenticate_client_map assertion_platform scripted_provider jwt_form None ''u'' (Some (calls_of 1 jwt_events)) = (Inl e, Some [])"
proof -
  obtain c' where c: "runs mem_consume jwt_start jwt_events c'" using jwt_runs by blast
  let ?e = "Inl (invalid_client ''client_assertion already used'')"
  have a: "authenticate_client_map assertion_platform scripted_provider jwt_form None ''u'' (Some first_calls) = (Inr jwt_service, Some [])"
      "authenticate_client_map assertion_platform scripted_provider jwt_form None ''u'' (Some second_calls) = (?e, Some [])"
    by (simp_all add: jwt_authenticated first_calls_def second_calls_def jwt_verified)
  let ?res = "\<lambda>k :: nat. if k = 0 then Inr jwt_service else ?e"
  have m: "map_of jwt_form ''client_assertion'' = Some ''h.p.s''" by (simp add: jwt_form_def)
  have "\<exists>e. ?res 1 = Inl e"
    by (rule assertion_authenticates_once [OF assertion_crates c assertion_times(1), where i = 0 and j = 1 and res = ?res and pre = "\<lambda>_. jwt_events"
          and post = "\<lambda>_. []" and form = "\<lambda>_. jwt_form" and hdr = "\<lambda>_. None" and url = "\<lambda>_. ''u''" and client = jwt_service])
      (use a m in \<open>simp_all add: jwt_calls jwt_calls(2) [unfolded One_nat_def]\<close>)
  with c a show ?thesis by (auto simp: jwt_calls jwt_calls(2) [unfolded One_nat_def])
qed

end
