(* ===== verification/Relying_Party.thy ===== *)
theory Relying_Party
  imports Id_Token Client_Auth
begin

text \<open>
  \<^verbatim>\<open>src/rp.rs\<close>, last part, with \<^verbatim>\<open>random_token\<close> of \<^verbatim>\<open>src/util.rs\<close>: the authenticated requests of a relying
  party.  It redeems the code at the token endpoint, signs client assertions and request objects,
  fetches UserInfo and turns claims into attributes.
\<close>

section \<open>Signed requests\<close>

definition random_token :: "'w platform \<Rightarrow> nat \<Rightarrow> 'w \<Rightarrow> string \<times> 'w" where
  "random_token P n w = (case random_bytes P n w of (buf, w') \<Rightarrow> (b64url_encode P buf, w'))"

definition build_client_assertion ::
    "'w platform \<Rightarrow> signing_key \<Rightarrow> string \<Rightarrow> string \<Rightarrow> ('w, error, string) prog" where
  "build_client_assertion P key client_id audience =
     bindP (effP (now_secs P)) (\<lambda>now.
     bindP (effP (random_token P 16)) (\<lambda>jti.
     jwt_sign P key (claims_default\<lparr>c_iss := Some client_id, c_sub := Some client_id,
       c_aud := Some (Single audience), c_iat := Some (date_of_secs now), c_exp := Some (date_of_secs (now + 300)),
       c_jti := Some jti\<rparr>) None))"

definition request_members :: "rp_client \<Rightarrow> string \<Rightarrow> string \<Rightarrow> string option \<Rightarrow> (string \<times> string) list" where
  "request_members client state nonce code_challenge =
     [(''client_id'', rp_client_id client), (''redirect_uri'', rp_redirect_uri client), (''scope'', rp_scope client),
      (''response_type'', ''code''), (''state'', state), (''nonce'', nonce)]
     @ (case code_challenge of
          Some cc \<Rightarrow> [(''code_challenge'', cc), (''code_challenge_method'', ''S256'')] | None \<Rightarrow> [])"

definition signed_request_object ::
    "'w platform \<Rightarrow> provider_info \<Rightarrow> rp_client \<Rightarrow> signing_key \<Rightarrow> string \<Rightarrow> string \<Rightarrow> string option \<Rightarrow>
     ('w, error, string) prog" where
  "signed_request_object P provider client key state nonce code_challenge =
     bindP (liftR (check_request P provider client code_challenge)) (\<lambda>_.
     bindP (effP (now_secs P)) (\<lambda>now.
     bindP (effP (random_token P 16)) (\<lambda>jti.
     jwt_sign P key (claims_default\<lparr>c_iss := Some (rp_client_id client), c_aud := Some (Single (pi_issuer provider)),
       c_iat := Some (date_of_secs now), c_exp := Some (date_of_secs (now + 300)), c_jti := Some jti,
       c_extra := foldl (\<lambda>b (k, v). bt_insert k (JString v) b) [] (request_members client state nonce code_challenge)\<rparr>)
       None)))"

section \<open>Redeeming the code\<close>

text \<open>\<^verbatim>\<open>apply_client_auth\<close> returns the form and the headers it extends.\<close>

definition apply_client_auth ::
    "'w platform \<Rightarrow> rp_client \<Rightarrow> provider_info \<Rightarrow> (string \<times> string) list \<Rightarrow> (string \<times> string) list \<Rightarrow>
     ('w, error, (string \<times> string) list \<times> (string \<times> string) list) prog" where
  "apply_client_auth P client provider form headers =
     (case rp_auth client of
        NoClientAuth \<Rightarrow> retP (form, headers)
      | ClientSecretPost secret \<Rightarrow> retP (form @ [(''client_secret'', secret)], headers)
      | ClientSecretBasic secret \<Rightarrow>
          retP (form, headers @ [(''authorization'', ''Basic ''
            @ b64std_encode P (urlencode_bytes P (rp_client_id client) @ '':'' @ urlencode_bytes P secret))])
      | PrivateKeyJwt key \<Rightarrow>
          bindP (build_client_assertion P key (rp_client_id client) (pi_token_endpoint provider)) (\<lambda>assertion.
          retP (form @ [(''client_assertion_type'', CLIENT_ASSERTION_TYPE), (''client_assertion'', assertion)], headers)))"

definition check_exchange :: "'w platform \<Rightarrow> provider_info \<Rightarrow> rp_client \<Rightarrow> string option \<Rightarrow> (error, unit) result" where
  "check_exchange P provider client code_verifier =
     res_bind (provider_info_validate P provider) (\<lambda>_.
     res_bind (validate_redirect_uri_syntax P (rp_redirect_uri client)) (\<lambda>_.
     res_bind (ensure (\<not> (rp_auth client = NoClientAuth \<and> code_verifier = None))
       (BadRequest ''public clients must supply a PKCE code_verifier'')) (\<lambda>_.
     ensure (case code_verifier of Some v \<Rightarrow> is_valid_verifier v | None \<Rightarrow> True)
       (BadRequest ''invalid PKCE code_verifier''))))"

definition exchange_form :: "rp_client \<Rightarrow> string \<Rightarrow> string option \<Rightarrow> (string \<times> string) list" where
  "exchange_form client code code_verifier =
     [(''grant_type'', ''authorization_code''), (''code'', code), (''redirect_uri'', rp_redirect_uri client),
      (''client_id'', rp_client_id client)]
     @ (case code_verifier of Some v \<Rightarrow> [(''code_verifier'', v)] | None \<Rightarrow> [])"

definition is_error_value :: "json option \<Rightarrow> bool" where
  "is_error_value v = (case v of Some (JString _) \<Rightarrow> True | _ \<Rightarrow> False)"

definition required_text :: "json \<Rightarrow> string \<Rightarrow> (error, string) result" where
  "required_text raw name =
     (case Option.bind (json_get raw name) as_str of
        Some v \<Rightarrow> if v \<noteq> [] then Inr v else Inl (Authn (''token response missing '' @ name))
      | None \<Rightarrow> Inl (Authn (''token response missing '' @ name)))"

text \<open>The reading of the token response.\<close>

definition token_set_from :: "'w platform \<Rightarrow> http_fetch_response \<Rightarrow> (error, token_set) result" where
  "token_set_from P resp =
     res_bind (ensure (hf_status resp = 200)
       (upstream_error P Auth (''token endpoint returned '' @ usize_str (hf_status resp)) resp)) (\<lambda>_.
     res_bind (fetch_value P resp) (\<lambda>raw.
     res_bind (ensure (\<not> (is_error_value (json_get raw ''error'') \<and> json_get raw ''access_token'' = None))
       (upstream_error P Auth (''token endpoint returned an error with status '' @ usize_str (hf_status resp)) resp)) (\<lambda>_.
     res_bind (required_text raw ''access_token'') (\<lambda>access_token.
     res_bind (required_text raw ''id_token'') (\<lambda>id_token.
     res_bind (required_text raw ''token_type'') (\<lambda>token_type.
     res_bind (ensure (eq_ignore_ascii_case token_type ''Bearer'')
       (Authn (''unsupported token_type in token response: '' @ display_safe token_type))) (\<lambda>_.
     Inr \<lparr>ts_access_token = access_token, ts_id_token = id_token, ts_token_type = token_type, ts_raw = raw\<rparr>)))))))"

definition exchange_code ::
    "'w platform \<Rightarrow> 'w http_client \<Rightarrow> provider_info \<Rightarrow> rp_client \<Rightarrow> string \<Rightarrow> string option \<Rightarrow>
     ('w, error, token_set) prog" where
  "exchange_code P http provider client code code_verifier =
     bindP (liftR (check_exchange P provider client code_verifier)) (\<lambda>_.
     bindP (apply_client_auth P client provider (exchange_form client code code_verifier) []) (\<lambda>(form, headers).
     bindP (hc_post_form http (pi_token_endpoint provider) form headers) (\<lambda>resp.
     liftR (token_set_from P resp))))"

section \<open>UserInfo\<close>

datatype userinfo_method = PostMethod | GetMethod

definition header_safe_token :: "string \<Rightarrow> bool" where
  "header_safe_token t \<longleftrightarrow>
     \<not> (t = [] \<or> list_ex (\<lambda>c. (c < 128 \<and> is_control c) \<or> is_whitespace c \<or> \<not> c < 128) (chars t))"

definition looks_like_object :: "string \<Rightarrow> bool" where
  "looks_like_object body \<longleftrightarrow>
     length body \<le> max_error_json_bytes \<and>
     find (\<lambda>b. \<not> is_ascii_whitespace b) body = Some (CHR 0x7B)"

definition userinfo_error_body :: "'w platform \<Rightarrow> string \<Rightarrow> bool" where
  "userinfo_error_body P body =
     (case json_from_slice P body of
        Inr (JObject obj) \<Rightarrow> is_error_value (map_of obj ''error'') \<and> map_of obj ''sub'' = None
      | _ \<Rightarrow> False)"

definition fetch_userinfo_response ::
    "'w platform \<Rightarrow> 'w http_client \<Rightarrow> string \<Rightarrow> string \<Rightarrow> string \<Rightarrow> userinfo_method \<Rightarrow>
     ('w, error, http_fetch_response) prog" where
  "fetch_userinfo_response P http userinfo_endpoint access_token iss method =
     bindP (liftR (validate_issuer P iss)) (\<lambda>_.
     bindP (liftR (validate_service_endpoint_for_issuer P ''userinfo_endpoint'' userinfo_endpoint iss)) (\<lambda>_.
     guardP (header_safe_token access_token)
       (BadRequest ''access_token contains characters not allowed in an Authorization header'') (
     let headers = [(''authorization'', ''Bearer '' @ access_token)] in
     bindP (case method of
              PostMethod \<Rightarrow> hc_post_form http userinfo_endpoint [] headers
            | GetMethod \<Rightarrow> hc_get_with_headers http userinfo_endpoint headers) (\<lambda>resp.
     guardP (hf_status resp = 200)
       (upstream_error P Auth (''userinfo returned '' @ usize_str (hf_status resp)) resp) (
     guardP (\<not> (looks_like_object (hf_body resp) \<and> userinfo_error_body P (hf_body resp)))
       (upstream_error P Auth (''userinfo returned an error with status '' @ usize_str (hf_status resp)) resp) (
     retP resp))))))"

definition fetch_userinfo ::
    "'w platform \<Rightarrow> 'w http_client \<Rightarrow> string \<Rightarrow> string \<Rightarrow> string \<Rightarrow> string \<Rightarrow> ('w, error, json) prog" where
  "fetch_userinfo P http userinfo_endpoint access_token expected_sub iss =
     bindP (fetch_userinfo_response P http userinfo_endpoint access_token iss PostMethod) (\<lambda>resp.
     liftR (userinfo_json_claims P resp expected_sub))"

section \<open>Attributes\<close>

fun attribute_values :: "'w platform \<Rightarrow> json \<Rightarrow> string list" where
  "attribute_values P (JString s) = [s]"
| "attribute_values P (JArray xs) = List.map_filter as_str xs"
| "attribute_values P (JBool b) = [if b then ''true'' else ''false'']"
| "attribute_values P JNull = []"
| "attribute_values P (JObject _) = []"
| "attribute_values P n = [json_to_string P n]"

definition claims_to_attributes :: "'w platform \<Rightarrow> json \<Rightarrow> string list btree" where
  "claims_to_attributes P claims =
     (case as_object claims of
        None \<Rightarrow> []
      | Some obj \<Rightarrow>
          foldl (\<lambda>out (k, v). if attribute_values P v \<noteq> [] then bt_insert k (attribute_values P v) out else out) [] obj)"

section \<open>What a redeemed code is\<close>

lemma check_exchange_ok:
  "check_exchange P provider client cv = Inr v \<longleftrightarrow> provider_info_validate P provider = Inr () \<and>
     validate_redirect_uri_syntax P (rp_redirect_uri client) = Inr () \<and>
     (rp_auth client = NoClientAuth \<longrightarrow> cv \<noteq> None) \<and>
     (case cv of Some v \<Rightarrow> is_valid_verifier v | None \<Rightarrow> True)"
  by (auto simp: check_exchange_def result_simps)

lemma required_text_ok: "required_text raw name = Inr v \<longleftrightarrow> json_get raw name = Some (JString v) \<and> v \<noteq> []"
  by (auto simp: required_text_def bind_eq_Some_conv split: option.splits elim: as_str.elims)

lemma token_set_from_ok:
  "token_set_from P resp = Inr ts \<Longrightarrow>
     hf_status resp = 200 \<and> json_from_slice P (hf_body resp) = Inr (ts_raw ts) \<and>
     json_get (ts_raw ts) ''access_token'' = Some (JString (ts_access_token ts)) \<and> ts_access_token ts \<noteq> [] \<and>
     json_get (ts_raw ts) ''id_token'' = Some (JString (ts_id_token ts)) \<and> ts_id_token ts \<noteq> [] \<and>
     json_get (ts_raw ts) ''token_type'' = Some (JString (ts_token_type ts)) \<and>
     eq_ignore_ascii_case (ts_token_type ts) ''Bearer''"
  by (auto simp: token_set_from_def result_simps required_text_ok fetch_value_def)

text \<open>\<open>presents auth form headers form' headers'\<close>: what client authentication adds to a request.\<close>

definition presents ::
    "'w platform \<Rightarrow> rp_client \<Rightarrow> (string \<times> string) list \<Rightarrow> (string \<times> string) list \<Rightarrow> (string \<times> string) list \<Rightarrow> bool" where
  "presents P client form form' headers \<longleftrightarrow>
     (case rp_auth client of
        NoClientAuth \<Rightarrow> form' = form \<and> headers = []
      | ClientSecretPost s \<Rightarrow> form' = form @ [(''client_secret'', s)] \<and> headers = []
      | ClientSecretBasic s \<Rightarrow> form' = form \<and>
          headers = [(''authorization'', ''Basic '' @ b64std_encode P (urlencode_bytes P (rp_client_id client) @ '':'' @ urlencode_bytes P s))]
      | PrivateKeyJwt key \<Rightarrow> headers = [] \<and>
          (\<exists>a. form' = form @ [(''client_assertion_type'', CLIENT_ASSERTION_TYPE), (''client_assertion'', a)]))"

lemma apply_client_auth_presents:
  "apply_client_auth P client provider form [] w = (Inr (form', headers), w') \<Longrightarrow> presents P client form form' headers"
  by (auto simp: apply_client_auth_def presents_def prog_ok split: client_auth.splits)

lemma exchange_code_ok:
  "exchange_code P http provider client code cv w = (Inr ts, w') \<longleftrightarrow>
     check_exchange P provider client cv = Inr () \<and>
     (\<exists>form headers resp w1. apply_client_auth P client provider (exchange_form client code cv) [] w = (Inr (form, headers), w1) \<and>
        hc_post_form http (pi_token_endpoint provider) form headers w1 = (Inr resp, w') \<and>
        token_set_from P resp = Inr ts)"
  by (auto simp: exchange_code_def prog_ok)

text \<open>
  C31.  Redeeming a code sends nothing at all unless the provider's endpoints are safe, the redirect URI
  parses and, for a public client, a well-formed PKCE verifier is given.  A token set is returned only
  from a 200 answer of the token endpoint to one form of distinct fields, with exactly the credentials of
  the client's one authentication method; its tokens are the non-empty texts of that answer, and
  its type is \<^verbatim>\<open>Bearer\<close>.
\<close>

theorem exchange_code_sound:
  assumes "exchange_code P http provider client code cv w = (res, w')"
  shows "(\<forall>e. check_exchange P provider client cv = Inl e \<longrightarrow> res = Inl e \<and> w' = w) \<and>
    (\<forall>ts. res = Inr ts \<longrightarrow>
       list_all (safe_url P (pi_issuer provider)) (provider_urls provider) \<and>
       (rp_auth client = NoClientAuth \<longrightarrow> (\<exists>v. cv = Some v \<and> is_valid_verifier v)) \<and>
       (\<exists>form headers resp w1.
          hc_post_form http (pi_token_endpoint provider) form headers w1 = (Inr resp, w') \<and>
          presents P client (exchange_form client code cv) form headers \<and> distinct (List.map fst form) \<and>
          hf_status resp = 200 \<and> json_from_slice P (hf_body resp) = Inr (ts_raw ts) \<and>
          json_get (ts_raw ts) ''access_token'' = Some (JString (ts_access_token ts)) \<and> ts_access_token ts \<noteq> [] \<and>
          json_get (ts_raw ts) ''id_token'' = Some (JString (ts_id_token ts)) \<and> ts_id_token ts \<noteq> [] \<and>
          eq_ignore_ascii_case (ts_token_type ts) ''Bearer''))"
proof (intro conjI allI impI)
  fix e
  assume "check_exchange P provider client cv = Inl e"
  then show "res = Inl e" "w' = w" using assms by (simp_all add: exchange_code_def bindP_def)
next
  fix ts
  assume "res = Inr ts"
  with assms obtain form headers resp w1 where f: "check_exchange P provider client cv = Inr ()"
      "apply_client_auth P client provider (exchange_form client code cv) [] w = (Inr (form, headers), w1)"
      "hc_post_form http (pi_token_endpoint provider) form headers w1 = (Inr resp, w')" "token_set_from P resp = Inr ts"
    by (auto simp: exchange_code_ok)
  show "list_all (safe_url P (pi_issuer provider)) (provider_urls provider)"
    using f(1) by (simp add: check_exchange_ok provider_info_validate_ok)
  show "\<exists>v. cv = Some v \<and> is_valid_verifier v" if "rp_auth client = NoClientAuth"
    using f(1) that by (auto simp: check_exchange_ok)
  note pr = apply_client_auth_presents [OF f(2)]
  moreover have "distinct (List.map fst form)"
    using pr by (auto simp: presents_def exchange_form_def split: client_auth.splits option.splits)
  ultimately show "\<exists>form headers resp w1.
          hc_post_form http (pi_token_endpoint provider) form headers w1 = (Inr resp, w') \<and>
          presents P client (exchange_form client code cv) form headers \<and> distinct (List.map fst form) \<and>
          hf_status resp = 200 \<and> json_from_slice P (hf_body resp) = Inr (ts_raw ts) \<and>
          json_get (ts_raw ts) ''access_token'' = Some (JString (ts_access_token ts)) \<and> ts_access_token ts \<noteq> [] \<and>
          json_get (ts_raw ts) ''id_token'' = Some (JString (ts_id_token ts)) \<and> ts_id_token ts \<noteq> [] \<and>
          eq_ignore_ascii_case (ts_token_type ts) ''Bearer''"
    using f(3) token_set_from_ok [OF f(4)] by blast
qed

section \<open>The credentials reach the provider\<close>

text \<open>
  The hypotheses on the third-party encoders for a string \<open>s\<close>: the form encoder writes ASCII without a
  colon, and percent decoding reads it back.
\<close>

definition encoder_reads_back :: "'w platform \<Rightarrow> string \<Rightarrow> bool" where
  "encoder_reads_back P s \<longleftrightarrow>
     ascii (urlencode_bytes P s) \<and> CHR '':'' \<notin> set (urlencode_bytes P s) \<and>
     percent_decode_lossy P (urlencode_bytes P s) = s"

definition base64_reads_back :: "'w platform \<Rightarrow> bool" where
  "base64_reads_back P \<longleftrightarrow> (\<forall>s. b64std_decode P (b64std_encode P s) = Some s)"

text \<open>The registration of a relying party at a provider that fits its configuration.\<close>

definition registered_as :: "rp_client \<Rightarrow> client \<Rightarrow> bool" where
  "registered_as client c \<longleftrightarrow>
     (case rp_auth client of
        NoClientAuth \<Rightarrow> cl_token_endpoint_auth_method c = AUTH_NONE
      | ClientSecretBasic s \<Rightarrow> cl_token_endpoint_auth_method c = AUTH_CLIENT_SECRET_BASIC \<and> cl_client_secret c = Some s
      | ClientSecretPost s \<Rightarrow> cl_token_endpoint_auth_method c = AUTH_CLIENT_SECRET_POST \<and> cl_client_secret c = Some s
      | PrivateKeyJwt _ \<Rightarrow> False)"

lemma decode_basic_pair:
  assumes "base64_reads_back P" and "ascii (x @ y)" and "CHR '':'' \<notin> set x"
  shows "decode_basic P (b64std_encode P (x @ CHR '':'' # y)) =
    Some (percent_decode_lossy P x, percent_decode_lossy P y)"
proof -
  have "ascii (x @ CHR '':'' # y)" using assms(2) by (simp add: ascii_def)
  then show ?thesis using assms(1,3) by (simp add: decode_basic_def base64_reads_back_def split_once_append)
qed

lemma unique_form:
  assumes "distinct (List.map fst form)"
  obtains m where "unique_parameters form = Inr m" and "\<And>k. map_of m k = map_of form k"
proof -
  obtain m where c: "unique_parameters form = Inr m"
    using btmap.collect_total assms unfolding unique_parameters_def by blast
  with that btmap.collect_get(2) [OF c [unfolded unique_parameters_def]] show ?thesis by blast
qed

lemma check_secret_accepts:
  "pv_clients p cid w = (Some c, w') \<Longrightarrow> cl_token_endpoint_auth_method c = m \<Longrightarrow> cl_client_secret c = Some s \<Longrightarrow>
     check_secret p cid s m w = (Inr c, w')"
  by (simp add: check_secret_def require_client_def bindP_def effP_def constant_time_eq_iff)

lemma exchange_form_fields:
  "map_of (exchange_form client code cv) ''client_secret'' = None"
  "map_of (exchange_form client code cv) ''client_assertion'' = None"
  "map_of (exchange_form client code cv) ''client_assertion_type'' = None"
  "map_of (exchange_form client code cv) ''client_id'' = Some (rp_client_id client)"
  "distinct (List.map fst (exchange_form client code cv))"
  by (simp_all add: exchange_form_def split: option.splits)

text \<open>
  The provider of the same library accepts the request a relying party sends: if the client is
  registered with the method and secret its relying party uses, the form and header
  \<^verbatim>\<open>exchange_code\<close> posts authenticate it, for public clients and both secret methods.  The hypotheses are that
  base64 and, for Basic, the form encoding of the identifier and the secret are read back by the
  decoders.
\<close>

theorem credentials_accepted_by_provider:
  assumes "apply_client_auth P client provider (exchange_form client code cv) [] w = (Inr (form, headers), w)"
    and "registered_as client c" and "pv_clients p (rp_client_id client) w = (Some c, w')"
    and "base64_reads_back P"
    and "case rp_auth client of
           ClientSecretBasic s \<Rightarrow> encoder_reads_back P (rp_client_id client) \<and> encoder_reads_back P s | _ \<Rightarrow> True"
  shows "authenticate_client P p form (map_of headers ''authorization'') url w = (Inr c, w')"
proof -
  note fields = exchange_form_fields [of client code cv]
  have pr: "presents P client (exchange_form client code cv) form headers"
    by (rule apply_client_auth_presents [OF assms(1)])
  have d: "distinct (List.map fst form)"
    using pr fields(5) by (auto simp: presents_def exchange_form_def split: client_auth.splits option.splits)
  obtain m where m: "unique_parameters form = Inr m" "\<And>k. map_of m k = map_of form k"
    using unique_form [OF d] by blast
  have "authenticate_client_map P p m (map_of headers ''authorization'') url w = (Inr c, w')"
  proof (cases "rp_auth client")
    case NoClientAuth
    then have "form = exchange_form client code cv" "headers = []" "cl_token_endpoint_auth_method c = AUTH_NONE"
      using pr assms(2) by (simp_all add: presents_def registered_as_def)
    then show ?thesis using m(2) fields assms(3)
      by (simp add: authenticate_client_map_def bt_contains_key_def require_client_def bindP_def effP_def)
  next
    case (ClientSecretPost s)
    then have "form = exchange_form client code cv @ [(''client_secret'', s)]" "headers = []"
        "cl_token_endpoint_auth_method c = AUTH_CLIENT_SECRET_POST" "cl_client_secret c = Some s"
      using pr assms(2) by (simp_all add: presents_def registered_as_def)
    then show ?thesis using m(2) fields check_secret_accepts [OF assms(3)]
      by (simp add: authenticate_client_map_def bt_contains_key_def)
  next
    case (ClientSecretBasic s)
    let ?x = "urlencode_bytes P (rp_client_id client)" and ?y = "urlencode_bytes P s"
    from ClientSecretBasic have "form = exchange_form client code cv"
        "headers = [(''authorization'', ''Basic '' @ b64std_encode P (?x @ '':'' @ ?y))]"
        "cl_token_endpoint_auth_method c = AUTH_CLIENT_SECRET_BASIC" "cl_client_secret c = Some s"
      using pr assms(2) by (simp_all add: presents_def registered_as_def)
    moreover have "decode_basic P (b64std_encode P (?x @ CHR '':'' # ?y)) = Some (rp_client_id client, s)"
      using assms(4,5) ClientSecretBasic decode_basic_pair [of P ?x ?y] by (simp add: encoder_reads_back_def ascii_def)
    moreover have "eq_ignore_ascii_case ''Basic'' ''Basic''" by (simp add: eq_ignore_ascii_case_def)
    ultimately show ?thesis using m(2) fields check_secret_accepts [OF assms(3)]
      by (simp add: authenticate_client_map_def bt_contains_key_def)
  qed (use assms(2) in \<open>simp add: registered_as_def\<close>)
  then show ?thesis by (simp add: authenticate_client_def m(1))
qed

text \<open>
  C37.  The two ends disagree about spaces: \<^verbatim>\<open>apply_client_auth\<close> writes the credentials with the form encoder,
  which turns a space into \<^verbatim>\<open>+\<close>, and \<^verbatim>\<open>decode_basic\<close> only undoes percent escapes.  So a client whose
  secret contains a space cannot authenticate by Basic against the provider of the same library,
  although the secret is the registered one.
\<close>

theorem basic_secret_with_space_refused:
  assumes "rp_auth client = ClientSecretBasic s" and "CHR '' '' \<in> set s" and "ascii s"
    and "registered_as client c" and "pv_clients p (rp_client_id client) w = (Some c, w')"
    and "apply_client_auth P client provider (exchange_form client code cv) [] w = (Inr (form, headers), w)"
    and "base64_reads_back P" and "encoder_reads_back P (rp_client_id client)"
    and "urlencode_bytes P s = List.map (\<lambda>c. if c = CHR '' '' then CHR ''+'' else c) s"
    and "\<forall>t. CHR ''%'' \<notin> set t \<longrightarrow> percent_decode_lossy P t = t" and "CHR ''%'' \<notin> set s"
  shows "authenticate_client P p form (map_of headers ''authorization'') url w =
    (Inl (invalid_client ''bad client secret''), w')"
proof -
  let ?x = "urlencode_bytes P (rp_client_id client)" and ?y = "urlencode_bytes P s"
  have h: "form = exchange_form client code cv" "headers = [(''authorization'', ''Basic '' @ b64std_encode P (?x @ '':'' @ ?y))]"
      "cl_token_endpoint_auth_method c = AUTH_CLIENT_SECRET_BASIC" "cl_client_secret c = Some s"
    using apply_client_auth_presents [OF assms(6)] assms(1,4) by (simp_all add: presents_def registered_as_def)
  obtain m where m: "unique_parameters form = Inr m" "\<And>k. map_of m k = map_of form k"
    using unique_form exchange_form_fields(5) unfolding h(1) by blast
  have "CHR ''%'' \<notin> set ?y" using assms(9,11) by auto
  then have y: "percent_decode_lossy P ?y = ?y" using assms(10) by blast
  have "CHR '' '' \<notin> set ?y" using assms(9) by auto
  then have ne: "?y \<noteq> s" using assms(2) by auto
  have "ascii ?y" using assms(3) by (auto simp: assms(9) ascii_def list_all_iff)
  then have "decode_basic P (b64std_encode P (?x @ CHR '':'' # ?y)) = Some (rp_client_id client, ?y)"
    using assms(7,8) decode_basic_pair [of P ?x ?y] y by (simp add: encoder_reads_back_def ascii_def)
  moreover have "check_secret p (rp_client_id client) ?y AUTH_CLIENT_SECRET_BASIC w =
      (Inl (invalid_client ''bad client secret''), w')"
    using h assms(5) ne by (simp add: check_secret_def require_client_def bindP_def effP_def constant_time_eq_iff)
  moreover have "eq_ignore_ascii_case ''Basic'' ''Basic''" by (simp add: eq_ignore_ascii_case_def)
  ultimately show ?thesis using h m exchange_form_fields [of client code cv]
    by (simp add: authenticate_client_def authenticate_client_map_def bt_contains_key_def)
qed

section \<open>UserInfo and attributes\<close>

lemma fetch_userinfo_response_ok:
  "fetch_userinfo_response P http ue tok iss PostMethod w = (Inr resp, w') \<longleftrightarrow>
     validate_issuer P iss = Inr () \<and> safe_url P iss ue \<and> header_safe_token tok \<and>
     hc_post_form http ue [] [(''authorization'', ''Bearer '' @ tok)] w = (Inr resp, w') \<and> hf_status resp = 200 \<and>
     \<not> (looks_like_object (hf_body resp) \<and> userinfo_error_body P (hf_body resp))"
  by (auto simp: fetch_userinfo_response_def Let_def prog_ok service_endpoint_safe)

interpretation userinfo_request: guarded_fetch "\<lambda>(ue, tok, iss, method). fetch_userinfo_response P http ue tok iss method"
    "\<lambda>(ue, tok, iss, _). res_bind (validate_issuer P iss) (\<lambda>_.
       res_bind (validate_service_endpoint_for_issuer P ''userinfo_endpoint'' ue iss) (\<lambda>_.
       ensure (header_safe_token tok)
         (BadRequest ''access_token contains characters not allowed in an Authorization header'')))"
    "\<lambda>(ue, tok, _, method). case method of
       PostMethod \<Rightarrow> hc_post_form http ue [] [(''authorization'', ''Bearer '' @ tok)]
     | GetMethod \<Rightarrow> hc_get_with_headers http ue [(''authorization'', ''Bearer '' @ tok)]"
  for P :: "'w platform" and http
proof (unfold_locales, goal_cases)
  case (3 i w r w')
  then show ?case by (cases i) (auto simp: fetch_userinfo_response_def Let_def prog_ok split: userinfo_method.splits)
qed (auto simp: fetch_userinfo_response_def bindP_def Let_def res_bind_def ensure_def split: sum.splits if_splits userinfo_method.splits)

lemma fetch_userinfo_blocked:
  "\<not> (validate_issuer P iss = Inr () \<and> safe_url P iss ue \<and> header_safe_token tok) \<Longrightarrow>
     \<exists>e. fetch_userinfo_response P http ue tok iss m w = (Inl e, w)"
  using service_endpoint_safe [of P "''userinfo_endpoint''" ue iss "()"]
    userinfo_request.refused [of P "(ue, tok, iss, m)" _ http w]
  by (cases "validate_issuer P iss"; cases "validate_service_endpoint_for_issuer P ''userinfo_endpoint'' ue iss")
    (auto simp: ensure_def)

lemma visible_ascii:
  assumes "c < 128" and "\<not> is_control c" and "\<not> is_whitespace c"
  shows "33 \<le> c \<and> c \<le> 126"
proof -
  have "c \<noteq> 32" using assms(3) by (auto simp: is_whitespace_def)
  with assms(1,2) show ?thesis by (auto simp: is_control_def)
qed

lemma header_safe_token_visible:
  "header_safe_token t \<Longrightarrow> t \<noteq> [] \<and> list_all (\<lambda>c. 33 \<le> c \<and> c \<le> 126) (chars t)"
  using visible_ascii unfolding header_safe_token_def list_ex_iff list_all_iff by blast

lemma userinfo_json_claims_ok:
  "userinfo_json_claims P resp sub = Inr j \<Longrightarrow>
     \<not> is_jwt_response resp \<and> json_from_slice P (hf_body resp) = Inr j \<and> json_get j ''sub'' = Some (JString sub)"
  by (auto simp: userinfo_json_claims_def result_simps fetch_value_def bind_eq_Some_conv elim: as_str.elims)

text \<open>
  The access token leaves the relying party only in the \<^verbatim>\<open>Authorization\<close> header of one request to
  a UserInfo endpoint that is safe for a valid issuer, and only if it consists of visible ASCII
  characters, so that it cannot inject a header; otherwise nothing is sent.  The claims returned are those
  of a 200 JSON answer about exactly the subject of the ID token.
\<close>

theorem fetch_userinfo_sound:
  assumes "fetch_userinfo P http ue tok sub iss w = (res, w')"
  shows "(\<not> (validate_issuer P iss = Inr () \<and> safe_url P iss ue \<and> header_safe_token tok) \<longrightarrow> isl res \<and> w' = w) \<and>
    (header_safe_token tok \<longrightarrow> tok \<noteq> [] \<and> list_all (\<lambda>c. 33 \<le> c \<and> c \<le> 126) (chars tok)) \<and>
    (\<forall>j. res = Inr j \<longrightarrow>
       (\<exists>resp. hc_post_form http ue [] [(''authorization'', ''Bearer '' @ tok)] w = (Inr resp, w') \<and>
          hf_status resp = 200 \<and> \<not> is_jwt_response resp \<and> json_from_slice P (hf_body resp) = Inr j \<and>
          json_get j ''sub'' = Some (JString sub)))"
proof (intro conjI impI allI)
  assume n: "\<not> (validate_issuer P iss = Inr () \<and> safe_url P iss ue \<and> header_safe_token tok)"
  from fetch_userinfo_blocked [OF n] obtain e where "fetch_userinfo_response P http ue tok iss PostMethod w = (Inl e, w)"
    by blast
  with assms show "isl res" "w' = w" by (auto simp: fetch_userinfo_def bindP_def)
next
  fix j
  assume "res = Inr j"
  with assms obtain resp where "fetch_userinfo_response P http ue tok iss PostMethod w = (Inr resp, w')"
      "userinfo_json_claims P resp sub = Inr j"
    by (auto simp: fetch_userinfo_def prog_ok)
  then show "\<exists>resp. hc_post_form http ue [] [(''authorization'', ''Bearer '' @ tok)] w = (Inr resp, w') \<and>
      hf_status resp = 200 \<and> \<not> is_jwt_response resp \<and> json_from_slice P (hf_body resp) = Inr j \<and>
      json_get j ''sub'' = Some (JString sub)"
    using userinfo_json_claims_ok by (auto simp: fetch_userinfo_response_ok)
qed (auto dest: header_safe_token_visible)

lemma attributes_fold:
  "distinct (List.map fst obj) \<Longrightarrow>
   map_of (foldl (\<lambda>out (k, v). if f v \<noteq> [] then bt_insert k (f v) out else out) b obj) k =
     (case map_of obj k of Some v \<Rightarrow> if f v \<noteq> [] then Some (f v) else map_of b k | None \<Rightarrow> map_of b k)"
proof (induction obj arbitrary: b)
  case (Cons a obj)
  then have "map_of obj (fst a) = None" by (auto simp: map_of_eq_None_iff)
  with Cons show ?case by (cases a) (auto split: option.splits)
qed simp

text \<open>
  The attributes of a claims object are exactly its claims with at least one text value: a string, a
  number or a boolean gives one, an array its strings; null, objects and empty arrays give none.
\<close>

theorem claims_to_attributes_exact:
  assumes "distinct (List.map fst obj)"
  shows "map_of (claims_to_attributes P (JObject obj)) k =
    (case map_of obj k of
       Some v \<Rightarrow> if attribute_values P v \<noteq> [] then Some (attribute_values P v) else None | None \<Rightarrow> None)"
  using assms by (simp add: claims_to_attributes_def attributes_fold split: option.splits)

section \<open>Concrete requests\<close>

text \<open>A token endpoint that answers one JSON document.\<close>

definition sample_tokens :: json where
  "sample_tokens = JObject [(''access_token'', JString ''at''), (''id_token'', JString ''it''), (''token_type'', JString ''bearer'')]"

definition sample_userinfo :: json where
  "sample_userinfo = JObject [(''email'', JString ''a''), (''sub'', JString ''alice'')]"

definition answering :: "nat \<Rightarrow> 'w http_client" where
  "answering n = \<lparr>hc_get = (\<lambda>_. failP (Internal [])),
     hc_post_form = (\<lambda>_ _ _. retP (fetch_response_new 200 (replicate n (CHR ''1'')))),
     hc_get_with_headers = default_get_with_headers\<rparr>"

definition sample_token_set :: token_set where
  "sample_token_set = \<lparr>ts_access_token = ''at'', ts_id_token = ''it'', ts_token_type = ''bearer'', ts_raw = sample_tokens\<rparr>"

lemma sample_json:
  "json_from_slice (rp_platform still [sample_tokens, sample_userinfo]) [] = Inr sample_tokens"
  "json_from_slice (rp_platform still [sample_tokens, sample_userinfo]) ''1'' = Inr sample_userinfo"
  by (simp_all add: rp_platform_def sample_platform_def sample_tokens_def sample_userinfo_def less_list_code less_char_def)

lemma sample_exchange:
  "exchange_code (rp_platform still [sample_tokens, sample_userinfo]) (answering 0) sample_info sample_rp ''c'' None () =
     (Inr sample_token_set, ())"
proof -
  let ?P = "rp_platform still [sample_tokens, sample_userinfo]"
  have "check_exchange ?P sample_info sample_rp None = Inr ()"
    by (simp add: check_exchange_ok sample_info_valid)
      (simp add: sample_rp_def validate_redirect_uri_syntax_def rp_platform_def https_url_def)
  moreover have "eq_ignore_ascii_case ''bearer'' ''Bearer''" by code_simp
  then have "token_set_from ?P (fetch_response_new 200 []) = Inr sample_token_set"
    by (simp add: token_set_from_def fetch_value_def fetch_response_new_def sample_json is_error_value_def)
      (simp add: sample_tokens_def required_text_def sample_token_set_def)
  ultimately show ?thesis
    by (simp add: exchange_code_def answering_def apply_client_auth_def sample_rp_def bindP_def)
qed

theorem exchange_code_sound_witness:
  "list_all (safe_url (rp_platform still [sample_tokens, sample_userinfo]) (pi_issuer sample_info)) (provider_urls sample_info) \<and>
   eq_ignore_ascii_case (ts_token_type sample_token_set) ''Bearer''"
  using exchange_code_sound [OF sample_exchange] by blast

lemma sample_fetch_userinfo:
  "fetch_userinfo (rp_platform still [sample_tokens, sample_userinfo]) (answering 1) ''https://op/userinfo'' ''at'' ''alice''
     ''https://op'' () = (Inr sample_userinfo, ())"
proof -
  let ?P = "rp_platform still [sample_tokens, sample_userinfo]"
  let ?r = "fetch_response_new 200 ''1''"
  have v: "validate_issuer ?P ''https://op'' = Inr ()" "safe_url ?P ''https://op'' ''https://op/userinfo''"
    using sample_info_valid [of still "[sample_tokens, sample_userinfo]"]
    by (simp_all add: provider_info_validate_ok validate_issuer_ok provider_urls_def sample_info_def)
  have t: "header_safe_token ''at''" "\<not> looks_like_object ''1''" by code_simp+
  have "fetch_userinfo_response ?P (answering 1) ''https://op/userinfo'' ''at'' ''https://op'' PostMethod () = (Inr ?r, ())"
    using v t by (simp add: fetch_userinfo_response_ok answering_def fetch_response_new_def)
  moreover have "\<not> is_jwt_response ?r" by code_simp
  then have "userinfo_json_claims ?P ?r ''alice'' = Inr sample_userinfo"
    by (simp add: userinfo_json_claims_def fetch_value_def fetch_response_new_def sample_json)
      (simp add: sample_userinfo_def)
  ultimately show ?thesis by (simp add: fetch_userinfo_def bindP_def)
qed

theorem fetch_userinfo_sound_witness:
  "\<exists>resp. hc_post_form (answering 1) ''https://op/userinfo'' [] [(''authorization'', ''Bearer at'')] () = (Inr resp, ()) \<and>
     hf_status resp = 200"
  using fetch_userinfo_sound [OF sample_fetch_userinfo] by auto

theorem claims_to_attributes_exact_witness:
  "map_of (claims_to_attributes (rp_platform still []) sample_userinfo) ''email'' = Some [''a'']"
  using claims_to_attributes_exact [of "[(''email'', JString ''a''), (''sub'', JString ''alice'')]" "rp_platform still []" "''email''"]
  by (simp add: sample_userinfo_def)

text \<open>A provider that knows the relying party by Basic, and encoders that write a space as a plus sign.\<close>

definition basic_client :: "string \<Rightarrow> client" where
  "basic_client s = sample_client\<lparr>cl_client_id := ''rp'', cl_client_secret := Some s,
     cl_token_endpoint_auth_method := AUTH_CLIENT_SECRET_BASIC\<rparr>"

definition plus_platform :: "world platform" where
  "plus_platform = (sample_platform world_clock [])
     \<lparr>urlencode_bytes := List.map (\<lambda>c. if c = CHR '' '' then CHR ''+'' else c)\<rparr>"

lemma plus_platform_reads_back:
  "base64_reads_back plus_platform" "encoder_reads_back plus_platform ''rp''" "encoder_reads_back plus_platform ''s3''"
  by (simp_all add: base64_reads_back_def encoder_reads_back_def plus_platform_def sample_platform_def sample_b64_decode_def
      sample_suffix_def ascii_def)

lemma basic_client_known:
  "pv_clients sample_provider ''rp'' (fresh_world [0] [basic_client s]) = (Some (basic_client s), fresh_world [0] [basic_client s])"
  using sample_clients_get [of "''rp''" 0 "basic_client s"] by (simp add: basic_client_def)

lemma plus_platform_encoders:
  "urlencode_bytes plus_platform s = List.map (\<lambda>c. if c = CHR '' '' then CHR ''+'' else c) s"
  "percent_decode_lossy plus_platform s = s"
  by (simp_all add: plus_platform_def sample_platform_def)

theorem credentials_accepted_by_provider_witness:
  "\<exists>form headers. authenticate_client plus_platform sample_provider form (map_of headers ''authorization'') ''https://op/token''
     (fresh_world [0] [basic_client ''s3'']) = (Inr (basic_client ''s3''), fresh_world [0] [basic_client ''s3''])"
proof -
  have "\<exists>form headers. apply_client_auth plus_platform sample_rp sample_info (exchange_form sample_rp ''c'' None) []
      (fresh_world [0] [basic_client ''s3'']) = (Inr (form, headers), fresh_world [0] [basic_client ''s3''])"
    by (simp add: apply_client_auth_def sample_rp_def)
  then obtain form headers where a: "apply_client_auth plus_platform sample_rp sample_info (exchange_form sample_rp ''c'' None) []
      (fresh_world [0] [basic_client ''s3'']) = (Inr (form, headers), fresh_world [0] [basic_client ''s3''])"
    by blast
  have "registered_as sample_rp (basic_client ''s3'')" by (simp add: registered_as_def sample_rp_def basic_client_def)
  from credentials_accepted_by_provider [OF a this, of sample_provider] show ?thesis
    using basic_client_known [of "''s3''"] plus_platform_reads_back by (auto simp: sample_rp_def)
qed

theorem basic_secret_with_space_refused_witness:
  "\<exists>form headers. authenticate_client plus_platform sample_provider form (map_of headers ''authorization'') ''https://op/token''
     (fresh_world [0] [basic_client ''s 3'']) =
       (Inl (invalid_client ''bad client secret''), fresh_world [0] [basic_client ''s 3''])"
proof -
  let ?rp = "sample_rp\<lparr>rp_auth := ClientSecretBasic ''s 3''\<rparr>"
  have "\<exists>form headers. apply_client_auth plus_platform ?rp sample_info (exchange_form ?rp ''c'' None) []
      (fresh_world [0] [basic_client ''s 3'']) = (Inr (form, headers), fresh_world [0] [basic_client ''s 3''])"
    by (simp add: apply_client_auth_def sample_rp_def)
  then obtain form headers where a: "apply_client_auth plus_platform ?rp sample_info (exchange_form ?rp ''c'' None) []
      (fresh_world [0] [basic_client ''s 3'']) = (Inr (form, headers), fresh_world [0] [basic_client ''s 3''])"
    by blast
  have r: "registered_as ?rp (basic_client ''s 3'')" by (simp add: registered_as_def basic_client_def)
  have "authenticate_client plus_platform sample_provider form (map_of headers ''authorization'') ''https://op/token''
     (fresh_world [0] [basic_client ''s 3'']) =
       (Inl (invalid_client ''bad client secret''), fresh_world [0] [basic_client ''s 3''])"
    by (rule basic_secret_with_space_refused [where s = "''s 3''", OF _ _ _ r _ a])
      (use basic_client_known [of "''s 3''"] plus_platform_reads_back in
        \<open>simp_all add: sample_rp_def ascii_def plus_platform_encoders\<close>)
  then show ?thesis by blast
qed

end
