(* ===== verification/Callback.thy ===== *)
theory Callback
  imports Id_Token
begin

text \<open>
  \<^verbatim>\<open>src/callback.rs\<close>: the authorization response a relying party receives, parsed from a query, a fragment,
  a form or a request, and the verification of a signed (JARM) response.
\<close>

section \<open>Parameters, modes and options\<close>

definition RESPONSE_PARAMS :: "string list" where
  "RESPONSE_PARAMS = [''code'', ''state'', ''error'', ''error_description'', ''error_uri'', ''iss'', ''response'']"

definition KNOWN_ERROR_CODES :: "string list" where
  "KNOWN_ERROR_CODES = [''invalid_request'', ''invalid_client'', ''invalid_grant'', ''unauthorized_client'',
     ''unsupported_grant_type'', ''unsupported_response_type'', ''invalid_scope'', ''access_denied'', ''server_error'',
     ''temporarily_unavailable'', ''login_required'', ''interaction_required'', ''account_selection_required'',
     ''consent_required'', ''invalid_request_uri'', ''invalid_request_object'', ''request_not_supported'',
     ''request_uri_not_supported'', ''registration_not_supported'', ''invalid_dpop_proof'']"

definition response_value_max :: nat where "response_value_max = 2048"
definition response_jarm_max :: nat where "response_jarm_max = 32768"
definition error_description_safe_max :: nat where "error_description_safe_max = 256"

datatype response_mode = QueryMode | FragmentMode | FormPostMode | JwtMode

fun mode_debug :: "response_mode \<Rightarrow> string" where
  "mode_debug QueryMode = ''Query''"
| "mode_debug FragmentMode = ''Fragment''"
| "mode_debug FormPostMode = ''FormPost''"
| "mode_debug JwtMode = ''Jwt''"

record response_options =
  ro_mode :: "response_mode option"
  ro_accept_unverified_jarm :: bool

definition response_options_new :: response_options where
  "response_options_new = \<lparr>ro_mode = None, ro_accept_unverified_jarm = False\<rparr>"

definition with_response_mode :: "response_mode \<Rightarrow> response_options \<Rightarrow> response_options" where
  "with_response_mode mode opts = opts\<lparr>ro_mode := Some mode\<rparr>"

definition accept_unverified_jarm :: "response_options \<Rightarrow> response_options" where
  "accept_unverified_jarm opts = opts\<lparr>ro_accept_unverified_jarm := True\<rparr>"

section \<open>The response\<close>

record authorization_response =
  az_code :: "string option"
  az_state :: "string option"
  az_error :: "string option"
  az_error_description_safe :: "string option"
  az_error_uri :: "string option"
  az_iss :: "string option"
  az_jarm_response :: "string option"
  az_jarm_verified :: bool
  az_response_mode :: response_mode

definition error_code :: "authorization_response \<Rightarrow> oauth_error_code option" where
  "error_code r =
     Option.bind (az_error r) (\<lambda>e. case code_from_str e of Inr c \<Rightarrow> Some c | Inl _ \<Rightarrow> None)"

definition error_known :: "authorization_response \<Rightarrow> bool" where
  "error_known r = (case az_error r of Some e \<Rightarrow> e \<in> set KNOWN_ERROR_CODES | None \<Rightarrow> False)"

definition is_error :: "authorization_response \<Rightarrow> bool" where
  "is_error r \<longleftrightarrow> az_error r \<noteq> None"

text \<open>The fields \<^verbatim>\<open>Debug\<close> prints, in order.\<close>

datatype debug_value = DBool bool | DText string | DOptText "string option" | DMode response_mode

definition debug_set :: "string option \<Rightarrow> debug_value" where
  "debug_set v = DText (if v \<noteq> None then ''<set>'' else ''None'')"

definition response_debug :: "authorization_response \<Rightarrow> (string \<times> debug_value) list" where
  "response_debug r =
     [(''is_error'', DBool (az_error r \<noteq> None)),
      (''error'', DOptText (map_option display_safe (az_error r))),
      (''code'', debug_set (az_code r)),
      (''state'', debug_set (az_state r)),
      (''iss'', DOptText (map_option display_safe (az_iss r))),
      (''response'', debug_set (az_jarm_response r)),
      (''jarm_verified'', DBool (az_jarm_verified r)),
      (''response_mode'', DMode (az_response_mode r))]"

definition matches_state :: "'w platform \<Rightarrow> authorization_response \<Rightarrow> string \<Rightarrow> bool \<Rightarrow> bool" where
  "matches_state P r expected required =
     (if expected = [] \<or> (az_jarm_response r \<noteq> None \<and> \<not> az_jarm_verified r) then False
      else case az_state r of Some s \<Rightarrow> ct_eq P s expected | None \<Rightarrow> \<not> required)"

definition matches_iss :: "authorization_response \<Rightarrow> string \<Rightarrow> bool \<Rightarrow> bool" where
  "matches_iss r expected required =
     (if expected = [] \<or> (az_jarm_response r \<noteq> None \<and> \<not> az_jarm_verified r) then False
      else case az_iss r of Some i \<Rightarrow> i = expected | None \<Rightarrow> \<not> required)"

section \<open>The shape rules\<close>

record fields =
  f_code :: "string option"
  f_state :: "string option"
  f_error :: "string option"
  f_description :: "string option"
  f_uri :: "string option"
  f_iss :: "string option"

definition unclean_char :: "codepoint \<Rightarrow> bool" where
  "unclean_char c \<longleftrightarrow> is_control c \<or> c = 0x5C \<or> is_invisible_format c"

definition check_value :: "string \<Rightarrow> string \<Rightarrow> (error, unit) result" where
  "check_value name v =
     res_bind (ensure (length (chars v) \<le> response_value_max)
       (BadRequest (name @ '' must be at most '' @ usize_str response_value_max @ '' characters''))) (\<lambda>_.
     ensure (\<not> list_ex unclean_char (chars v))
       (BadRequest (name @ '' must not contain control, bidi or invisible formatting characters or backslashes'')))"

definition error_byte :: "char \<Rightarrow> bool" where
  "error_byte b \<longleftrightarrow>
     (let n = of_char b :: nat
      in (0x20 \<le> n \<and> n \<le> 0x21) \<or> (0x23 \<le> n \<and> n \<le> 0x5B) \<or> (0x5D \<le> n \<and> n \<le> 0x7E))"

definition check_error_code :: "string \<Rightarrow> (error, unit) result" where
  "check_error_code v =
     ensure (length (chars v) \<le> 64 \<and> list_all error_byte v)
       (BadRequest ''error must be at most 64 characters from the RFC 6749 section 5.2 set'')"

definition safe_error_uri :: "'w platform \<Rightarrow> string \<Rightarrow> string option" where
  "safe_error_uri P uri =
     (if response_value_max < length (chars uri) \<or> list_ex (\<lambda>c. is_whitespace c \<or> unclean_char c) (chars uri) then None
      else case url_parse P uri of
        Inl _ \<Rightarrow> None
      | Inr u \<Rightarrow>
          (case u_host u of
             None \<Rightarrow> None
           | Some host \<Rightarrow>
               if (u_scheme u = ''https'' \<or> (u_scheme u = ''http'' \<and> is_loopback_host host)) \<and>
                  u_username u = [] \<and> u_password u = None
               then Some (u_text u) else None))"

fun check_nonempty :: "(string \<times> string option) list \<Rightarrow> (error, unit) result" where
  "check_nonempty [] = Inr ()"
| "check_nonempty ((name, v) # r) =
     (if v = Some [] then Inl (BadRequest (name @ '' must not be empty'')) else check_nonempty r)"

fun check_values :: "(string \<times> string option) list \<Rightarrow> (error, unit) result" where
  "check_values [] = Inr ()"
| "check_values ((name, Some v) # r) = res_bind (check_value name v) (\<lambda>_. check_values r)"
| "check_values ((name, None) # r) = check_values r"

definition fields_validate :: "'w platform \<Rightarrow> fields \<Rightarrow> (error, authorization_response) result" where
  "fields_validate P f =
     res_bind (ensure (\<not> (f_code f \<noteq> None \<and> f_error f \<noteq> None)) (BadRequest ''code and error must not both be present'')) (\<lambda>_.
     res_bind (ensure (\<not> (f_code f = None \<and> f_error f = None)) (BadRequest ''response has neither code nor error'')) (\<lambda>_.
     res_bind (check_nonempty
       [(''code'', f_code f), (''state'', f_state f), (''error'', f_error f), (''iss'', f_iss f)]) (\<lambda>_.
     res_bind (check_values [(''code'', f_code f), (''state'', f_state f), (''iss'', f_iss f)]) (\<lambda>_.
     res_bind (case f_error f of Some e \<Rightarrow> check_error_code e | None \<Rightarrow> Inr ()) (\<lambda>_.
     Inr \<lparr>az_code = f_code f, az_state = f_state f, az_error = f_error f,
       az_error_description_safe = map_option (\<lambda>d. escape_upstream_text d error_description_safe_max) (f_description f),
       az_error_uri = Option.bind (f_uri f) (safe_error_uri P), az_iss = f_iss f,
       az_jarm_response = None, az_jarm_verified = False, az_response_mode = QueryMode\<rparr>)))))"

section \<open>Signed responses\<close>

definition JARM_ASYMMETRIC_ALGORITHMS :: "jws_algorithm list" where
  "JARM_ASYMMETRIC_ALGORITHMS = [RS256, RS384, RS512, PS256, PS384, PS512, ES256, ES384, ES512, EdDSA]"

definition JARM_TYP :: string where "JARM_TYP = ''oauth-authz-resp+jwt''"

record jarm_options =
  jo_issuer :: string
  jo_client_id :: string
  jo_allowed_algorithms :: "jws_algorithm list"
  jo_leeway :: "u64 option"
  jo_expected_typ :: string
  jo_allow_missing_typ :: bool

definition jarm_options_new :: "string \<Rightarrow> string \<Rightarrow> jws_algorithm list \<Rightarrow> jarm_options" where
  "jarm_options_new iss client_id algs = \<lparr>jo_issuer = iss, jo_client_id = client_id, jo_allowed_algorithms = algs,
     jo_leeway = None, jo_expected_typ = JARM_TYP, jo_allow_missing_typ = False\<rparr>"

definition with_expected_typ :: "string \<Rightarrow> jarm_options \<Rightarrow> jarm_options" where
  "with_expected_typ t opts = opts\<lparr>jo_expected_typ := t\<rparr>"

definition with_dedicated_keys :: "jarm_options \<Rightarrow> jarm_options" where
  "with_dedicated_keys opts = opts\<lparr>jo_allow_missing_typ := True\<rparr>"

definition allow_untyped_shared_keys :: "jarm_options \<Rightarrow> jarm_options" where
  "allow_untyped_shared_keys opts = opts\<lparr>jo_allow_missing_typ := True\<rparr>"

definition jarm_with_leeway :: "u64 \<Rightarrow> jarm_options \<Rightarrow> jarm_options" where
  "jarm_with_leeway seconds opts = opts\<lparr>jo_leeway := Some seconds\<rparr>"

definition norm_typ :: "string \<Rightarrow> string" where
  "norm_typ t =
     (let l = to_ascii_lowercase t
      in case strip_prefix ''application/'' l of Some r \<Rightarrow> r | None \<Rightarrow> l)"

definition check_jarm_typ :: "string option \<Rightarrow> jarm_options \<Rightarrow> (error, unit) result" where
  "check_jarm_typ t opts =
     (case t of
        Some t \<Rightarrow>
          ensure (norm_typ t = norm_typ (jo_expected_typ opts) \<or> (jo_allow_missing_typ opts \<and> norm_typ t = ''jwt''))
            (Authn ''JARM response typ header does not identify a JARM response'')
      | None \<Rightarrow>
          ensure (jo_allow_missing_typ opts)
            (Authn ''JARM response has no typ header (see JarmOptions::with_dedicated_keys / allow_untyped_shared_keys)''))"

definition jarm_validation :: "'w platform \<Rightarrow> jarm_options \<Rightarrow> jwk_set \<Rightarrow> validation" where
  "jarm_validation P opts jwks =
     (let v = (validation_new P)\<lparr>v_issuer := Some (jo_issuer opts), v_audience := Some (jo_client_id opts),
                v_require_exp := True, v_algs := Some (jo_allowed_algorithms opts)\<rparr>;
          v = (case jo_leeway opts of Some l \<Rightarrow> v\<lparr>v_leeway := l\<rparr> | None \<Rightarrow> v)
      in if 1 < length jwks then v\<lparr>v_require_kid := True\<rparr> else v)"

definition string_claim :: "claims \<Rightarrow> string \<Rightarrow> (error, string option) result" where
  "string_claim claims name =
     (case bt_get (c_extra claims) name of
        None \<Rightarrow> Inr None
      | Some (JString s) \<Rightarrow> Inr (Some s)
      | Some _ \<Rightarrow> Inl (BadRequest (''JARM claim '' @ name @ '' must be a string'')))"

definition jarm_fields :: "claims \<Rightarrow> (error, fields) result" where
  "jarm_fields claims =
     res_bind (string_claim claims ''code'') (\<lambda>code.
     res_bind (string_claim claims ''state'') (\<lambda>state.
     res_bind (string_claim claims ''error'') (\<lambda>err.
     res_bind (string_claim claims ''error_description'') (\<lambda>description.
     res_bind (string_claim claims ''error_uri'') (\<lambda>uri.
     Inr \<lparr>f_code = code, f_state = state, f_error = err, f_description = description, f_uri = uri,
       f_iss = c_iss claims\<rparr>)))))"

definition jarm_token :: "authorization_response \<Rightarrow> (error, string) result" where
  "jarm_token r =
     (case az_jarm_response r of
        Some t \<Rightarrow> if az_jarm_verified r then Inl (BadRequest ''JARM response is already verified'') else Inr t
      | None \<Rightarrow> Inl (BadRequest ''response is not a JARM response''))"

definition check_compact :: "string \<Rightarrow> (error, unit) result" where
  "check_compact token =
     (let n = length (split_char (CHR ''.'') token)
      in if n = 3 then Inr ()
         else if n = 5 then Inl (BadRequest ''encrypted JARM not supported'')
         else Inl (BadRequest ''JARM response is not a compact JWT''))"

definition verify_jarm ::
    "'w platform \<Rightarrow> authorization_response \<Rightarrow> jwk_set \<Rightarrow> jarm_options \<Rightarrow> ('w, error, authorization_response) prog" where
  "verify_jarm P r jwks opts =
     bindP (liftR (jarm_token r)) (\<lambda>token.
     guardP (jo_allowed_algorithms opts \<noteq> []) (BadRequest ''at least one allowed JARM signing algorithm is required'') (
     guardP (jo_issuer opts \<noteq> [] \<and> jo_client_id opts \<noteq> []) (BadRequest ''JARM issuer and client_id must not be empty'') (
     guardP (case jo_leeway opts of Some l \<Rightarrow> l \<le> MAX_ID_TOKEN_LEEWAY | None \<Rightarrow> True)
       (BadRequest (''JARM leeway must be at most '' @ usize_str (unat MAX_ID_TOKEN_LEEWAY) @ '' seconds'')) (
     bindP (liftR (check_compact token)) (\<lambda>_.
     bindP (liftR (map_err (\<lambda>_. BadRequest ''JARM response header is malformed'') (peek_header P token))) (\<lambda>header.
     bindP (liftR (check_jarm_typ (h_typ header) opts)) (\<lambda>_.
     guardP (\<not> (1 < length jwks \<and> h_kid header = None))
       (Authn ''JARM response has no kid but the JWK Set has several keys'') (
     bindP (liftR (ensure_kid_names_key jwks (h_kid header) ''JARM response'')) (\<lambda>_.
     bindP (mapErrP (\<lambda>e. Authn (''JARM response verification failed: '' @ error_to_string e))
       (verify_with_jwks P jwks token (jarm_validation P opts jwks))) (\<lambda>claims.
     guardP (audience_is_exactly (jo_client_id opts) claims) (Authn ''JARM aud must be exactly the client id'') (
     guardP (c_iss claims = Some (jo_issuer opts)) (Authn ''JARM iss mismatch'') (
     bindP (liftR (jarm_fields claims)) (\<lambda>f.
     bindP (liftR (fields_validate P f)) (\<lambda>out.
     retP (out\<lparr>az_jarm_response := Some token, az_jarm_verified := True, az_response_mode := JwtMode\<rparr>)))))))))))))))"

section \<open>Parsing\<close>

definition mode_for_response :: "response_options \<Rightarrow> response_mode \<Rightarrow> response_mode" where
  "mode_for_response opts fallback = (case ro_mode opts of Some m \<Rightarrow> m | None \<Rightarrow> fallback)"

definition owned :: "(string \<times> string) list \<Rightarrow> (string \<times> string) list" where
  "owned pairs = filter (\<lambda>(k, _). k \<in> set RESPONSE_PARAMS) pairs"

definition fields_from :: "string btree \<Rightarrow> fields" where
  "fields_from found =
     \<lparr>f_code = bt_get found ''code'', f_state = bt_get found ''state'', f_error = bt_get found ''error'',
      f_description = bt_get found ''error_description'', f_uri = bt_get found ''error_uri'',
      f_iss = bt_get found ''iss''\<rparr>"

definition jarm_stub :: "string \<Rightarrow> authorization_response" where
  "jarm_stub t = \<lparr>az_code = None, az_state = None, az_error = None, az_error_description_safe = None,
     az_error_uri = None, az_iss = None, az_jarm_response = Some t, az_jarm_verified = False,
     az_response_mode = JwtMode\<rparr>"

definition parse_stub :: "response_options \<Rightarrow> fields \<Rightarrow> string \<Rightarrow> (error, authorization_response) result" where
  "parse_stub opts f response =
     res_bind (ensure (ro_accept_unverified_jarm opts \<or> ro_mode opts = Some JwtMode)
       (BadRequest ''JARM response parameter is not accepted: enable accept_unverified_jarm and verify it'')) (\<lambda>_.
     res_bind (ensure (\<not> list_ex (\<lambda>v. v \<noteq> None) [f_code f, f_state f, f_error f, f_description f, f_uri f, f_iss f])
       (BadRequest ''a JARM response carries every parameter inside the JWT: no other protocol parameter may appear alongside response'')) (\<lambda>_.
     res_bind (ensure (response \<noteq> []) (BadRequest ''response must not be empty'')) (\<lambda>_.
     res_bind (ensure (length (chars response) \<le> response_jarm_max)
       (BadRequest (''response must be at most '' @ usize_str response_jarm_max @ '' characters''))) (\<lambda>_.
     Inr (jarm_stub response)))))"

definition parse_pairs ::
    "'w platform \<Rightarrow> (string \<times> string) list \<Rightarrow> response_options \<Rightarrow> response_mode \<Rightarrow> (error, authorization_response) result" where
  "parse_pairs P pairs opts mode =
     res_bind (collect_unique map_of bt_insert (\<lambda>n. BadRequest (n @ '' must not be repeated'')) [] (owned pairs)) (\<lambda>found.
     case bt_get found ''response'' of
       Some response \<Rightarrow> parse_stub opts (fields_from found) response
     | None \<Rightarrow>
         res_bind (ensure (ro_mode opts \<noteq> Some JwtMode) (BadRequest ''expected a JARM response parameter'')) (\<lambda>_.
         res_bind (fields_validate P (fields_from found)) (\<lambda>out.
         Inr (out\<lparr>az_response_mode := mode\<rparr>))))"

definition parse_authorization_response ::
    "'w platform \<Rightarrow> (string \<times> string) list \<Rightarrow> response_options \<Rightarrow> (error, authorization_response) result" where
  "parse_authorization_response P pairs opts = parse_pairs P pairs opts (mode_for_response opts QueryMode)"

definition parse_authorization_response_str ::
    "'w platform \<Rightarrow> string \<Rightarrow> response_options \<Rightarrow> (error, authorization_response) result" where
  "parse_authorization_response_str P encoded opts =
     (let (body, fallback) =
        (case encoded of
           [] \<Rightarrow> (encoded, QueryMode)
         | c # r \<Rightarrow> if c = CHR ''?'' then (r, QueryMode) else if c = CHR ''#'' then (r, FragmentMode) else (encoded, QueryMode))
      in parse_pairs P (form_urlencoded_parse P body) opts (mode_for_response opts fallback))"

definition parse_authorization_response_multi ::
    "'w platform \<Rightarrow> (string \<times> string list) list \<Rightarrow> response_options \<Rightarrow> (error, authorization_response) result" where
  "parse_authorization_response_multi P m opts =
     parse_pairs P (concat (List.map (\<lambda>(k, vs). List.map (Pair k) vs) m)) opts (mode_for_response opts QueryMode)"

definition callback_channel :: "http_request_data \<Rightarrow> (error, (string \<times> string) list \<times> response_mode) result" where
  "callback_channel request =
     (if eq_ignore_ascii_case (hr_method request) ''GET'' then
        res_bind (ensure (owned (hr_form_pairs request) = [])
          (BadRequest ''authorization response parameters must not appear in the body of a query callback'')) (\<lambda>_.
        Inr (hr_query_pairs request, QueryMode))
      else if eq_ignore_ascii_case (hr_method request) ''POST'' then
        res_bind (ensure (owned (hr_query_pairs request) = [])
          (BadRequest ''authorization response parameters must not appear in the query string of a form_post callback'')) (\<lambda>_.
        res_bind (ensure (hr_form_pairs request \<noteq> []) (BadRequest ''a form_post callback needs a non-empty form body'')) (\<lambda>_.
        Inr (hr_form_pairs request, FormPostMode)))
      else Inl (BadRequest ''an authorization response arrives by GET or POST''))"

definition parse_authorization_response_request ::
    "'w platform \<Rightarrow> http_request_data \<Rightarrow> response_options \<Rightarrow> (error, authorization_response) result" where
  "parse_authorization_response_request P request opts =
     res_bind (callback_channel request) (\<lambda>(pairs, mode).
     res_bind (case ro_mode opts of
         Some m \<Rightarrow> ensure (m = mode \<or> m = JwtMode)
           (Config (''response mode '' @ mode_debug m @ '' does not match the request method (expected '' @ mode_debug mode @ '')''))
       | None \<Rightarrow> Inr ()) (\<lambda>_.
     parse_pairs P pairs opts mode))"

section \<open>What a parsed response is\<close>

definition clean_value :: "string \<Rightarrow> bool" where
  "clean_value v \<longleftrightarrow> v \<noteq> [] \<and> length (chars v) \<le> 2048 \<and> \<not> list_ex unclean_char (chars v)"

definition clean_error :: "string \<Rightarrow> bool" where
  "clean_error e \<longleftrightarrow> e \<noteq> [] \<and> length (chars e) \<le> 64 \<and> list_all error_byte e"

lemma check_nonempty_ok: "check_nonempty vs = Inr u \<longleftrightarrow> Some [] \<notin> snd ` set vs"
  by (induction vs rule: check_nonempty.induct) auto

lemma check_values_ok:
  "check_values vs = Inr u \<longleftrightarrow>
     (\<forall>v. Some v \<in> snd ` set vs \<longrightarrow> length (chars v) \<le> 2048 \<and> \<not> list_ex unclean_char (chars v))"
  by (induction vs rule: check_values.induct) (auto simp: check_value_def result_simps response_value_max_def)

text \<open>The shape of the values of a response.\<close>

definition well_shaped :: "authorization_response \<Rightarrow> bool" where
  "well_shaped r \<longleftrightarrow>
     (az_code r = None) \<noteq> (az_error r = None) \<and>
     pred_option clean_value (az_code r) \<and> pred_option clean_value (az_state r) \<and>
     pred_option clean_value (az_iss r) \<and> pred_option clean_error (az_error r) \<and>
     pred_option (capped 256) (az_error_description_safe r)"

lemma well_shaped_update [simp]:
  "well_shaped (r\<lparr>az_response_mode := m\<rparr>) = well_shaped r" "well_shaped (r\<lparr>az_jarm_response := t\<rparr>) = well_shaped r"
  "well_shaped (r\<lparr>az_jarm_verified := b\<rparr>) = well_shaped r"
  by (simp_all add: well_shaped_def)

lemma fields_validate_ok:
  assumes "fields_validate P f = Inr r"
  shows "well_shaped r \<and> az_code r = f_code f \<and> az_state r = f_state f \<and> az_error r = f_error f \<and> az_iss r = f_iss f \<and>
    az_error_description_safe r = map_option (\<lambda>d. escape_upstream_text d 256) (f_description f) \<and>
    az_error_uri r = Option.bind (f_uri f) (safe_error_uri P) \<and> az_jarm_response r = None \<and> \<not> az_jarm_verified r"
proof -
  from assms have g: "(f_code f = None) \<noteq> (f_error f = None)"
      "Some [] \<notin> {f_code f, f_state f, f_error f, f_iss f}"
      "\<forall>v. Some v \<in> {f_code f, f_state f, f_iss f} \<longrightarrow> length (chars v) \<le> 2048 \<and> \<not> list_ex unclean_char (chars v)"
      "pred_option (\<lambda>e. length (chars e) \<le> 64 \<and> list_all error_byte e) (f_error f)"
    and r: "az_code r = f_code f" "az_state r = f_state f" "az_error r = f_error f" "az_iss r = f_iss f"
      "az_error_description_safe r = map_option (\<lambda>d. escape_upstream_text d 256) (f_description f)"
      "az_error_uri r = Option.bind (f_uri f) (safe_error_uri P)" "az_jarm_response r = None" "\<not> az_jarm_verified r"
    by (auto simp: fields_validate_def result_simps check_nonempty_ok check_values_ok check_error_code_def
        error_description_safe_max_def simp del: check_nonempty.simps check_values.simps split: option.splits)
  have "pred_option clean_value (f_code f)" "pred_option clean_value (f_state f)" "pred_option clean_value (f_iss f)"
      "pred_option clean_error (f_error f)"
    using g(2-4) by (auto simp: clean_value_def clean_error_def option.pred_set)
  then show ?thesis using g(1) r escape_option_capped by (simp add: well_shaped_def)
qed

lemma safe_error_uri_ok:
  "safe_error_uri P s = Some t \<Longrightarrow>
     \<exists>u host. url_parse P s = Inr u \<and> t = u_text u \<and> u_host u = Some host \<and> u_username u = [] \<and> u_password u = None \<and>
       (u_scheme u = ''https'' \<or> u_scheme u = ''http'' \<and> is_loopback_host host)"
  by (auto simp: safe_error_uri_def split: if_splits sum.splits option.splits)

lemma map_of_owned: "k \<in> set RESPONSE_PARAMS \<Longrightarrow> map_of (owned pairs) k = map_of pairs k"
  by (simp add: owned_def map_of_filter_key)

lemma parse_pairs_ok:
  assumes "parse_pairs P pairs opts mode = Inr r"
  shows "distinct (List.map fst (owned pairs)) \<and>
    (case map_of pairs ''response'' of
       None \<Rightarrow> ro_mode opts \<noteq> Some JwtMode \<and>
         (\<exists>out. fields_validate P (fields_from pairs) = Inr out \<and> r = out\<lparr>az_response_mode := mode\<rparr>)
     | Some t \<Rightarrow> parse_stub opts (fields_from pairs) t = Inr r)"
proof -
  from assms obtain found where c: "collect_unique map_of bt_insert (\<lambda>n. BadRequest (n @ '' must not be repeated'')) []
      (owned pairs) = Inr found"
    by (auto simp: parse_pairs_def result_simps)
  have get: "map_of found k = map_of pairs k" if "k \<in> set RESPONSE_PARAMS" for k
    using btmap.collect_get(2) [OF c, of k] map_of_owned [OF that] by simp
  have "fields_from found = fields_from pairs" by (simp add: fields_from_def get RESPONSE_PARAMS_def)
  moreover have "map_of found ''response'' = map_of pairs ''response''" by (simp add: get RESPONSE_PARAMS_def)
  ultimately show ?thesis
    using assms btmap.collect_get(1) [OF c] by (auto simp: parse_pairs_def c result_simps split: option.splits)
qed

text \<open>
  C13.  What a parsed callback is.  None of the seven protocol parameters occurs twice.  A plain response
  has exactly one of code and error; the code, state, issuer and error are the values sent, not
  empty, within their lengths and character sets; the description is escaped and capped; an error URI
  survives only as an https (or loopback) URL without credentials.  A signed response was asked for by
  the options, is the only protocol parameter, and yields nothing but an unverified stub: no code, state,
  error or issuer, and no match with any expected state or issuer.
\<close>

theorem parsed_response_shape:
  assumes "parse_pairs P pairs opts mode = Inr r"
  shows "distinct (List.map fst (owned pairs)) \<and>
    (case map_of pairs ''response'' of
       None \<Rightarrow>
         well_shaped r \<and> az_code r = map_of pairs ''code'' \<and> az_state r = map_of pairs ''state'' \<and>
         az_error r = map_of pairs ''error'' \<and> az_iss r = map_of pairs ''iss'' \<and> az_response_mode r = mode \<and>
         az_jarm_response r = None \<and> ro_mode opts \<noteq> Some JwtMode \<and>
         (\<forall>t. az_error_uri r = Some t \<longrightarrow>
            (\<exists>s u host. map_of pairs ''error_uri'' = Some s \<and> url_parse P s = Inr u \<and> t = u_text u \<and> u_host u = Some host \<and>
               u_username u = [] \<and> u_password u = None \<and>
               (u_scheme u = ''https'' \<or> u_scheme u = ''http'' \<and> is_loopback_host host)))
     | Some t \<Rightarrow>
         r = jarm_stub t \<and> (ro_accept_unverified_jarm opts \<or> ro_mode opts = Some JwtMode) \<and>
         t \<noteq> [] \<and> length (chars t) \<le> 32768 \<and>
         list_all (\<lambda>k. map_of pairs k = None) (butlast RESPONSE_PARAMS) \<and>
         (\<forall>expected required. \<not> matches_state P r expected required \<and> \<not> matches_iss r expected required))"
proof (cases "map_of pairs ''response''")
  case None
  with parse_pairs_ok [OF assms] obtain out where f: "fields_validate P (fields_from pairs) = Inr out"
      "r = out\<lparr>az_response_mode := mode\<rparr>" "ro_mode opts \<noteq> Some JwtMode" "distinct (List.map fst (owned pairs))"
    by auto
  note v = fields_validate_ok [OF f(1)]
  have "well_shaped r" using v by (simp add: f(2))
  moreover have "\<exists>s u host. map_of pairs ''error_uri'' = Some s \<and> url_parse P s = Inr u \<and> t = u_text u \<and> u_host u = Some host \<and>
      u_username u = [] \<and> u_password u = None \<and> (u_scheme u = ''https'' \<or> u_scheme u = ''http'' \<and> is_loopback_host host)"
    if "az_error_uri r = Some t" for t
    using that v safe_error_uri_ok [of P _ t] by (fastforce simp: f(2) fields_from_def bind_eq_Some_conv)
  ultimately show ?thesis using v f(3,4) None by (simp add: f(2) fields_from_def)
next
  case (Some t)
  with parse_pairs_ok [OF assms] have s: "parse_stub opts (fields_from pairs) t = Inr r" and d: "distinct (List.map fst (owned pairs))"
    by auto
  have r: "r = jarm_stub t" using s by (auto simp: parse_stub_def result_simps)
  have "\<forall>expected required. \<not> matches_state P r expected required \<and> \<not> matches_iss r expected required"
    by (simp add: r matches_state_def matches_iss_def jarm_stub_def)
  then show ?thesis
    using Some s d r by (auto simp: parse_stub_def result_simps fields_from_def RESPONSE_PARAMS_def response_jarm_max_def)
qed

section \<open>Every input shape\<close>

text \<open>
  The contract of the four parsers: each reads the name and value pairs of its input and hands them to the same
  core, so that what holds of the core holds of every shape a callback arrives in.
\<close>

locale callback_input =
  fixes P :: "'w platform" and parse :: "'i \<Rightarrow> response_options \<Rightarrow> (error, authorization_response) result"
    and pairs :: "'i \<Rightarrow> (string \<times> string) list"
  assumes parsed: "parse i opts = Inr r \<Longrightarrow> \<exists>mode. parse_pairs P (pairs i) opts mode = Inr r"
begin

lemma sent_once: "parse i opts = Inr r \<Longrightarrow> distinct (List.map fst (owned (pairs i)))"
  using parsed parse_pairs_ok by blast

lemma shape: "parse i opts = Inr r \<Longrightarrow> well_shaped r \<and> az_jarm_response r = None \<or> (\<exists>t. r = jarm_stub t)"
proof -
  assume "parse i opts = Inr r"
  then obtain mode where "parse_pairs P (pairs i) opts mode = Inr r" using parsed by blast
  from parse_pairs_ok [OF this] show ?thesis
    by (cases "map_of (pairs i) ''response''") (auto simp: parse_stub_def result_simps dest!: fields_validate_ok)
qed

lemma value_sent:
  assumes "parse i opts = Inr r"
  shows "az_code r = Some c \<Longrightarrow> map_of (pairs i) ''code'' = Some c" "az_state r = Some s \<Longrightarrow> map_of (pairs i) ''state'' = Some s"
proof -
  from assms obtain mode where "parse_pairs P (pairs i) opts mode = Inr r" using parsed by blast
  from parse_pairs_ok [OF this]
  show "az_code r = Some c \<Longrightarrow> map_of (pairs i) ''code'' = Some c" "az_state r = Some s \<Longrightarrow> map_of (pairs i) ''state'' = Some s"
    by (cases "map_of (pairs i) ''response''"; auto simp: parse_stub_def jarm_stub_def result_simps fields_from_def dest!: fields_validate_ok)+
qed

end

interpretation pair_input: callback_input P "parse_authorization_response P" "\<lambda>pairs. pairs"
  for P :: "'w platform"
  by unfold_locales (auto simp: parse_authorization_response_def)

interpretation multi_input: callback_input P "parse_authorization_response_multi P"
    "\<lambda>m. concat (List.map (\<lambda>(k, vs). List.map (Pair k) vs) m)"
  for P :: "'w platform"
  by unfold_locales (auto simp: parse_authorization_response_multi_def)

interpretation text_input: callback_input P "parse_authorization_response_str P"
    "\<lambda>s. form_urlencoded_parse P (if s \<noteq> [] \<and> hd s \<in> {CHR ''?'', CHR ''#''} then tl s else s)"
  for P :: "'w platform"
  by unfold_locales (auto simp: parse_authorization_response_str_def Let_def split: list.splits if_splits)

lemma parse_pairs_owned: "parse_pairs P (owned pairs) = parse_pairs P pairs"
  by (simp add: fun_eq_iff parse_pairs_def owned_def)

lemma channel_owned:
  "callback_channel request = Inr (pairs, mode) \<Longrightarrow> owned (hr_query_pairs request @ hr_form_pairs request) = owned pairs"
  by (auto simp: callback_channel_def result_simps owned_def split: if_splits)

interpretation request_input: callback_input P "parse_authorization_response_request P"
    "\<lambda>request. owned (hr_query_pairs request @ hr_form_pairs request)"
  for P :: "'w platform"
proof unfold_locales
  fix request opts r
  assume "parse_authorization_response_request P request opts = Inr r"
  then obtain pairs mode where "callback_channel request = Inr (pairs, mode)" "parse_pairs P pairs opts mode = Inr r"
    by (auto simp: parse_authorization_response_request_def result_simps)
  then show "\<exists>mode. parse_pairs P (owned (hr_query_pairs request @ hr_form_pairs request)) opts mode = Inr r"
    by (metis channel_owned parse_pairs_owned)
qed

text \<open>
  A server callback is unpolluted: no protocol parameter occurs twice in query and form together, one of the two
  carries none, and the code and state returned are the ones sent.
\<close>

theorem callback_unpolluted:
  assumes "parse_authorization_response_request P request opts = Inr r"
  shows "distinct (List.map fst (owned (hr_query_pairs request @ hr_form_pairs request))) \<and>
    (owned (hr_query_pairs request) = [] \<or> owned (hr_form_pairs request) = []) \<and>
    (\<forall>c. az_code r = Some c \<longrightarrow> (''code'', c) \<in> set (hr_query_pairs request @ hr_form_pairs request)) \<and>
    (\<forall>s. az_state r = Some s \<longrightarrow> (''state'', s) \<in> set (hr_query_pairs request @ hr_form_pairs request))"
proof (intro conjI allI impI)
  show "distinct (List.map fst (owned (hr_query_pairs request @ hr_form_pairs request)))"
    using request_input.sent_once [OF assms] by (simp add: owned_def)
  show "owned (hr_query_pairs request) = [] \<or> owned (hr_form_pairs request) = []"
    using assms by (auto simp: parse_authorization_response_request_def callback_channel_def result_simps split: if_splits)
qed (auto dest!: request_input.value_sent [OF assms] map_of_SomeD simp: owned_def)

section \<open>What a verified signed response is\<close>

lemma string_claim_ok:
  "string_claim claims name = Inr v \<longleftrightarrow>
     bt_get (c_extra claims) name = map_option JString v"
  by (cases v) (auto simp: string_claim_def split: option.splits json.splits)

lemma jarm_fields_ok:
  "jarm_fields claims = Inr f \<Longrightarrow>
     bt_get (c_extra claims) ''code'' = map_option JString (f_code f) \<and>
     bt_get (c_extra claims) ''state'' = map_option JString (f_state f) \<and>
     bt_get (c_extra claims) ''error'' = map_option JString (f_error f) \<and> f_iss f = c_iss claims"
  by (auto simp: jarm_fields_def result_simps string_claim_ok)

lemma jarm_token_ok: "jarm_token r = Inr t \<longleftrightarrow> az_jarm_response r = Some t \<and> \<not> az_jarm_verified r"
  by (auto simp: jarm_token_def split: option.splits)

lemma check_jarm_typ_ok:
  "check_jarm_typ t opts = Inr u \<longleftrightarrow>
     (case t of Some t \<Rightarrow> norm_typ t = norm_typ (jo_expected_typ opts) \<or> (jo_allow_missing_typ opts \<and> norm_typ t = ''jwt'')
      | None \<Rightarrow> jo_allow_missing_typ opts)"
  by (auto simp: check_jarm_typ_def result_simps split: option.splits)

lemma jarm_validation_fields:
  "v_issuer (jarm_validation P opts ks) = Some (jo_issuer opts)" "v_audience (jarm_validation P opts ks) = Some (jo_client_id opts)"
  "v_require_exp (jarm_validation P opts ks)" "v_algs (jarm_validation P opts ks) = Some (jo_allowed_algorithms opts)"
  "1 < length ks \<Longrightarrow> v_require_kid (jarm_validation P opts ks)"
  by (simp_all add: jarm_validation_def Let_def split: option.splits)

lemma verify_jarm_ok:
  assumes "verify_jarm P r jwks opts w = (Inr out, w')"
  shows "\<exists>t h claims f resp. az_jarm_response r = Some t \<and> \<not> az_jarm_verified r \<and> jo_allowed_algorithms opts \<noteq> [] \<and>
    jo_issuer opts \<noteq> [] \<and> check_compact t = Inr () \<and> peek_header P t = Inr h \<and> check_jarm_typ (h_typ h) opts = Inr () \<and>
    (1 < length jwks \<longrightarrow> h_kid h \<noteq> None) \<and> ensure_kid_names_key jwks (h_kid h) ''JARM response'' = Inr () \<and>
    verify_with_jwks P jwks t (jarm_validation P opts jwks) w = (Inr claims, w') \<and>
    audience_is_exactly (jo_client_id opts) claims \<and> c_iss claims = Some (jo_issuer opts) \<and>
    jarm_fields claims = Inr f \<and> fields_validate P f = Inr resp \<and>
    out = resp\<lparr>az_jarm_response := Some t, az_jarm_verified := True, az_response_mode := JwtMode\<rparr>"
  using assms by (auto simp: verify_jarm_def prog_ok jarm_token_ok)

text \<open>
  C30.  A signed authorization response is accepted only from an unverified stub, and only if
  \<^verbatim>\<open>jose-rs\<close> verified its three-part token with the provider's keys under an allowed algorithm, it
  expires, its issuer is the expected one and its audience exactly this client, a key id names a key
  (and is present when there are several), and its type identifies a JARM response, unless a missing or
  generic type was opted into; an ID token or access token marked as such never passes for one.  The code, state
  and error returned are the string claims of that token, of the shape of a plain response, and the
  issuer check on the result succeeds.
\<close>

theorem jarm_accepted:
  assumes "verify_jarm P r jwks opts w = (Inr out, w')" and "jose_validates P"
  shows "\<exists>t h v claims. az_jarm_response r = Some t \<and> \<not> az_jarm_verified r \<and>
    jwt_decode_with_jwkset P jwks t v w = (Inr claims, w') \<and> v_algs v = Some (jo_allowed_algorithms opts) \<and>
    jo_allowed_algorithms opts \<noteq> [] \<and> length (split_char (CHR ''.'') t) = 3 \<and>
    c_iss claims = Some (jo_issuer opts) \<and> audience_is_exactly (jo_client_id opts) claims \<and> c_exp claims \<noteq> None \<and>
    peek_header P t = Inr h \<and> (1 < length jwks \<longrightarrow> h_kid h \<noteq> None) \<and>
    (\<forall>k. h_kid h = Some k \<longrightarrow> (\<exists>key \<in> set jwks. jwk_kid key = Some k)) \<and>
    (\<not> jo_allow_missing_typ opts \<longrightarrow> (\<exists>ty. h_typ h = Some ty \<and> norm_typ ty = norm_typ (jo_expected_typ opts))) \<and>
    (\<forall>ty. h_typ h = Some ty \<longrightarrow> norm_typ ty \<in> {norm_typ (jo_expected_typ opts), ''jwt''}) \<and>
    well_shaped out \<and> az_jarm_verified out \<and> matches_iss out (jo_issuer opts) True \<and>
    bt_get (c_extra claims) ''code'' = map_option JString (az_code out) \<and>
    bt_get (c_extra claims) ''state'' = map_option JString (az_state out) \<and>
    bt_get (c_extra claims) ''error'' = map_option JString (az_error out)"
proof -
  let ?v = "jarm_validation P opts jwks"
  obtain t h claims f resp where f: "az_jarm_response r = Some t" "\<not> az_jarm_verified r" "jo_allowed_algorithms opts \<noteq> []"
      "jo_issuer opts \<noteq> []" "check_compact t = Inr ()" "peek_header P t = Inr h" "check_jarm_typ (h_typ h) opts = Inr ()"
      "1 < length jwks \<longrightarrow> h_kid h \<noteq> None" "ensure_kid_names_key jwks (h_kid h) ''JARM response'' = Inr ()"
      "verify_with_jwks P jwks t ?v w = (Inr claims, w')" "audience_is_exactly (jo_client_id opts) claims"
      "c_iss claims = Some (jo_issuer opts)" "jarm_fields claims = Inr f" "fields_validate P f = Inr resp"
      and out: "out = resp\<lparr>az_jarm_response := Some t, az_jarm_verified := True, az_response_mode := JwtMode\<rparr>"
    using verify_jarm_ok [OF assms(1)] by blast
  note v = fields_validate_ok [OF f(14)] and c = jarm_fields_ok [OF f(13)]
  have "jwt_decode_with_jwkset P jwks t ?v w = (Inr claims, w')"
    using f(10) by (simp add: verify_with_jwks_def mapErrP_ok)
  moreover have "c_exp claims \<noteq> None"
    using jose_validatesD [OF assms(2) f(10)] by (simp add: claims_meet_def jarm_validation_fields)
  moreover have "length (split_char (CHR ''.'') t) = 3" using f(5) by (simp add: check_compact_def Let_def split: if_splits)
  moreover have "\<forall>k. h_kid h = Some k \<longrightarrow> (\<exists>key \<in> set jwks. jwk_kid key = Some k)"
    using f(9) by (auto simp: ensure_kid_ok)
  moreover have "\<not> jo_allow_missing_typ opts \<longrightarrow> (\<exists>ty. h_typ h = Some ty \<and> norm_typ ty = norm_typ (jo_expected_typ opts))"
    "\<forall>ty. h_typ h = Some ty \<longrightarrow> norm_typ ty \<in> {norm_typ (jo_expected_typ opts), ''jwt''}"
    using f(7) by (auto simp: check_jarm_typ_ok split: option.splits)
  moreover have "matches_iss out (jo_issuer opts) True" "well_shaped out" "az_jarm_verified out"
    using v c f(4,12) by (simp_all add: out matches_iss_def)
  ultimately show ?thesis
    using f(1,2,3,6,8,11,12) v c jarm_validation_fields(4) [of P opts jwks]
    by (intro exI [of _ t] exI [of _ h] exI [of _ ?v] exI [of _ claims]) (simp add: out)
qed

section \<open>Binding to the session\<close>

text \<open>
  The two session checks fail closed.  When the state (the issuer) is required, the check succeeds
  exactly if the session value is not empty, the response carries that very value, and a signed
  response has been verified; an empty session value matches nothing even when the check is optional.
  The hypothesis is that the constant-time comparison decides equality.
\<close>

theorem session_checks_fail_closed:
  assumes "\<forall>a b. ct_eq P a b \<longleftrightarrow> a = b"
  shows "(matches_state P r expected True \<longleftrightarrow>
       expected \<noteq> [] \<and> az_state r = Some expected \<and> (az_jarm_response r = None \<or> az_jarm_verified r)) \<and>
    (matches_iss r expected True \<longleftrightarrow>
       expected \<noteq> [] \<and> az_iss r = Some expected \<and> (az_jarm_response r = None \<or> az_jarm_verified r)) \<and>
    \<not> matches_state P r [] required \<and> \<not> matches_iss r [] required \<and>
    (matches_state P r expected required \<longrightarrow> az_state r \<in> {None, Some expected}) \<and>
    (matches_iss r expected required \<longrightarrow> az_iss r \<in> {None, Some expected})"
  using assms by (auto simp: matches_state_def matches_iss_def split: option.splits)

text \<open>
  The \<^verbatim>\<open>Debug\<close> output of a response does not depend on its code, its state or its signed token
  beyond whether each is present: two responses that differ in nothing else print the same.
\<close>

theorem debug_hides_secrets:
  "response_debug (r\<lparr>az_code := map_option f (az_code r), az_state := map_option g (az_state r),
     az_jarm_response := map_option h (az_jarm_response r)\<rparr>) = response_debug r"
  by (simp add: response_debug_def debug_set_def)

section \<open>Concrete responses\<close>

definition callback_pairs :: "(string \<times> string) list" where
  "callback_pairs = [(''code'', ''c1''), (''state'', ''st''), (''iss'', ''https://op''), (''session_state'', ''x'')]"

definition callback_response :: authorization_response where
  "callback_response = \<lparr>az_code = Some ''c1'', az_state = Some ''st'', az_error = None, az_error_description_safe = None,
     az_error_uri = None, az_iss = Some ''https://op'', az_jarm_response = None, az_jarm_verified = False,
     az_response_mode = QueryMode\<rparr>"

lemma callback_values_clean:
  "list_all (\<lambda>v. length (chars v) \<le> response_value_max \<and> \<not> list_ex unclean_char (chars v)) [''c1'', ''st'', ''https://op'']"
  by code_simp

lemma callback_parsed:
  "parse_pairs P callback_pairs response_options_new QueryMode = Inr callback_response"
  using callback_values_clean
  by (simp add: parse_pairs_def callback_pairs_def owned_def RESPONSE_PARAMS_def insert_unique_def fields_from_def
      response_options_new_def fields_validate_def check_value_def callback_response_def)

theorem parsed_response_shape_witness:
  "well_shaped callback_response \<and> az_code callback_response = Some ''c1''"
  using parsed_response_shape [OF callback_parsed, of "sample_platform still []"] by (simp add: callback_pairs_def)

definition jarm_header :: jose_header where
  "jarm_header = op_header\<lparr>h_typ := Some ''application/oauth-authz-resp+jwt''\<rparr>"

definition jarm_claims :: claims where
  "jarm_claims = login_claims [(''code'', JString ''c1''), (''state'', JString ''st'')]"

lemma jarm_verified_sample:
  "verify_jarm (jose_platform jarm_header jarm_claims) (jarm_stub ''a.b.c'') [op_key]
     (jarm_options_new ''https://op'' ''rp'' JARM_ASYMMETRIC_ALGORITHMS) () =
   (Inr (callback_response\<lparr>az_jarm_response := Some ''a.b.c'', az_jarm_verified := True, az_response_mode := JwtMode\<rparr>), ())"
proof -
  have t: "check_compact ''a.b.c'' = Inr ()" "norm_typ ''application/oauth-authz-resp+jwt'' = norm_typ JARM_TYP" by code_simp+
  have "jarm_fields jarm_claims = Inr \<lparr>f_code = Some ''c1'', f_state = Some ''st'', f_error = None, f_description = None,
      f_uri = None, f_iss = Some ''https://op''\<rparr>"
    by (simp add: jarm_fields_def string_claim_def jarm_claims_def login_claims_def)
  moreover have "fields_validate (jose_platform jarm_header jarm_claims) \<lparr>f_code = Some ''c1'', f_state = Some ''st'',
      f_error = None, f_description = None, f_uri = None, f_iss = Some ''https://op''\<rparr> = Inr callback_response"
    using callback_values_clean by (simp add: fields_validate_def check_value_def callback_response_def)
  ultimately show ?thesis
    using t by (simp add: verify_jarm_def jarm_token_def jarm_stub_def jarm_options_new_def JARM_ASYMMETRIC_ALGORITHMS_def
        peek_header_def verify_with_jwks_def jose_platform_def check_jarm_typ_def jarm_header_def op_header_def op_key_def
        ensure_kid_names_key_def jarm_validation_def Let_def bindP_def mapErrP_def)
      (simp add: jarm_claims_def login_claims_def claims_default_def claims_meet_def audience_is_exactly_def)
qed

theorem jarm_accepted_witness:
  "\<exists>claims. c_iss claims = Some ''https://op'' \<and> audience_is_exactly ''rp'' claims \<and>
     bt_get (c_extra claims) ''code'' = Some (JString ''c1'')"
  using jarm_accepted [OF jarm_verified_sample jose_platform_validates]
  by (auto simp: jarm_options_new_def callback_response_def)

theorem session_checks_fail_closed_witness:
  "matches_state (sample_platform still []) callback_response ''st'' True \<and>
   \<not> matches_state (sample_platform still []) callback_response [] False"
  using session_checks_fail_closed [of "sample_platform still []" callback_response "''st''" False]
  by (simp add: sample_platform_def callback_response_def)

end
