(* ===== verification/Code_Flow.thy ===== *)
theory Code_Flow
  imports Example_Run Released_Claims
begin

text \<open>
  The authorization-code flow from the authorization response to the token response: what the
  holder of an issued code can obtain at the token endpoint, in terms of the authorization request
  the code was issued for.
\<close>

lemma mint_issues_code:
  assumes "mint_authorization_response P p req sub ext acr extra auth_time w = (Inr resp, w')"
    and "wants_code req" and "now_secs P w = (now, w1)"
  shows "\<exists>id_token code access_token wa wb.
    resp = redirect_with P (ar_redirect_uri req) (response_params p req id_token (Some code) access_token) (use_fragment req) \<and>
    seal_code P (pv_codec p) (mint_code_payload p req sub (released_claims (ar_scope req) ext extra) acr
      (case auth_time of Some t \<Rightarrow> t | None \<Rightarrow> now) now) wa = (Inr code, wb)"
  using assms by (auto simp: mint_authorization_response_def Let_def prog_ok whenP_ok)

text \<open>The exchange with answer \<open>r\<close> redeemed the request \<open>req\<close>, authorized for \<open>sub\<close> with \<open>claims\<close>, before \<open>exp\<close>.\<close>

definition redeemed_as ::
    "'w platform \<Rightarrow> 'w provider \<Rightarrow> authorization_request \<Rightarrow> string \<Rightarrow> json btree \<Rightarrow> u64 \<Rightarrow> string btree \<Rightarrow>
     string option \<Rightarrow> string \<Rightarrow> dpop_proof option \<Rightarrow> 'w \<Rightarrow> token_response \<Rightarrow> bool" where
  "redeemed_as P p req sub claims exp form hdr url dpop w2 r \<longleftrightarrow>
    (\<exists>client t wa wb t' wc wd we. authenticate_client_map P p form hdr url w2 = (Inr client, wa) \<and>
      now_secs P wa = (t, wb) \<and> t < exp \<and>
      cl_client_id client = ar_client_id req \<and>
      (ar_redirect_uri req = [] \<or> map_of form ''redirect_uri'' = Some (ar_redirect_uri req)) \<and>
      (\<forall>ch. ar_code_challenge req = Some ch \<longrightarrow>
         (\<exists>v. map_of form ''code_verifier'' = Some v \<and> pkce_verify P v ch (ar_code_challenge_method req))) \<and>
      tr_scope r = Some (ar_scope req) \<and>
      now_secs P wc = (t', wd) \<and>
      seal_access_token P (pv_codec p)
        \<lparr>at_client_id = ar_client_id req, at_sub = sub, at_scope = ar_scope req,
         at_claims = claims,
         at_exp = t' + access_token_ttl (pv_lifetimes p), at_cnf_jkt = map_option jkt dpop\<rparr> wd
        = (Inr (tr_access_token r), we))"

text \<open>
  C5.  A code issued for an authorization request redeems only as that request: whenever the token
  endpoint answers an exchange of the code with a token, at whatever later time and for whatever form,
  the code had not expired, the authenticated client is the one the request named, the form repeats
  the redirect URI of the request, a challenge of the request is met by the verifier of the form, and
  the access token issued carries the subject the request was authorized for, the scope of the request
  and the claims released then.  The hypotheses on the environment are authenticated encryption, that
  \<^verbatim>\<open>serde_json\<close> reads back the envelope of this code, that the codec has a key, and that the host's claims are
  well-formed maps.
\<close>

theorem code_flow_end_to_end:
  assumes "mint_authorization_response P p req sub ext acr extra auth_time w = (Inr resp, w')"
    and "wants_code req" and "now_secs P w = (now, w1)"
    and "aead_sound P" and "tc_keys (pv_codec p) \<noteq> []"
    and "bt_ok ext" and "claims_normal extra"
    and "json_trip P (sealed_envelope TYP_CODE (code_to_json (mint_code_payload p req sub
      (released_claims (ar_scope req) ext extra) acr (case auth_time of Some t \<Rightarrow> t | None \<Rightarrow> now) now)))"
  shows "\<exists>code id_token access_token wa wb.
    resp = redirect_with P (ar_redirect_uri req) (response_params p req id_token (Some code) access_token) (use_fragment req) \<and>
    seal_code P (pv_codec p) (mint_code_payload p req sub (released_claims (ar_scope req) ext extra) acr
      (case auth_time of Some t \<Rightarrow> t | None \<Rightarrow> now) now) wa = (Inr code, wb) \<and>
    (\<forall>form hdr url dpop w2 r w3. map_of form ''code'' = Some code \<longrightarrow>
       handle_authorization_code P p form hdr url dpop w2 = (Inr r, w3) \<longrightarrow>
       redeemed_as P p req sub (released_claims (ar_scope req) ext extra) (now + code_ttl (pv_lifetimes p)) form hdr url dpop w2 r)"
    (is "\<exists>code id_token access_token wa wb. ?R code id_token access_token \<and> ?S code wa wb \<and> ?E code")
proof -
  let ?pl = "mint_code_payload p req sub (released_claims (ar_scope req) ext extra) acr
      (case auth_time of Some t \<Rightarrow> t | None \<Rightarrow> now) now"
  obtain id_token code access_token ws ws' where r: "?R code id_token access_token"
      and s: "seal_code P (pv_codec p) ?pl ws = (Inr code, ws')"
    using mint_issues_code [OF assms(1-3)] by blast
  have k: "hd (tc_keys (pv_codec p)) \<in> set (tc_keys (pv_codec p))" using assms(5) by simp
  have "claims_normal (ac_claims ?pl)" using released_normal [OF assms(6,7)] by (simp add: mint_code_payload_def)
  note o = open_sealed_code [OF s assms(4) k assms(8) this]
  have "?E code"
  proof (intro allI impI)
    fix form hdr url dpop w2 r w3
    assume c: "map_of form ''code'' = Some code" and "handle_authorization_code P p form hdr url dpop w2 = (Inr r, w3)"
    from code_exchange [OF this(2)] obtain client code' payload t' wa wb wc wd we where
        e: "code_exchanged P p form hdr url dpop w2 r client code' payload t' wa wb wc wd we" by blast
    with c have "code' = code" by (simp add: code_exchanged_def)
    moreover obtain t wx where "now_secs P wa = (t, wx)" by fastforce
    ultimately have "t < ac_exp ?pl" "payload = ?pl" "now_secs P wa = (t, wb)"
      using e o [of wa] by (auto simp: code_exchanged_def split: if_splits)
    with e show "redeemed_as P p req sub (released_claims (ar_scope req) ext extra) (now + code_ttl (pv_lifetimes p)) form hdr url dpop w2 r"
      unfolding redeemed_as_def by (intro exI [of _ client] exI [of _ t] exI [of _ wa] exI [of _ wb] exI [of _ t'] exI [of _ wc] exI [of _ wd] exI [of _ we])
        (simp add: code_exchanged_def mint_code_payload_def)
  qed
  with r s show ?thesis by blast
qed

text \<open>The code of the concrete response, on the platform of the concrete exchange.\<close>

lemma exchange_seals:
  "seal_code exchange_platform (pv_codec sample_provider) minted_code w = (Inr minted_token, w)"
  by (simp add: seal_code_def token_seal_def sample_codec minted_token_def pad32_def mapErrP_def bindP_def)

lemma exchange_mints:
  "mint_authorization_response exchange_platform sample_provider code_request ''alice'' [] None [] None
     (fresh_world [100] cs) =
   (Inr (redirect_with exchange_platform ''https://rp/cb'' [(''code'', minted_token), (''state'', ''s'')] False),
    fresh_world [100] cs)"
proof -
  have "world_clock (fresh_world [100] cs) = (100, fresh_world [100] cs)"
    by (simp add: world_clock_def fresh_world_def)
  moreover have "released_claims (ar_scope code_request) [] [] = []"
    by (simp add: released_claims_def flatten_claims_def filter_claims_def)
  ultimately show ?thesis
    using code_request_checks exchange_seals [of "fresh_world [100] cs"]
    by (simp add: mint_authorization_response_def check_iss_redirect_collision_def sample_flags bindP_def effP_def
        whenP_def mapErrP_def minted_code_def response_params_def,
        simp add: code_request_def sample_request_def)
qed

lemma exchange_aead: "aead_sound exchange_platform"
  using sample_aead [of world_clock "[sealed_envelope TYP_CODE (code_to_json minted_code)]"]
  by (simp add: exchange_on_def aead_sound_def sample_platform_def)

lemma exchange_trip: "json_trip exchange_platform (sealed_envelope TYP_CODE (code_to_json minted_code))"
  by (simp add: json_trip_def exchange_on_def sample_platform_def)

theorem code_flow_end_to_end_witness:
  "\<exists>r w'. handle_authorization_code exchange_platform sample_provider code_form None ''u'' None
       (fresh_world [200] [public_client]) = (Inr r, w') \<and>
     redeemed_as exchange_platform sample_provider code_request ''alice'' [] 700 code_form None ''u'' None
       (fresh_world [200] [public_client]) r"
proof -
  have n: "released_claims (ar_scope code_request) [] [] = []"
    by (simp add: released_claims_def flatten_claims_def filter_claims_def)
  have t: "now_secs exchange_platform (fresh_world [100] []) = (100, fresh_world [100] [])"
    by (simp add: world_clock_def fresh_world_def)
  have c: "wants_code code_request" "tc_keys (pv_codec sample_provider) \<noteq> []"
    using code_request_checks by (simp_all add: sample_codec)
  obtain code wa wb where s: "seal_code exchange_platform (pv_codec sample_provider) minted_code wa = (Inr code, wb)" and
      e: "\<forall>form hdr url dpop w2 r w3. map_of form ''code'' = Some code \<longrightarrow>
       handle_authorization_code exchange_platform sample_provider form hdr url dpop w2 = (Inr r, w3) \<longrightarrow>
       redeemed_as exchange_platform sample_provider code_request ''alice'' []
         (100 + code_ttl (pv_lifetimes sample_provider)) form hdr url dpop w2 r"
    using code_flow_end_to_end [OF exchange_mints c(1) t exchange_aead c(2)] exchange_trip
    by (auto simp: n minted_code_def)
  from s have "code = minted_token" by (simp add: exchange_seals)
  obtain r w' where h: "handle_authorization_code exchange_platform sample_provider code_form None ''u'' None
      (fresh_world [200] [public_client]) = (Inr r, w')"
    using exchange_at [of 200 "''u''" None] by auto
  have "map_of code_form ''code'' = Some minted_token" by (simp add: code_form_def)
  with e [rule_format, OF _ h] \<open>code = minted_token\<close> h show ?thesis by (auto simp: sample_flags lifetimes_default_def)
qed

end
