(* ===== verification/Login_Flow.thy ===== *)
theory Login_Flow
  imports Relying_Party Callback Code_Flow
begin

text \<open>
  Both sides of the library together: what a relying party sends, the provider reads as meant, and what the provider answers,
  the relying party accepts.  These are completeness properties; the checks of each side are in
  the theories of the components.
\<close>

section \<open>The authorization request arrives\<close>

lemma map_fst_filter: "List.map fst (filter (\<lambda>(n, _). p n) xs) = filter p (List.map fst xs)"
  by (induction xs) auto

lemma from_params_total:
  assumes "map_of u ''client_id'' = Some c" and "map_of u ''response_type'' = Some t" and "map_of u ''redirect_uri'' = Some d"
    and "\<forall>s. map_of u ''state'' = Some s \<longrightarrow> is_valid_state s" and "map_of u ''claims'' = None"
  shows "\<exists>r. from_params P u = Inr r \<and> ar_client_id r = c \<and> ar_response_type r = t \<and> ar_redirect_uri r = d \<and>
    ar_scope r = (case map_of u ''scope'' of Some s \<Rightarrow> s | None \<Rightarrow> []) \<and> ar_state r = map_of u ''state'' \<and>
    ar_nonce r = map_of u ''nonce'' \<and> ar_code_challenge r = map_of u ''code_challenge'' \<and>
    ar_code_challenge_method r = map_of u ''code_challenge_method''"
  using assms by (auto simp: from_params_def Let_def split: option.splits)

lemma from_pairs_of_request:
  assumes "authorization_url P provider client state nonce cc extra = Inr loc"
    and "url_parse P (pi_authorization_endpoint provider) = Inr u"
    and "pairs = u_query_pairs u @ authorization_params client state nonce cc extra"
    and "is_valid_state state" and "map_of pairs ''claims'' = None"
  shows "\<exists>req. from_pairs P pairs = Inr req \<and> ar_client_id req = rp_client_id client \<and> ar_response_type req = ''code'' \<and>
    ar_redirect_uri req = rp_redirect_uri client \<and> ar_scope req = rp_scope client \<and> ar_state req = Some state \<and>
    ar_nonce req = Some nonce \<and> ar_code_challenge req = cc \<and>
    ar_code_challenge_method req = (if cc = None then None else Some ''S256'') \<and> is_oidc req"
proof -
  let ?q = "u_query_pairs u" and ?ps = "authorization_params client state nonce cc extra"
  note ok = authorization_url_ok [OF assms(1)]
  have fresh: "fresh_names {} (List.map fst ?q)" "fresh_names (set (List.map fst ?q) - {''resource''}) (List.map fst extra)"
    using ok(3) assms(2) by auto
  have q: "map_of ?q k = None" if "k \<in> set library_params" for k
    using fresh(1) that by (auto simp: fresh_names_def map_of_eq_None_iff)
  have e: "map_of extra k = None" if "k \<in> set library_params" for k
    using fresh(2) that by (auto simp: fresh_names_def map_of_eq_None_iff)
  have get: "map_of pairs k = map_of ?ps k" if "k \<in> set library_params" for k
    using q [OF that] by (simp add: assms(3) map_add_def)
  have "distinct (List.map fst (filter (\<lambda>(n, _). n \<noteq> ''resource'') pairs))"
    using authorization_names_distinct [OF fresh, of client state nonce cc]
    by (simp add: assms(3) map_fst_filter)
  then obtain m where c: "collect_unique map_of bt_insert (\<lambda>n. invalid_request (''duplicate authorization parameter: '' @ n)) []
      (filter (\<lambda>(n, _). n \<noteq> ''resource'') pairs) = Inr m"
    using btmap.collect_total by blast
  have mget: "map_of m k = map_of pairs k" if "k \<noteq> ''resource''" for k
    using that btmap.collect_get(2) [OF c, of k] by (simp add: map_of_filter_key)
  have lib: "map_of m k = map_of ?ps k" if "k \<in> set library_params" for k
    using get [OF that] that mget [of k] distinct_library_params(2) by force
  have "map_of m ''client_id'' = Some (rp_client_id client)" "map_of m ''response_type'' = Some ''code''"
      "map_of m ''redirect_uri'' = Some (rp_redirect_uri client)" "map_of m ''scope'' = Some (rp_scope client)"
      "map_of m ''state'' = Some state" "map_of m ''nonce'' = Some nonce" "map_of m ''code_challenge'' = cc"
      "map_of m ''code_challenge_method'' = (if cc = None then None else Some ''S256'')"
    using e by (auto simp: lib library_params_def authorization_params_def split: option.splits)
  moreover have "map_of m ''claims'' = None" using mget [of "''claims''"] assms(5) by simp
  ultimately obtain r where "from_params P m = Inr r" "ar_client_id r = rp_client_id client" "ar_response_type r = ''code''"
      "ar_redirect_uri r = rp_redirect_uri client" "ar_scope r = rp_scope client" "ar_state r = Some state"
      "ar_nonce r = Some nonce" "ar_code_challenge r = cc"
      "ar_code_challenge_method r = (if cc = None then None else Some ''S256'')"
    using from_params_total [of m "rp_client_id client" "''code''" "rp_redirect_uri client" P] assms(4) by auto
  moreover have "''openid'' \<in> set (split_whitespace (rp_scope client))" using ok(1) by (simp add: check_request_ok)
  moreover have "from_pairs_loop [] [] pairs = Inr (m, [] @ List.map snd (filter (\<lambda>(n, _). n = ''resource'') pairs))"
    unfolding from_pairs_loop_collect c by (rule res_bind_simps)
  ultimately show ?thesis by (auto simp: from_pairs_def is_oidc_def scopes_def)
qed

text \<open>
  The query of a URL text, and what is assumed of the two parsers of queries: the form parser reads the parts between
  ampersands one by one and nothing from the empty text, and the URL parser reads the query of the endpoint as
  the form parser does.
\<close>

definition query_of :: "string \<Rightarrow> string" where
  "query_of s = (case split_once (CHR ''?'') s of Some (_, q) \<Rightarrow> q | None \<Rightarrow> [])"

definition parses_queries :: "'w platform \<Rightarrow> string \<Rightarrow> bool" where
  "parses_queries P endpoint \<longleftrightarrow> form_urlencoded_parse P [] = [] \<and>
     (\<forall>a b. form_urlencoded_parse P (a @ CHR ''&'' # b) = form_urlencoded_parse P a @ form_urlencoded_parse P b) \<and>
     (\<forall>u. url_parse P endpoint = Inr u \<longrightarrow> u_query_pairs u = form_urlencoded_parse P (query_of endpoint))"

lemma query_of_joined:
  "query_of (s @ (if CHR ''?'' \<in> set s then ''&'' else ''?'') @ q) =
     (if CHR ''?'' \<in> set s then query_of s @ CHR ''&'' # q else q)"
proof (cases "CHR ''?'' \<in> set s")
  case True
  then obtain a b where "split_once (CHR ''?'') s = Some (a, b)" by (cases "split_once (CHR ''?'') s") auto
  then have "s = a @ CHR ''?'' # b" "CHR ''?'' \<notin> set a" by (simp_all add: split_once_Some)
  then show ?thesis by (simp add: query_of_def)
qed (simp add: query_of_def)

text \<open>
  C15.  The provider reads an authorization URL of the relying party as it was meant.  From the query of the very
  URL the relying party built, whether or not the endpoint has a query of its own, it parses a request
  with the relying party's client, redirect URI, scope, state, nonce and PKCE challenge, for response type
  \<^verbatim>\<open>code\<close>: no parameter of the endpoint and no extra parameter gets in the way of these.  The state is one
  the provider takes, and neither the endpoint nor the extra parameters have \<^verbatim>\<open>claims\<close>, which the provider would
  parse further.  Form decoding undoes form encoding.
\<close>

theorem authorization_request_arrives:
  assumes "authorization_url P provider client state nonce cc extra = Inr loc"
    and "parses_queries P (pi_authorization_endpoint provider)"
    and "form_urlencoded_parse P (encode_params P (authorization_params client state nonce cc extra)) =
      authorization_params client state nonce cc extra"
    and "is_valid_state state" and "map_of (form_urlencoded_parse P (query_of loc)) ''claims'' = None"
  shows "\<exists>req. from_pairs P (form_urlencoded_parse P (query_of loc)) = Inr req \<and>
    ar_client_id req = rp_client_id client \<and> ar_response_type req = ''code'' \<and>
    ar_redirect_uri req = rp_redirect_uri client \<and> ar_scope req = rp_scope client \<and> ar_state req = Some state \<and>
    ar_nonce req = Some nonce \<and> ar_code_challenge req = cc \<and>
    ar_code_challenge_method req = (if cc = None then None else Some ''S256'') \<and> is_oidc req"
proof -
  obtain u where u: "url_parse P (pi_authorization_endpoint provider) = Inr u"
    using authorization_url_ok(3) [OF assms(1)] by blast
  have q: "query_of loc = (if CHR ''?'' \<in> set (pi_authorization_endpoint provider)
      then query_of (pi_authorization_endpoint provider) @ CHR ''&'' # encode_params P (authorization_params client state nonce cc extra)
      else encode_params P (authorization_params client state nonce cc extra))"
    unfolding authorization_url_ok(2) [OF assms(1)] by (rule query_of_joined)
  have "query_of (pi_authorization_endpoint provider) = []" if "CHR ''?'' \<notin> set (pi_authorization_endpoint provider)"
    using that by (simp add: query_of_def split_once_None [THEN iffD2])
  then have "form_urlencoded_parse P (query_of loc) = u_query_pairs u @ authorization_params client state nonce cc extra"
    using assms(2,3) u by (simp add: q parses_queries_def)
  from from_pairs_of_request [OF assms(1) u this assms(4,5)] show ?thesis .
qed

section \<open>The authorization response arrives\<close>

text \<open>
  The callback of a code response is accepted: from the parameters the provider puts in the redirect
  the relying party parses the code, and the state and (when the provider sends it) issuer checks of the session that
  sent the request succeed.  The hypotheses are that code, state and issuer are within the
  callback's limits and that the constant-time comparison decides equality.
\<close>

theorem code_response_arrives:
  assumes "ar_state req = Some st" and "clean_value code" and "clean_value st" and "clean_value (issuer p)"
    and "\<forall>a b. ct_eq P a b \<longleftrightarrow> a = b"
  shows "\<exists>r. parse_pairs P (response_params p req None (Some code) None) response_options_new QueryMode = Inr r \<and>
    az_code r = Some code \<and> \<not> is_error r \<and> matches_state P r st True \<and> matches_iss r (issuer p) (pv_emit_iss p)"
proof -
  have v: "check_value n x = Inr ()" "x \<noteq> []" if "clean_value x" for n x
    using that by (simp_all add: clean_value_def check_value_def response_value_max_def)
  show ?thesis
    using assms v [OF assms(2)] v [OF assms(3)] v [OF assms(4)]
    by (cases "pv_emit_iss p")
      (simp_all add: response_params_def parse_pairs_def owned_def RESPONSE_PARAMS_def insert_unique_def fields_from_def
        response_options_new_def fields_validate_def is_error_def matches_state_def matches_iss_def)
qed

section \<open>The ID token is accepted\<close>

text \<open>The protocol claims of an ID token, whatever claims were released with it.\<close>

lemma id_token_protocol_claims:
  assumes c_def: "c = id_token_claims p now cid sub nonce released acr auth_time c_hash at_hash"
  shows "map_of (c_extra c) ''nonce'' = map_option JString nonce" "map_of (c_extra c) ''azp'' = None"
    "map_of (c_extra c) ''c_hash'' = map_option JString c_hash" "map_of (c_extra c) ''at_hash'' = map_option JString at_hash"
    "c_iss c = Some (issuer p)" "c_sub c = Some sub" "c_aud c = Some (Single cid)" "c_iat c \<noteq> None" "c_exp c \<noteq> None"
  by (simp_all add: c_def id_token_claims_def insert_released_reserved is_reserved_id_token_claim_def map_of_opt_insert map_of_bt_insert)

text \<open>They can be written, and are current from the second they were made until their lifetime has passed.\<close>

lemma id_token_writable:
  assumes "claims_normal released"
  shows "writable (id_token_claims p now cid sub nonce released acr auth_time ch ah)"
proof -
  have "claims_normal (c_extra (id_token_claims p now cid sub nonce released acr auth_time ch ah))"
    unfolding id_token_claims_def by (simp, intro normal_intros assms) auto
  then show ?thesis
    by (simp add: writable_def registered_names_def)
      (simp add: id_token_claims_def claims_default_def date_of_secs_def insert_released_reserved is_reserved_id_token_claim_def
        map_of_opt_insert map_of_bt_insert)
qed

lemma id_token_current:
  assumes "v_max_age v = None" and "t0 \<le> t" and "unat t < unat t0 + unat (id_token_ttl (pv_lifetimes p))"
    and "unat t0 + unat (id_token_ttl (pv_lifetimes p)) < 2 ^ 64"
  shows "current v (id_token_claims p t0 cid sub nonce released acr auth_time ch ah) t"
  by (rule lifetime_current [OF _ _ _ assms(2-4)]) (simp_all add: id_token_claims_def claims_default_def assms(1))

text \<open>The hash of \<open>v\<close> in the token is accepted beside the same value; without a hash any value passes.\<close>

lemma own_hash_accepted:
  assumes "opt_token_hash P p v = Inr h" and "peek_header P tok = Inr (own_header (pv_signing_key p))"
    and "alg_from_str P (alg_str (sk_alg (pv_signing_key p))) = Inr (sk_alg (pv_signing_key p))"
    and "map_of (c_extra c) name = map_option JString h" and "\<forall>a. ct_eq P a a" and "required \<longrightarrow> v \<noteq> None"
    and "v = None \<or> given = v"
  shows "check_token_hash P c tok name given required unchecked = Inr ()"
proof (cases v)
  case None
  then have "h = None" using assms(1) by (simp add: opt_token_hash_def)
  with None assms(4,6) show ?thesis by (simp add: check_token_hash_def Let_def split: option.splits)
next
  case (Some s)
  with assms(1) obtain x where "oidc_token_hash P (sk_alg (pv_signing_key p)) s = Inr x" "h = Some x"
    by (auto simp: opt_token_hash_def result_simps)
  with Some assms(2-5,7) show ?thesis by (simp add: check_token_hash_def Let_def own_header_def)
qed

text \<open>A set of published keys in which the key id of the signing key, if it has one, names a key.\<close>

definition finds_key :: "'w platform \<Rightarrow> signing_key \<Rightarrow> jwk_set \<Rightarrow> jws_algorithm list \<Rightarrow> bool" where
  "finds_key P key jwks algs \<longleftrightarrow> sk_alg key \<in> set algs \<and> alg_from_str P (alg_str (sk_alg key)) = Inr (sk_alg key) \<and>
     (case sk_kid key of Some k \<Rightarrow> \<exists>j \<in> set jwks. jwk_kid j = Some k | None \<Rightarrow> length jwks \<le> 1)"

lemma id_token_passes:
  assumes h: "opt_token_hash P p code = Inr ch" "opt_token_hash P p access_token = Inr ah"
    and c_def: "c = id_token_claims p now cid sub nonce released acr auth_time ch ah"
    and header: "peek_header P tok = Inr (own_header (pv_signing_key p))"
    and decodes: "accepts_for v (pv_signing_key p) c \<Longrightarrow> verify_with_jwks P jwks tok v w = (Inr c, w')"
    and v: "v = id_token_validation P (issuer p) cid algs opts jwks"
    and plain: "plain_validation P" and key: "finds_key P (pv_signing_key p) jwks algs"
    and ct: "\<forall>a. ct_eq P a a" and sub: "sub \<noteq> []"
    and opts: "opts = id_token_options_new\<lparr>io_access_token := given, io_authorization_code := code,
        io_require_at_hash := rat, io_require_c_hash := rch\<rparr>"
      "rat \<longrightarrow> access_token \<noteq> None" "rch \<longrightarrow> code \<noteq> None" "access_token = None \<or> given = access_token"
  shows "verify_id_token_with P jwks tok (issuer p) cid nonce algs trusted opts w = (Inr c, w')"
proof -
  let ?k = "pv_signing_key p"
  note claims = id_token_protocol_claims [OF c_def]
  have alg: "sk_alg ?k \<in> set algs" "alg_from_str P (alg_str (sk_alg ?k)) = Inr (sk_alg ?k)"
    using key by (simp_all add: finds_key_def)
  have "v_subject v = None" "v_typ v = None"
    using plain by (simp_all add: v id_token_validation_def Let_def plain_validation_def opts(1) id_token_options_new_def)
  moreover have "v_require_kid v \<longrightarrow> sk_kid ?k \<noteq> None"
    using plain key by (auto simp: v id_token_validation_def Let_def plain_validation_def opts(1) id_token_options_new_def finds_key_def
        split: option.splits)
  ultimately have "accepts_for v ?k c"
    using claims alg(1) by (simp add: v accepts_for_def claims_meet_def id_token_validation_fields)
  then have d: "verify_with_jwks P jwks tok (id_token_validation P (issuer p) cid algs opts jwks) w = (Inr c, w')"
    using decodes v by simp
  have "algs \<noteq> []" using alg(1) by auto
  then have cfg: "check_id_token_config algs opts = Inr ()"
    using opts(2-4) by (auto simp: check_id_token_config_def opts(1) id_token_options_new_def)
  have k: "\<not> (1 < length jwks \<and> h_kid (own_header ?k) = None)" "ensure_kid_names_key jwks (h_kid (own_header ?k)) ''id_token'' = Inr ()"
    using key by (auto simp: finds_key_def own_header_def ensure_kid_ok split: option.splits)
  have a: "check_audience cid trusted c = Inr ()" "check_expected_nonce nonce c = Inr ()"
    using claims by (auto simp: check_audience_def check_expected_nonce_def split: option.splits)
  have t: "check_token_hash P c tok ''at_hash'' given rat False = Inr ()"
      "check_token_hash P c tok ''c_hash'' code rch False = Inr ()"
    using own_hash_accepted [OF h(2) header alg(2) claims(4) ct opts(2,4)]
      own_hash_accepted [OF h(1) header alg(2) claims(3) ct opts(3)] by blast+
  show ?thesis
    using cfg k d a t claims sub
    by (simp add: verify_id_token_with_def header bindP_def check_auth_time_def check_acr_def opts(1) id_token_options_new_def)
qed

text \<open>
  The relying party accepts the ID token the provider builds for it: for the client and nonce of
  the request, with the access token and code issued beside it, for any claims released and whether or not the hashes are
  required, all its own checks pass, and the subject it reads is the provider's.  The hypotheses are
  that \<^verbatim>\<open>jose-rs\<close> verifies the fresh token, knows the algorithm by name, that the key id (if
  any) names a key of the set and is present when there are several, that the comparison is reflexive, and that the
  decoder's reading \<open>t\<close> of the clock lies within the lifetime that began at the provider's reading \<open>t0\<close>.
\<close>

theorem provider_id_token_accepted:
  assumes b: "build_id_token P p cid sub nonce released acr auth_time code access_token w = (Inr tok, w')"
    and jose: "verifies_fresh P (pv_signing_key p) jwks" "plain_validation P"
    and key: "finds_key P (pv_signing_key p) jwks algs"
    and ct: "\<forall>a. ct_eq P a a" and sub: "sub \<noteq> []" and released: "claims_normal released"
    and clock: "now_secs P w = (t0, w0)" "now_secs P w' = (t, w2)" "t0 \<le> t"
      "unat t < unat t0 + unat (id_token_ttl (pv_lifetimes p))" "unat t0 + unat (id_token_ttl (pv_lifetimes p)) < 2 ^ 64"
    and opts: "opts = id_token_options_new\<lparr>io_access_token := access_token, io_authorization_code := code,
        io_require_at_hash := rat, io_require_c_hash := rch\<rparr>"
      "rat \<longrightarrow> access_token \<noteq> None" "rch \<longrightarrow> code \<noteq> None"
  shows "\<exists>c. verify_id_token_with P jwks tok (issuer p) cid nonce algs trusted opts w' = (Inr c, w2) \<and>
    c_sub c = Some sub \<and> c_iss c = Some (issuer p)"
proof -
  from b clock(1) obtain ch ah where h: "opt_token_hash P p code = Inr ch" "opt_token_hash P p access_token = Inr ah"
      "jwt_sign P (pv_signing_key p) (id_token_claims p t0 cid sub nonce released acr auth_time ch ah) None w0 = (Inr tok, w')"
    by (auto simp: build_id_token_def prog_ok)
  define c where "c = id_token_claims p t0 cid sub nonce released acr auth_time ch ah"
  let ?v = "id_token_validation P (issuer p) cid algs opts jwks"
  note f = verifies_freshD [OF jose(1) h(3) id_token_writable [OF released], folded c_def]
  have "v_max_age ?v = None" using jose(2)
    by (simp add: id_token_validation_def Let_def plain_validation_def opts(1) id_token_options_new_def)
  then have "current ?v c t" unfolding c_def by (rule id_token_current [OF _ clock(3-5)])
  note d = f(2) [OF _ clock(2) this]
  have "verify_id_token_with P jwks tok (issuer p) cid nonce algs trusted opts w' = (Inr c, w2)"
    using id_token_passes [OF h(1,2) c_def f(1) d refl jose(2) key ct sub opts] by blast
  with id_token_protocol_claims [OF c_def] show ?thesis by blast
qed

section \<open>The client assertion is accepted\<close>


section \<open>A concrete login\<close>

text \<open>A platform with a form parser, and a provider whose authorization endpoint has a query of its own.\<close>

fun form_pieces :: "string \<Rightarrow> string \<Rightarrow> string list" where
  "form_pieces piece [] = [piece]"
| "form_pieces piece (c # cs) = (if c = CHR ''&'' then piece # form_pieces [] cs else form_pieces (piece @ [c]) cs)"

definition form_pairs :: "string \<Rightarrow> (string \<times> string) list" where
  "form_pairs s = List.map (\<lambda>piece. case split_once (CHR ''='') piece of Some kv \<Rightarrow> kv | None \<Rightarrow> (piece, []))
     (filter (\<lambda>piece. piece \<noteq> []) (form_pieces [] s))"

lemma form_pieces_append: "form_pieces piece (a @ CHR ''&'' # b) = form_pieces piece a @ form_pieces [] b"
  by (induction a arbitrary: piece) simp_all

definition query_platform :: "unit platform" where
  "query_platform = (rp_platform still [])
     \<lparr>url_parse := (\<lambda>s. if take 8 s = ''https://''
        then Inr ((https_url s)\<lparr>u_query_pairs := form_pairs (query_of s)\<rparr>) else Inl ''relative URL without a base''),
      form_urlencoded_parse := form_pairs\<rparr>"

definition tenant_info :: provider_info where
  "tenant_info = sample_info\<lparr>pi_authorization_endpoint := ''https://op/authorization?tenant=7''\<rparr>"

lemma query_platform_fields [simp]:
  "url_parse query_platform s = (if take 8 s = ''https://''
     then Inr ((https_url s)\<lparr>u_query_pairs := form_pairs (query_of s)\<rparr>) else Inl ''relative URL without a base'')"
  "form_urlencoded_parse query_platform = form_pairs" "urlencode_bytes query_platform = filter (\<lambda>c. c \<noteq> CHR ''#'')"
  by (simp_all add: query_platform_def rp_platform_def sample_platform_def)

lemma tenant_parses: "parses_queries query_platform (pi_authorization_endpoint tenant_info)"
  by (auto simp: parses_queries_def tenant_info_def form_pairs_def form_pieces_append)

lemma tenant_url:
  "authorization_url query_platform tenant_info sample_rp ''st'' ''no'' None [(''ui_locales'', ''de'')] =
     Inr ''https://op/authorization?tenant=7&response_type=code&client_id=rp&redirect_uri=https://rp/cb&scope=openid email&state=st&nonce=no&ui_locales=de''"
proof -
  have q: "form_pairs (query_of ''https://op/authorization?tenant=7'') = [(''tenant'', ''7'')]" by code_simp
  have "list_all (\<lambda>s. take 8 s = ''https://'' \<and> \<not> list_ex unsafe_char (chars s)) (provider_urls tenant_info)"
    by code_simp
  then have "list_all (safe_url query_platform (pi_issuer tenant_info)) (provider_urls tenant_info)"
    by (auto simp: list_all_iff safe_url_def https_url_def)
  then have "provider_info_validate query_platform tenant_info = Inr ()"
    by (simp add: provider_info_validate_ok)
      (simp add: tenant_info_def sample_info_def https_url_def q fresh_names_def library_params_def)
  moreover have "''openid'' \<in> set (split_whitespace ''openid email'')" by code_simp
  ultimately have "check_request query_platform tenant_info sample_rp None = Inr ()"
    by (simp add: check_request_ok validate_redirect_uri_syntax_def sample_rp_def https_url_def)
  moreover have "validate_authorization_extras query_platform (pi_authorization_endpoint tenant_info) [(''ui_locales'', ''de'')] = Inr ()"
    by (simp add: validate_authorization_extras_def tenant_info_def q library_params_def)
  moreover have "encode_params query_platform (authorization_params sample_rp ''st'' ''no'' None [(''ui_locales'', ''de'')]) =
      ''response_type=code&client_id=rp&redirect_uri=https://rp/cb&scope=openid email&state=st&nonce=no&ui_locales=de''"
    by (simp add: encode_params_def authorization_params_def sample_rp_def)
  ultimately show ?thesis by (simp add: authorization_url_def Let_def) (simp add: tenant_info_def)
qed

theorem authorization_request_arrives_witness:
  "\<exists>loc req. authorization_url query_platform tenant_info sample_rp ''st'' ''no'' None [(''ui_locales'', ''de'')] = Inr loc \<and>
     from_pairs query_platform (form_urlencoded_parse query_platform (query_of loc)) = Inr req \<and>
     ar_client_id req = ''rp'' \<and> ar_state req = Some ''st'' \<and> is_oidc req"
proof -
  let ?q = "''response_type=code&client_id=rp&redirect_uri=https://rp/cb&scope=openid email&state=st&nonce=no&ui_locales=de''"
  have ps: "form_pairs ?q = authorization_params sample_rp ''st'' ''no'' None [(''ui_locales'', ''de'')]" by code_simp
  moreover have "encode_params query_platform (authorization_params sample_rp ''st'' ''no'' None [(''ui_locales'', ''de'')]) = ?q"
    by (simp add: encode_params_def authorization_params_def sample_rp_def)
  moreover have "map_of (form_pairs (query_of (''https://op/authorization?tenant=7&'' @ ?q))) ''claims'' = None" by code_simp
  moreover have "is_valid_state ''st''" by code_simp
  ultimately show ?thesis
    using authorization_request_arrives [OF tenant_url tenant_parses] tenant_url by (auto simp: sample_rp_def)
qed

theorem code_response_arrives_witness:
  "\<exists>r. parse_pairs (sample_platform still []) (response_params sample_provider code_request None (Some ''c1'') None)
     response_options_new QueryMode = Inr r \<and> az_code r = Some ''c1''"
proof -
  have s: "ar_state code_request = Some ''s''" "clean_value ''s''"
    by (simp add: code_request_def sample_request_def) code_simp
  have c: "clean_value ''c1''" by code_simp
  have i: "clean_value (issuer sample_provider)"
  proof -
    have "issuer sample_provider = ''https://op''"
      by (simp add: sample_provider_def provider_new_def sample_signing_key_def advertised_metadata_def metadata_new_def Let_def)
    then show ?thesis by simp code_simp
  qed
  show ?thesis
    using code_response_arrives [OF s(1) c s(2) i, of "sample_platform still []"] by (auto simp: sample_platform_def)
qed

text \<open>
  A signer that remembers what it signed: a token is the number of its claims in the world.  The clock of this world
  advances with every reading, and a token decodes only while it is current.
\<close>

type_synonym ledger_world = "u64 \<times> claims list"

definition ledger_platform :: "ledger_world platform" where
  "ledger_platform = (sample_platform (\<lambda>(t, l). (t, saturating_add t 1, l)) [])
     \<lparr>jwt_encode := (\<lambda>k h c (t, l). (Inr (replicate (length l) (CHR ''1'')), (t, l @ [c]))),
      jws_decode_header := (\<lambda>_. Inr (own_header sample_signing_key)),
      jwt_decode_with_jwkset := (\<lambda>_ tok v (t, l).
        (if length tok < length l \<and> claims_meet v (l ! length tok) \<and> current v (l ! length tok) t
         then Inr (l ! length tok) else Inl ''invalid'', (saturating_add t 1, l)))\<rparr>"

lemma ledger_verifies:
  "verifies_fresh ledger_platform sample_signing_key jwks" "plain_validation ledger_platform"
  "alg_from_str ledger_platform (alg_str (sk_alg sample_signing_key)) = Inr (sk_alg sample_signing_key)"
  "\<forall>a. ct_eq ledger_platform a a" "now_secs ledger_platform (t, l) = (t, saturating_add t 1, l)"
  by (auto simp: verifies_fresh_def plain_validation_def ledger_platform_def sample_platform_def sample_validation_def
      sample_signing_key_def accepts_for_def split: prod.splits)

definition ledger_provider :: "ledger_world provider" where
  "ledger_provider = projr (provider_new (metadata_new ''https://op'' ''https://op'') sample_signing_key
     (\<lambda>cid w. (Some (sample_client\<lparr>cl_client_id := ''rp'', cl_token_endpoint_auth_method := AUTH_PRIVATE_KEY_JWT, cl_jwks := Some []\<rparr>), w))
     (codec_new ledger_platform ''secret'') lifetimes_default (\<lambda>_ _ w. (Inr True, (0, []))))"

lemma ledger_provider_fields:
  "pv_signing_key ledger_provider = sample_signing_key" "pv_token_use_store ledger_provider h ttl w = (Inr True, (0, []))"
  "pv_clients ledger_provider cid w =
     (Some (sample_client\<lparr>cl_client_id := ''rp'', cl_token_endpoint_auth_method := AUTH_PRIVATE_KEY_JWT, cl_jwks := Some []\<rparr>), w)"
  "pv_lifetimes ledger_provider = lifetimes_default" "pv_client_assertion_max_age ledger_provider = 300"
  by (simp_all add: ledger_provider_def provider_new_def sample_signing_key_def default_client_assertion_max_age_def)

lemma ledger_ticks: "saturating_add 100 1 = (101 :: u64)" "saturating_add 101 1 = (102 :: u64)" "saturating_add 102 1 = (103 :: u64)"
  by code_simp+

theorem provider_id_token_accepted_witness:
  "\<exists>tok w' c w2. build_id_token ledger_platform ledger_provider ''rp'' ''alice'' (Some ''n'') [] None 0 None (Some ''at'') (100, []) = (Inr tok, w') \<and>
     verify_id_token_with ledger_platform [] tok (issuer ledger_provider) ''rp'' (Some ''n'') [ES256] []
       (id_token_options_new\<lparr>io_access_token := Some ''at'', io_authorization_code := None, io_require_at_hash := True,
         io_require_c_hash := False\<rparr>) w' = (Inr c, w2) \<and> c_sub c = Some ''alice''"
proof -
  have "\<exists>tok l. build_id_token ledger_platform ledger_provider ''rp'' ''alice'' (Some ''n'') [] None 0 None (Some ''at'') (100, []) = (Inr tok, (101, l))"
    by (simp add: build_id_token_def bindP_def effP_def opt_token_hash_def ledger_provider_fields jwt_sign_def mapErrP_def
        ledger_verifies(5) ledger_ticks)
      (simp add: ledger_platform_def sample_platform_def sample_signing_key_def oidc_token_hash_def oidc_digest_def Let_def)
  then obtain tok l where b: "build_id_token ledger_platform ledger_provider ''rp'' ''alice'' (Some ''n'') [] None 0 None (Some ''at'') (100, []) = (Inr tok, (101, l))"
    by blast
  have "\<exists>c. verify_id_token_with ledger_platform [] tok (issuer ledger_provider) ''rp'' (Some ''n'') [ES256] []
       (id_token_options_new\<lparr>io_access_token := Some ''at'', io_authorization_code := None, io_require_at_hash := True,
         io_require_c_hash := False\<rparr>) (101, l) = (Inr c, (102, l)) \<and> c_sub c = Some ''alice'' \<and> c_iss c = Some (issuer ledger_provider)"
    by (rule provider_id_token_accepted [where rat = True and rch = False and ?t0.0 = 100 and t = 101 and ?w0.0 = "(101, [])", OF b])
      (use ledger_verifies in \<open>simp_all add: ledger_provider_fields finds_key_def sample_signing_key_def ledger_ticks lifetimes_default_def
        normal_intros\<close>)
  with b show ?thesis by blast
qed


end
