(* ===== verification/Error_Flow.thy ===== *)
theory Error_Flow
  imports Login_Flow
begin

text \<open>
  An authorization error from the provider's redirect to the relying party's session: \<^verbatim>\<open>authorization_error_redirect\<close>
  of \<^verbatim>\<open>src/provider.rs\<close> and \<^verbatim>\<open>to_redirect_with_params\<close> of \<^verbatim>\<open>src/oauth_error.rs\<close> against the parser of
  \<^verbatim>\<open>src/callback.rs\<close>.
\<close>

section \<open>Error values on the wire\<close>

text \<open>Every error code of the provider passes the callback's syntax, is one it knows and reads back.\<close>

lemma code_str_arrives:
  "check_error_code (code_str c) = Inr ()" "code_str c \<in> set KNOWN_ERROR_CODES" "code_str c \<noteq> []"
proof -
  have "length (chars (code_str c)) \<le> 64 \<and> list_all error_byte (code_str c)" by (cases c; simp only: code_str.simps; code_simp)
  then show "check_error_code (code_str c) = Inr ()" by (simp add: check_error_code_def)
qed (cases c; simp add: KNOWN_ERROR_CODES_def)+

lemma wire_description_printable: "list_all printable (chars (wire_description d)) \<and> length (chars (wire_description d)) \<le> 256"
  using wire_description_safe [of d] wire_char_ascii by (auto simp: list_all_iff)

text \<open>What the provider writes as a description, the callback shows unchanged.\<close>

lemma wire_description_arrives: "escape_upstream_text (wire_description d) 256 = wire_description d"
proof -
  have "escape_loop 256 [] 0 (chars (wire_description d)) = chars (wire_description d)"
    using wire_description_printable [of d] by (simp add: escape_loop_id)
  then show ?thesis
    by (simp add: escape_upstream_text_def chars_wire_description) (simp add: wire_description_def)
qed

section \<open>The redirect\<close>

text \<open>\<open>pairs_read_back\<close>: parsing reads the form-encoded pairs back.\<close>

definition pairs_read_back :: "'w platform \<Rightarrow> (string \<times> string) list \<Rightarrow> bool" where
  "pairs_read_back P ps \<longleftrightarrow> form_urlencoded_parse P (encode_params P ps) = ps"

definition iss_params :: "'w provider \<Rightarrow> (string \<times> string) list" where
  "iss_params p = (if pv_emit_iss p then [(''iss'', issuer p)] else [])"

lemma error_redirect_location:
  assumes "authorization_error_redirect P p req err = Inr resp" and "CHR ''#'' \<notin> set (ar_redirect_uri req)"
    and "use_fragment req \<or> CHR ''?'' \<notin> set (ar_redirect_uri req)"
  shows "resp = redirect (ar_redirect_uri req @ (if use_fragment req then CHR ''#'' else CHR ''?'') #
    encode_params P (error_params err (iss_params p)))"
proof -
  have n: "split_once (CHR ''#'') (ar_redirect_uri req) = None" using assms(2) by (simp add: split_once_None)
  show ?thesis
    using assms by (auto simp: n authorization_error_redirect_def to_redirect_with_params_def iss_params_def Let_def result_simps)
qed

text \<open>
  C16.  An authorization error arrives.  When the provider answers a request with an error redirect, the relying party that
  is handed the query or fragment of that redirect reads an error response, with the very code the provider
  chose, which the library knows, and its description unchanged; the state and issuer checks of the
  session that sent the request succeed, and there is no code.  State and issuer are within the callback's limits, the
  redirect URI has no fragment and no query of its own, and form decoding undoes form encoding.
\<close>

theorem error_response_arrives:
  assumes "authorization_error_redirect P p req err = Inr resp"
    and "CHR ''#'' \<notin> set (ar_redirect_uri req)" and "use_fragment req \<or> CHR ''?'' \<notin> set (ar_redirect_uri req)"
    and "pred_option clean_value (wire_state err)" and "clean_value (issuer p)"
    and "pairs_read_back P (error_params err (iss_params p))" and "\<forall>a b. ct_eq P a b \<longleftrightarrow> a = b"
  shows "\<exists>sep enc r. resp = redirect (ar_redirect_uri req @ sep # enc) \<and>
    parse_authorization_response_str P (sep # enc) response_options_new = Inr r \<and>
    error_code r = Some (oe_code err) \<and> error_known r \<and> az_code r = None \<and>
    az_error_description_safe r = map_option wire_description (oe_description err) \<and>
    az_response_mode r = (if use_fragment req then FragmentMode else QueryMode) \<and>
    (case wire_state err of Some st \<Rightarrow> matches_state P r st True | None \<Rightarrow> az_state r = None) \<and>
    matches_iss r (issuer p) (pv_emit_iss p)"
proof -
  let ?enc = "encode_params P (error_params err (iss_params p))"
  let ?sep = "if use_fragment req then CHR ''#'' else CHR ''?''"
  let ?mode = "if use_fragment req then FragmentMode else QueryMode"
  have v: "check_value n x = Inr ()" "x \<noteq> []" if "clean_value x" for n x
    using that by (simp_all add: clean_value_def check_value_def response_value_max_def)
  have s: "check_value n st = Inr ()" "st \<noteq> []" if "wire_state err = Some st" for n st
    using v assms(4) that by auto
  have "\<exists>r. parse_pairs P (error_params err (iss_params p)) response_options_new ?mode = Inr r \<and>
    error_code r = Some (oe_code err) \<and> error_known r \<and> az_code r = None \<and>
    az_error_description_safe r = map_option wire_description (oe_description err) \<and> az_response_mode r = ?mode \<and>
    (case wire_state err of Some st \<Rightarrow> matches_state P r st True | None \<Rightarrow> az_state r = None) \<and>
    matches_iss r (issuer p) (pv_emit_iss p)"
    using s v [OF assms(5)] assms(7) code_str_arrives [of "oe_code err"]
    by (cases "oe_description err"; cases "wire_state err"; cases "pv_emit_iss p")
      (simp_all add: error_params_def iss_params_def parse_pairs_def owned_def RESPONSE_PARAMS_def insert_unique_def
        fields_from_def response_options_new_def fields_validate_def error_code_def error_known_def matches_state_def
        matches_iss_def code_from_code_str wire_description_arrives error_description_safe_max_def)
  moreover have "parse_authorization_response_str P (?sep # ?enc) response_options_new =
      parse_pairs P (error_params err (iss_params p)) response_options_new ?mode"
    using assms(6) by (simp add: parse_authorization_response_str_def pairs_read_back_def mode_for_response_def response_options_new_def)
  ultimately show ?thesis
    unfolding error_redirect_location [OF assms(1-3)] by (intro exI [of _ ?sep] exI [of _ ?enc]) simp
qed

section \<open>A refusal\<close>

definition refusal :: oauth_error where
  "refusal = with_state (Some ''s'') (oauth_error_new AccessDenied ''not today'')"

definition refusal_platform :: "world platform" where
  "refusal_platform = (sample_platform world_clock [])\<lparr>form_urlencoded_parse := (\<lambda>_. error_params refusal [])\<rparr>"

theorem error_response_arrives_witness:
  "\<exists>resp sep enc r. authorization_error_redirect refusal_platform sample_provider code_request refusal = Inr resp \<and>
     resp = redirect (''https://rp/cb'' @ sep # enc) \<and>
     parse_authorization_response_str refusal_platform (sep # enc) response_options_new = Inr r \<and>
     error_code r = Some AccessDenied"
proof -
  obtain resp where e: "authorization_error_redirect refusal_platform sample_provider code_request refusal = Inr resp"
    by (simp add: authorization_error_redirect_def check_iss_redirect_collision_def sample_flags)
  have u: "ar_redirect_uri code_request = ''https://rp/cb''" by (simp add: code_request_def sample_request_def)
  have st: "is_valid_state ''s''" "clean_value ''s''" by code_simp+
  then have "pred_option clean_value (wire_state refusal)"
    by (simp add: wire_state_def refusal_def with_state_def oauth_error_new_def)
  moreover have "issuer sample_provider = ''https://op''"
    by (simp add: sample_provider_def provider_new_def sample_signing_key_def advertised_metadata_def metadata_new_def Let_def)
  moreover have "clean_value ''https://op''" by code_simp
  moreover have "pairs_read_back refusal_platform (error_params refusal (iss_params sample_provider))"
    by (simp add: pairs_read_back_def refusal_platform_def iss_params_def sample_flags)
  moreover have "\<forall>a b. ct_eq refusal_platform a b \<longleftrightarrow> a = b" by (simp add: refusal_platform_def sample_platform_def)
  moreover have "oe_code refusal = AccessDenied" by (simp add: refusal_def with_state_def oauth_error_new_def)
  ultimately show ?thesis
    using error_response_arrives [OF e] e by (auto simp: u)
qed

end
