(* ===== verification/Mac_Util.thy ===== *)
theory Mac_Util
  imports Relying_Party
begin

text \<open>
  \<^verbatim>\<open>src/mac.rs\<close> and \<^verbatim>\<open>src/util.rs\<close>: the wrappers over \<^verbatim>\<open>kryptering\<close>, the operating system's clock and its random
  numbers.  The other theories take these functions from the record \<open>platform\<close>; here they are what the wrappers
  make of the crates' answers, \<open>None\<close> being a panic.  A time of the system clock is a number of nanoseconds since the
  Unix epoch, negative before it.
\<close>

section \<open>The crates\<close>

datatype hash_algorithm = Sha256 | Sha384 | Sha512

record 'w crates =
  compute_hmac :: "hash_algorithm \<Rightarrow> string \<Rightarrow> string \<Rightarrow> (string, string) result"
  compute_digest :: "hash_algorithm \<Rightarrow> string \<Rightarrow> (string, string) result"
  kryptering_ct_eq :: "string \<Rightarrow> string \<Rightarrow> bool"
  system_time_now :: "'w \<Rightarrow> int \<times> 'w"
  now_utc_rfc3339 :: "'w \<Rightarrow> (string, string) result \<times> 'w"
  getrandom_fill :: "nat \<Rightarrow> 'w \<Rightarrow> (string, string) result \<times> 'w"

fun expect_ok :: "('e, 'a) result \<Rightarrow> 'a option" where
  "expect_ok (Inr x) = Some x"
| "expect_ok (Inl _) = None"

lemma expect_ok_Some: "expect_ok r = Some x \<longleftrightarrow> r = Inr x"
  by (cases r) auto

section \<open>The wrappers\<close>

definition mac_hmac_sha256 :: "'w crates \<Rightarrow> string \<Rightarrow> string \<Rightarrow> string option" where
  "mac_hmac_sha256 C key data = expect_ok (compute_hmac C Sha256 key data)"

definition mac_sha256 :: "'w crates \<Rightarrow> string \<Rightarrow> string option" where
  "mac_sha256 C data = expect_ok (compute_digest C Sha256 data)"

definition mac_constant_time_eq :: "'w crates \<Rightarrow> string \<Rightarrow> string \<Rightarrow> bool" where
  "mac_constant_time_eq C a b = kryptering_ct_eq C a b"

text \<open>\<^verbatim>\<open>SystemTime::duration_since(UNIX_EPOCH)\<close> is an error for a time before the epoch.\<close>

definition duration_since_epoch :: "int \<Rightarrow> nat option" where
  "duration_since_epoch t = (if t < 0 then None else Some (nat t))"

definition duration_as_secs :: "nat \<Rightarrow> u64" where
  "duration_as_secs nanos = of_nat (nanos div 1000000000)"

definition util_now_secs :: "'w crates \<Rightarrow> 'w \<Rightarrow> u64 \<times> 'w" where
  "util_now_secs C w =
     (case system_time_now C w of (t, w') \<Rightarrow>
        (case map_option duration_as_secs (duration_since_epoch t) of Some s \<Rightarrow> s | None \<Rightarrow> 0, w'))"

definition now_rfc3339 :: "'w crates \<Rightarrow> 'w \<Rightarrow> string \<times> 'w" where
  "now_rfc3339 C w = (case now_utc_rfc3339 C w of (r, w') \<Rightarrow> (case r of Inr s \<Rightarrow> s | Inl _ \<Rightarrow> '''', w'))"

definition fill_random :: "'w crates \<Rightarrow> string \<Rightarrow> 'w \<Rightarrow> string option \<times> 'w" where
  "fill_random C buf w = (case getrandom_fill C (length buf) w of (r, w') \<Rightarrow> (expect_ok r, w'))"

section \<open>The platform they make\<close>

text \<open>
  \<open>crates_work C\<close>: the backend supports HMAC-SHA256 and SHA-256 with results of 32 bytes, its comparison is exact, and
  the operating system's random numbers do not fail.  \<open>wrapped C P\<close> is the platform \<open>P\<close> with the wrappers over \<open>C\<close>.
\<close>

definition crates_work :: "'w crates \<Rightarrow> bool" where
  "crates_work C \<longleftrightarrow> (\<forall>k m. \<exists>d. compute_hmac C Sha256 k m = Inr d \<and> length d = 32) \<and>
     (\<forall>m. \<exists>d. compute_digest C Sha256 m = Inr d \<and> length d = 32) \<and> (\<forall>a b. kryptering_ct_eq C a b \<longleftrightarrow> a = b) \<and>
     (\<forall>n w. \<exists>bs w'. getrandom_fill C n w = (Inr bs, w') \<and> length bs = n)"

definition wrapped :: "'w crates \<Rightarrow> 'w platform \<Rightarrow> 'w platform" where
  "wrapped C P = P\<lparr>now_secs := util_now_secs C, hmac_sha256 := (\<lambda>k m. the (mac_hmac_sha256 C k m)),
     sha256 := (\<lambda>m. the (mac_sha256 C m)), ct_eq := mac_constant_time_eq C,
     random_bytes := (\<lambda>n w. apfst the (fill_random C (replicate n (CHR 0x00)) w))\<rparr>"

lemma wrapped_selectors:
  "hmac_sha256 (wrapped C P) = (\<lambda>k m. the (mac_hmac_sha256 C k m))" "ct_eq (wrapped C P) = mac_constant_time_eq C"
  "b64url_encode (wrapped C P) = b64url_encode P" "b64url_decode (wrapped C P) = b64url_decode P"
  "now_secs (wrapped C P) = util_now_secs C" "sha256 (wrapped C P) = (\<lambda>m. the (mac_sha256 C m))"
  "random_bytes (wrapped C P) = (\<lambda>n w. apfst the (fill_random C (replicate n (CHR 0x00)) w))"
  by (simp_all add: wrapped_def)

lemma wrapped_nonce_primitives:
  assumes "crates_work C" and "\<And>s. b64url_decode P (b64url_encode P s) = Some s"
  shows "nonce_primitives (wrapped C P)"
proof -
  have "\<forall>k m. \<exists>d. compute_hmac C Sha256 k m = Inr d \<and> length d = 32" using assms(1) unfolding crates_work_def by (elim conjE)
  then have mac: "length (the (mac_hmac_sha256 C k m)) = 32" for k m
    by (metis expect_ok.simps(1) mac_hmac_sha256_def option.sel)
  have eq: "\<forall>a b. kryptering_ct_eq C a b \<longleftrightarrow> a = b" using assms(1) unfolding crates_work_def by (elim conjE)
  show ?thesis unfolding nonce_primitives_def wrapped_selectors mac_constant_time_eq_def using assms(2) mac eq by blast
qed

lemma random_token_wrapped:
  assumes "getrandom_fill C n w = (Inr bs, w')"
  shows "random_token (wrapped C P) n w = (b64url_encode P bs, w')"
  using assms by (simp add: random_token_def wrapped_selectors fill_random_def)

text \<open>The seconds read never decrease while the system clock does not, also across the epoch.\<close>

lemma util_now_secs_mono:
  assumes "system_time_now C w = (t, v)" and "system_time_now C w' = (t', v')" and "t \<le> t'"
    and "t' < 2 ^ 63 * 1000000000"
  shows "fst (util_now_secs C w) \<le> fst (util_now_secs C w')"
proof -
  have small: "nat t' div 1000000000 < 2 ^ 64" using assms(4) by simp
  have "nat t div 1000000000 \<le> nat t' div 1000000000" using assms(3) by (intro div_le_mono nat_mono)
  then have "(of_nat (nat t div 1000000000) :: u64) \<le> of_nat (nat t' div 1000000000)"
    using small by (simp add: word_le_nat_alt unat_of_nat)
  with assms show ?thesis
    by (auto simp: util_now_secs_def duration_since_epoch_def duration_as_secs_def)
qed

end
