(* ===== verification/Token_Ledger.thy ===== *)
theory Token_Ledger
  imports Example_Run
begin

text \<open>
  What the token endpoint promises about one-time tokens, as an ideal machine: the same endpoint over a
  ledger that never forgets a redeemed code or refresh token.  The deployed endpoint keeps them in the
  in-memory store, which stops refusing an entry at its deadline and sweeps the expired ones; a simulation
  shows that no caller can tell the difference.
\<close>

section \<open>The ledger\<close>

text \<open>
  Codes and refresh tokens stay in the ledger; the identifier of a client assertion, which a client may use
  again, is refused for its lifetime as in the store.
\<close>

definition one_time :: "string \<Rightarrow> bool" where
  "one_time h \<longleftrightarrow> take 5 h = ''code:'' \<or> take 8 h = ''refresh:''"

definition ledger_consume ::
    "u64 \<Rightarrow> string \<Rightarrow> u64 \<Rightarrow> (string \<rightharpoonup> u64) \<Rightarrow> (string, bool) result \<times> (string \<rightharpoonup> u64)" where
  "ledger_consume now h ttl m =
     (if (case m h of Some exp \<Rightarrow> one_time h \<or> now < exp | None \<Rightarrow> False) then (Inr False, m)
      else (Inr True, m(h \<mapsto> now + max ttl 1)))"

definition ledger_held :: "(string \<rightharpoonup> u64) \<Rightarrow> string \<Rightarrow> nat \<Rightarrow> bool" where
  "ledger_held m h t \<longleftrightarrow> (\<exists>exp. m h = Some exp \<and> (one_time h \<or> t \<le> unat exp))"

interpretation ledger: token_use_store ledger_consume ledger_held
proof unfold_locales
  show "deadline now ttl < 2 ^ 64 \<Longrightarrow> ledger_held m' h (deadline now ttl)"
    if "ledger_consume now h ttl m = (Inr True, m')" for now h ttl m m'
    using that by (auto simp: ledger_consume_def ledger_held_def unat_deadline split: if_splits)
  show "fst (ledger_consume now h ttl m) \<noteq> Inr True" if "ledger_held m h t" "unat now < t" for m h t now ttl
    using that by (auto simp: ledger_consume_def ledger_held_def word_less_nat_alt)
  show "ledger_held (snd (ledger_consume now h' ttl m)) h t" if "ledger_held m h t" "unat now < t" for m h t now h' ttl
    using that by (auto simp: ledger_consume_def ledger_held_def word_less_nat_alt split: option.splits)
qed

text \<open>What makes it the ideal: a redeemed token is refused at every later call, whatever the time.\<close>

lemma ledger_never_forgets:
  assumes "one_time h" and "m h \<noteq> None" and "i < length calls" and "call_hash (calls ! i) = h"
  shows "fst (consume_run ledger_consume calls m) ! i = Inr False"
  using assms(2-)
proof (induction calls arbitrary: m i)
  case (Cons c calls)
  obtain now h' ttl where c: "c = (now, h', ttl)" by (cases c)
  have "snd (ledger_consume now h' ttl m) h \<noteq> None"
    using Cons.prems(1) by (simp add: ledger_consume_def)
  then show ?case
    using Cons assms(1) by (cases i) (auto simp: c case_prod_beta Let_def ledger_consume_def)
qed simp

definition with_ledger :: "(string \<rightharpoonup> u64) \<Rightarrow> world \<Rightarrow> world" where
  "with_ledger m w = w\<lparr>w_uses := (w_uses w)\<lparr>tu_entries := m\<rparr>\<rparr>"

definition ledger_use :: "string \<Rightarrow> u64 \<Rightarrow> (world, string, bool) prog" where
  "ledger_use h ttl w =
     (case world_clock w of (now, w1) \<Rightarrow>
        case ledger_consume now h ttl (tu_entries (w_uses w1)) of (r, m) \<Rightarrow> (r, with_ledger m w1))"

definition over_ledger :: "world provider \<Rightarrow> world provider" where
  "over_ledger p = p\<lparr>pv_token_use_store := ledger_use\<rparr>"

section \<open>Simulation of programs\<close>

text \<open>
  \<open>sim R m m'\<close>: from worlds related by \<open>R\<close> the two programs give the same answer, success or error, and end in
  related worlds.
\<close>

definition sim :: "('w \<Rightarrow> 'v \<Rightarrow> bool) \<Rightarrow> ('w, 'e, 'a) prog \<Rightarrow> ('v, 'e, 'a) prog \<Rightarrow> bool" where
  "sim R m m' \<longleftrightarrow> (\<forall>w v. R w v \<longrightarrow> fst (m w) = fst (m' v) \<and> R (snd (m w)) (snd (m' v)))"

named_theorems sim_intros \<open>simulation of a program by another\<close>

lemma sim_pure [sim_intros]: "sim R (retP x) (retP x)" "sim R (failP e) (failP e)" "sim R (liftR r) (liftR r)"
  by (simp_all add: sim_def)

text \<open>The continuations need to agree on the answers the first program can give.\<close>

lemma sim_bindP_on:
  assumes "sim R m m'" and "\<And>x w v w1. R w v \<Longrightarrow> m w = (Inr x, w1) \<Longrightarrow> sim R (f x) (f' x)"
  shows "sim R (bindP m f) (bindP m' f')"
  unfolding sim_def
proof (intro allI impI)
  fix w v assume r: "R w v"
  obtain a w1 where m: "m w = (a, w1)" by (cases "m w")
  obtain b v1 where m': "m' v = (b, v1)" by (cases "m' v")
  have s: "b = a" "R w1 v1" using assms(1) [unfolded sim_def, rule_format, OF r] m m' by simp_all
  show "fst (bindP m f w) = fst (bindP m' f' v) \<and> R (snd (bindP m f w)) (snd (bindP m' f' v))"
  proof (cases a)
    case (Inr x)
    then show ?thesis using assms(2) [OF r, of x w1] m m' s by (simp add: bindP_step sim_def)
  qed (use m m' s in \<open>simp add: bindP_stop\<close>)
qed

lemma sim_bindP [sim_intros]: "sim R m m' \<Longrightarrow> (\<And>x. sim R (f x) (f' x)) \<Longrightarrow> sim R (bindP m f) (bindP m' f')"
  by (rule sim_bindP_on)

lemma sim_bindP_liftR: "(\<And>x. r = Inr x \<Longrightarrow> sim R (f x) (f' x)) \<Longrightarrow> sim R (bindP (liftR r) f) (bindP (liftR r) f')"
  by (rule sim_bindP_on) (auto intro: sim_pure)

lemma sim_guardP [sim_intros]: "sim R m m' \<Longrightarrow> sim R (guardP b e m) (guardP b e m')"
  by (simp add: guardP_def sim_pure)

lemma sim_mapErrP [sim_intros]: "sim R m m' \<Longrightarrow> sim R (mapErrP g m) (mapErrP g m')"
  by (simp add: sim_def mapErrP_def case_prod_beta)

lemma sim_if [sim_intros]: "sim R m m' \<Longrightarrow> sim R n n' \<Longrightarrow> sim R (if b then m else n) (if b then m' else n')"
  by simp

lemma sim_option [sim_intros]:
  "sim R m m' \<Longrightarrow> (\<And>x. sim R (f x) (f' x)) \<Longrightarrow>
     sim R (case v of None \<Rightarrow> m | Some x \<Rightarrow> f x) (case v of None \<Rightarrow> m' | Some x \<Rightarrow> f' x)"
  by (cases v) simp_all

lemma sim_prod [sim_intros]: "(\<And>x y. sim R (f x y) (f' x y)) \<Longrightarrow> sim R (case v of (x, y) \<Rightarrow> f x y) (case v of (x, y) \<Rightarrow> f' x y)"
  by (cases v) simp_all

lemma sim_whenP [sim_intros]: "sim R m m' \<Longrightarrow> sim R (whenP b m) (whenP b m')"
  unfolding whenP_def by (intro sim_intros)

section \<open>Store and ledger\<close>

text \<open>When a presented token stops being accepted, by what it is presented as.\<close>

definition presented_expiry :: "world platform \<Rightarrow> world provider \<Rightarrow> string \<Rightarrow> string \<Rightarrow> u64 option" where
  "presented_expiry P p kind tok =
     (if kind = ''code'' then
        (case token_open P (pv_codec p) ''AuthCodePayload'' code_from_json TYP_CODE tok of
           Inr payload \<Rightarrow> Some (ac_exp payload) | Inl _ \<Rightarrow> None)
      else if kind = ''refresh'' then
        (case token_open P (pv_codec p) ''RefreshTokenPayload'' refresh_from_json TYP_REFRESH tok of
           Inr rt \<Rightarrow> Some (rt_exp rt) | Inl _ \<Rightarrow> None)
      else None)"

text \<open>
  \<open>tracks\<close> relates the store to the ledger \<open>m\<close> from second \<open>now\<close> on, for the tokens in \<open>D\<close>: assertions have the same
  live entries; what the store refuses the ledger refuses; and a token of the ledger that has not expired is
  refused by the store until it expires.
\<close>

definition tracks ::
    "world platform \<Rightarrow> world provider \<Rightarrow> string set \<Rightarrow> u64 \<Rightarrow> token_use_inner \<Rightarrow> (string \<rightharpoonup> u64) \<Rightarrow> bool" where
  "tracks P p D now s m \<longleftrightarrow> \<not> tu_poisoned s \<and>
     (\<forall>h e. \<not> one_time h \<longrightarrow> now < e \<longrightarrow> (tu_entries s h = Some e \<longleftrightarrow> m h = Some e)) \<and>
     (\<forall>h e. one_time h \<longrightarrow> tu_entries s h = Some e \<longrightarrow> now < e \<longrightarrow> m h \<noteq> None) \<and>
     (\<forall>kind tok exp. tok \<in> D \<longrightarrow> presented_expiry P p kind tok = Some exp \<longrightarrow> now < exp \<longrightarrow>
        m (token_use_hash P kind tok) \<noteq> None \<longrightarrow>
        (\<exists>e \<ge> exp. tu_entries s (token_use_hash P kind tok) = Some e))"

lemma one_time_hash:
  "presented_expiry P p kind tok = Some exp \<Longrightarrow> one_time (token_use_hash P kind tok)"
  by (auto simp: presented_expiry_def one_time_def token_use_hash_def split: if_splits)

lemma assertion_not_one_time: "\<not> one_time (assertion_use_hash P cid jti)"
  by (simp add: one_time_def assertion_use_hash_def token_use_hash_def)

lemma tracks_later: "tracks P p D now s m \<Longrightarrow> now \<le> t \<Longrightarrow> tracks P p D t s m"
  unfolding tracks_def by (meson le_less_trans)

lemma tracks_purge: "tracks P p D now s m \<Longrightarrow> tracks P p D now (purge now s) m"
  unfolding tracks_def by (simp add: purge_entries) (meson less_le_trans)

lemma tracks_new: "tracks P p D now token_use_new Map.empty"
  by (simp add: tracks_def token_use_new_def)

text \<open>No two of the tokens have the same digest.\<close>

abbreviation digest_of :: "'w platform \<Rightarrow> string \<Rightarrow> string" where
  "digest_of P tok \<equiv> b64url_encode P (sha256 P tok)"

lemma same_use_hash:
  assumes "inj_on (digest_of P) D" and "tok \<in> D" and "tok' \<in> D"
    and "presented_expiry P p kind tok = Some exp" and "presented_expiry P p kind' tok' = Some exp'"
    and "token_use_hash P kind tok = token_use_hash P kind' tok'"
  shows "kind = kind' \<and> tok = tok'"
  using assms by (auto simp: presented_expiry_def token_use_hash_def inj_on_def split: if_splits)

lemma mem_consume_assertion:
  assumes "tracks P p D now s m" and "\<not> one_time h"
  shows "fst (mem_consume now h ttl s) = fst (ledger_consume now h ttl m) \<and>
    tracks P p D now (snd (mem_consume now h ttl s)) (snd (ledger_consume now h ttl m))"
proof -
  note t = tracks_purge [OF assms(1)]
  have l: "(case tu_entries (purge now s) h of Some exp \<Rightarrow> now < exp | None \<Rightarrow> False) =
      (case m h of Some exp \<Rightarrow> one_time h \<or> now < exp | None \<Rightarrow> False)"
    using t assms(2) unfolding tracks_def by (auto split: option.splits) (metis option.inject option.distinct(1))+
  have np: "\<not> tu_poisoned s" using assms(1) by (simp add: tracks_def)
  show ?thesis
  proof (cases "case m h of Some exp \<Rightarrow> one_time h \<or> now < exp | None \<Rightarrow> False")
    case True
    then show ?thesis using l np t by (simp add: mem_consume_def ledger_consume_def Let_def)
  next
    case False
    have "tracks P p D now ((purge now s)\<lparr>tu_entries := (tu_entries (purge now s))(h \<mapsto> e)\<rparr>) (m(h \<mapsto> e))" for e
      using t assms(2) one_time_hash unfolding tracks_def by (auto simp: one_time_hash)
    with False show ?thesis using l np by (simp add: mem_consume_def ledger_consume_def Let_def)
  qed
qed

lemma mem_consume_token:
  assumes "tracks P p D now s m" and "inj_on (digest_of P) D" and "tok \<in> D"
    and "presented_expiry P p kind tok = Some exp" and "now < exp" and "exp \<le> now + max ttl 1"
  shows "fst (mem_consume now (token_use_hash P kind tok) ttl s) = fst (ledger_consume now (token_use_hash P kind tok) ttl m) \<and>
    tracks P p D now (snd (mem_consume now (token_use_hash P kind tok) ttl s))
      (snd (ledger_consume now (token_use_hash P kind tok) ttl m))"
proof -
  let ?h = "token_use_hash P kind tok" and ?g = "purge now s"
  note t = tracks_purge [OF assms(1)]
  have o: "one_time ?h" using one_time_hash assms(4) .
  have np: "\<not> tu_poisoned s" using assms(1) by (simp add: tracks_def)
  have same: "exp' = exp" if "tok' \<in> D" "presented_expiry P p kind' tok' = Some exp'" "token_use_hash P kind' tok' = ?h"
    for kind' tok' exp'
    using same_use_hash [OF assms(2) that(1) assms(3) that(2) assms(4) that(3)] that(2) assms(4) by simp
  show ?thesis
  proof (cases "m ?h")
    case None
    then have n: "\<not> (case tu_entries ?g ?h of Some e \<Rightarrow> now < e | None \<Rightarrow> False)"
      using t o unfolding tracks_def by (auto split: option.splits)
    have "tracks P p D now (?g\<lparr>tu_entries := (tu_entries ?g)(?h \<mapsto> now + max ttl 1)\<rparr>) (m(?h \<mapsto> now + max ttl 1))"
      using t o assms(6) same unfolding tracks_def by auto
    with None n np show ?thesis by (simp add: mem_consume_def ledger_consume_def Let_def)
  next
    case (Some e)
    then obtain e' where "tu_entries ?g ?h = Some e'" "exp \<le> e'"
      using t assms(3-5) unfolding tracks_def by blast
    then show ?thesis using Some o np t assms(5) by (auto simp: mem_consume_def ledger_consume_def Let_def)
  qed
qed

text \<open>The calls the endpoint makes: for the identifier of an assertion, or for an unexpired presented token.\<close>

definition redeemable :: "world platform \<Rightarrow> world provider \<Rightarrow> string set \<Rightarrow> u64 \<Rightarrow> string \<Rightarrow> u64 \<Rightarrow> bool" where
  "redeemable P p D now h ttl \<longleftrightarrow> \<not> one_time h \<or>
     (\<exists>kind tok exp. h = token_use_hash P kind tok \<and> tok \<in> D \<and> presented_expiry P p kind tok = Some exp \<and>
        now < exp \<and> exp \<le> now + max ttl 1)"

lemma mem_consume_tracks:
  assumes "tracks P p D now s m" and "inj_on (digest_of P) D" and "redeemable P p D now h ttl"
  shows "fst (mem_consume now h ttl s) = fst (ledger_consume now h ttl m)"
    and "tracks P p D now (snd (mem_consume now h ttl s)) (snd (ledger_consume now h ttl m))"
  using assms(3) mem_consume_assertion [OF assms(1)] mem_consume_token [OF assms(1,2)]
  unfolding redeemable_def by metis+

section \<open>Deployment and ideal machine side by side\<close>

text \<open>The cryptographic crates do not look into the token-use store.\<close>

definition store_blind :: "(world, 'e, 'a) prog \<Rightarrow> bool" where
  "store_blind m \<longleftrightarrow> (\<forall>w u. m (w\<lparr>w_uses := u\<rparr>) = (fst (m w), (snd (m w))\<lparr>w_uses := u\<rparr>))"

definition crates_blind :: "world platform \<Rightarrow> bool" where
  "crates_blind P \<longleftrightarrow> (\<forall>k pt. store_blind (jwe_encrypt P k pt)) \<and> (\<forall>k hh c. store_blind (jwt_encode P k hh c)) \<and>
     (\<forall>ks t v. store_blind (jwt_decode_with_jwkset P ks t v))"

text \<open>
  \<open>abreast\<close>: the two worlds differ in the token-use store alone, which tracks the ledger from the next reading on; the
  readings left are ordered and among those in \<open>T\<close>.
\<close>

definition abreast ::
    "world platform \<Rightarrow> world provider \<Rightarrow> string set \<Rightarrow> u64 set \<Rightarrow> world \<Rightarrow> world \<Rightarrow> bool" where
  "abreast P p D T w v \<longleftrightarrow> v = w\<lparr>w_uses := w_uses v\<rparr> \<and> w_times w \<noteq> [] \<and> sorted (w_times w) \<and> set (w_times w) \<subseteq> T \<and>
     tracks P p D (hd (w_times w)) (w_uses w) (tu_entries (w_uses v))"

lemma abreast_advance:
  assumes "abreast P p D T w v" and "drift w w1" and "w_times w' = w_times w1" and "w_uses w' = w_uses w"
  shows "abreast P p D T w' (w'\<lparr>w_uses := w_uses v\<rparr>)"
proof -
  have t: "w_times w \<noteq> []" "sorted (w_times w)" "set (w_times w) \<subseteq> T"
    and k: "tracks P p D (hd (w_times w)) (w_uses w) (tu_entries (w_uses v))"
    using assms(1) by (auto simp: abreast_def)
  have "w_times w1 \<noteq> []" "sorted (w_times w1)" "set (w_times w1) \<subseteq> set (w_times w)"
    using drift_nonempty drift_sorted drift_times assms(2) t by blast+
  moreover have "hd (w_times w) \<le> hd (w_times w1)"
    using t calculation by (cases "w_times w") (auto dest: hd_in_set)
  ultimately show ?thesis using assms(3,4) t(3) tracks_later [OF k] by (auto simp: abreast_def)
qed

lemma sim_blind:
  assumes "store_blind m" and "\<And>w. drift w (snd (m w))"
  shows "sim (abreast P p D T) m m"
  unfolding sim_def
proof (intro allI impI)
  fix w v assume r: "abreast P p D T w v"
  then have v: "v = w\<lparr>w_uses := w_uses v\<rparr>" by (simp add: abreast_def)
  have "m v = (fst (m w), (snd (m w))\<lparr>w_uses := w_uses v\<rparr>)"
    by (subst v) (simp only: assms(1) [unfolded store_blind_def, rule_format])
  then show "fst (m w) = fst (m v) \<and> abreast P p D T (snd (m w)) (snd (m v))"
    using abreast_advance [OF r assms(2) refl] drift_stores [OF assms(2)] by simp
qed

lemma clock_blind: "world_clock (w\<lparr>w_uses := u\<rparr>) = (fst (world_clock w), (snd (world_clock w))\<lparr>w_uses := u\<rparr>)"
  by (auto simp: world_clock_def split: list.splits)

lemma sim_clock: "sim (abreast P p D T) (effP world_clock :: (world, 'e, u64) prog) (effP world_clock)"
proof (rule sim_blind)
  show "store_blind (effP world_clock :: (world, 'e, u64) prog)"
    by (simp add: store_blind_def effP_def clock_blind case_prod_beta)
  show "drift w (snd (effP world_clock w :: ('e, u64) result \<times> world))" for w
    using world_clock_drift [of w] by (cases "world_clock w") (simp add: effP_def)
qed

lemma sim_clients: "sim (abreast P p D T) (effP (clients_get cid) :: (world, 'e, client option) prog) (effP (clients_get cid))"
  unfolding sim_def
proof (intro allI impI)
  fix w v assume r: "abreast P p D T w v"
  then have v: "v = w\<lparr>w_uses := w_uses v\<rparr>" by (simp add: abreast_def)
  obtain t w1 where t: "world_clock w = (t, w1)" by (cases "world_clock w")
  obtain c s where c: "client_map_get t cid (w_clients w1) = (c, s)" by (cases "client_map_get t cid (w_clients w1)")
  have "clients_get cid w = (c, w1\<lparr>w_clients := s\<rparr>)" by (simp add: clients_get_def t c)
  moreover have "clients_get cid v = (c, w1\<lparr>w_clients := s, w_uses := w_uses v\<rparr>)"
    by (subst v) (simp add: clients_get_def clock_blind t c)
  moreover have "abreast P p D T (w1\<lparr>w_clients := s\<rparr>) (w1\<lparr>w_clients := s, w_uses := w_uses v\<rparr>)"
    using abreast_advance [OF r world_clock_drift [OF t], of "w1\<lparr>w_clients := s\<rparr>"] drift_stores [OF world_clock_drift [OF t]]
    by simp
  ultimately show "fst (effP (clients_get cid) w :: ('e, client option) result \<times> world) = fst (effP (clients_get cid) v) \<and>
      abreast P p D T (snd (effP (clients_get cid) w :: ('e, client option) result \<times> world)) (snd (effP (clients_get cid) v :: ('e, client option) result \<times> world))"
    by (simp add: effP_def)
qed

lemma use_abreast:
  assumes "abreast P p D T w v" and "inj_on (digest_of P) D" and "redeemable P p D (hd (w_times w)) h ttl"
  shows "fst (uses_consume h ttl w) = fst (ledger_use h ttl v) \<and>
    abreast P p D T (snd (uses_consume h ttl w)) (snd (ledger_use h ttl v))"
proof -
  have v: "v = w\<lparr>w_uses := w_uses v\<rparr>" and n: "w_times w \<noteq> []"
    and k: "tracks P p D (hd (w_times w)) (w_uses w) (tu_entries (w_uses v))"
    using assms(1) by (auto simp: abreast_def)
  obtain t w1 where t: "world_clock w = (t, w1)" by (cases "world_clock w")
  have hd: "t = hd (w_times w)" using t n by (auto simp: world_clock_def split: list.splits)
  have "world_clock v = (t, w1\<lparr>w_uses := w_uses v\<rparr>)" by (subst v) (simp add: clock_blind t)
  moreover have "w_uses w1 = w_uses w" using drift_stores [OF world_clock_drift [OF t]] by simp
  moreover obtain r s where m: "mem_consume t h ttl (w_uses w) = (r, s)" by (cases "mem_consume t h ttl (w_uses w)")
  moreover obtain m' where "ledger_consume t h ttl (tu_entries (w_uses v)) = (r, m')" and k': "tracks P p D t s m'"
    using mem_consume_tracks [OF k assms(2,3)] m
    by (cases "ledger_consume t h ttl (tu_entries (w_uses v))") (simp add: hd)
  ultimately have "uses_consume h ttl w = (r, w1\<lparr>w_uses := s\<rparr>)" and
      "ledger_use h ttl v = (r, with_ledger m' (w1\<lparr>w_uses := w_uses v\<rparr>))"
    by (simp_all add: uses_consume_def ledger_use_def t)
  moreover have "abreast P p D T w1 (w1\<lparr>w_uses := w_uses v\<rparr>)"
    using abreast_advance [OF assms(1) world_clock_drift [OF t] refl] drift_stores [OF world_clock_drift [OF t]] by simp
  moreover have "\<forall>t' \<in> set (w_times w1). t \<le> t'"
    using world_clock_le [OF t] assms(1) by (simp add: abreast_def)
  ultimately show ?thesis using k' tracks_later [OF k', of "hd (w_times w1)"]
    by (auto simp: abreast_def with_ledger_def)
qed

section \<open>The token endpoint\<close>

lemma ledger_fields [simp]:
  "pv_metadata (over_ledger p) = pv_metadata p" "pv_signing_key (over_ledger p) = pv_signing_key p"
  "pv_clients (over_ledger p) = pv_clients p" "pv_codec (over_ledger p) = pv_codec p"
  "pv_lifetimes (over_ledger p) = pv_lifetimes p" "pv_token_use_store (over_ledger p) = ledger_use"
  "pv_client_assertion_max_age (over_ledger p) = pv_client_assertion_max_age p"
  by (simp_all add: over_ledger_def)

text \<open>Everything but the token-use store is the same on both sides.\<close>

lemma ledger_same:
  "issuer (over_ledger p) = issuer p"
  "assertion_validation P (over_ledger p) cid = assertion_validation P p cid"
  "mint_for_code P (over_ledger p) client payload dpop = mint_for_code P p client payload dpop"
  "mint_for_refresh P (over_ledger p) client rt scope cnf dpop now = mint_for_refresh P p client rt scope cnf dpop now"
  "require_client (over_ledger p) e cid = require_client p e cid"
  "check_secret (over_ledger p) cid secret m = check_secret p cid secret m"
  unfolding mint_for_code_def mint_for_refresh_def code_access_payload_def code_refresh_payload_def hashable_def
    build_id_token_def opt_token_hash_def oidc_token_hash_def id_token_claims_def assertion_validation_def
    refresh_access_payload_def rotated_refresh_payload_def require_client_def check_secret_def ledger_fields
  by (rule refl)+

text \<open>A deployment whose crates do not look into the store, seen from the readings and tokens of one request.\<close>

definition side_by_side :: "world platform \<Rightarrow> world provider \<Rightarrow> string set \<Rightarrow> bool" where
  "side_by_side P p D \<longleftrightarrow> deployed P p \<and> crates_blind P \<and> inj_on (digest_of P) D"

lemma sim_environment:
  assumes "side_by_side P p D"
  shows "sim (abreast P p D T) (effP (now_secs P) :: (world, 'e, u64) prog) (effP (now_secs P))"
    and "sim (abreast P p D T) (effP (pv_clients p cid) :: (world, 'e, client option) prog) (effP (pv_clients p cid))"
    and "sim (abreast P p D T) (jwe_encrypt P k pt) (jwe_encrypt P k pt)"
    and "sim (abreast P p D T) (jwt_encode P s hh c) (jwt_encode P s hh c)"
    and "sim (abreast P p D T) (jwt_decode_with_jwkset P ks tok vd) (jwt_decode_with_jwkset P ks tok vd)"
  using assms by (auto simp: side_by_side_def deployed_def crates_blind_def intro: sim_clock sim_clients sim_blind)

lemma sim_assertion_use:
  assumes "side_by_side P p D"
  shows "sim (abreast P p D T) (pv_token_use_store p (assertion_use_hash P cid jti) ttl) (ledger_use (assertion_use_hash P cid jti) ttl)"
proof -
  have "redeemable P p D now (assertion_use_hash P cid jti) ttl" for now
    by (simp add: redeemable_def assertion_not_one_time)
  with assms show ?thesis
    unfolding sim_def by (simp add: side_by_side_def deployed_def use_abreast)
qed

lemma sim_tokens:
  assumes "side_by_side P p D"
  shows "sim (abreast P p D T) (token_seal P c typ val) (token_seal P c typ val)"
    and "sim (abreast P p D T) (open_code P c tok) (open_code P c tok)"
    and "sim (abreast P p D T) (open_refresh_token P c tok) (open_refresh_token P c tok)"
    and "sim (abreast P p D T) (build_id_token P p cid sub n cl acr at cd a) (build_id_token P p cid sub n cl acr at cd a)"
  unfolding token_seal_def open_code_def open_refresh_token_def build_id_token_def jwt_sign_def Let_def
  by (intro sim_intros sim_environment [OF assms])+

lemma sim_mint:
  assumes "side_by_side P p D"
  shows "sim (abreast P p D T) (mint_for_code P p client payload dpop) (mint_for_code P p client payload dpop)"
    and "sim (abreast P p D T) (mint_for_refresh P p client rt scope cnf dpop now) (mint_for_refresh P p client rt scope cnf dpop now)"
  unfolding mint_for_code_def mint_for_refresh_def seal_access_token_def seal_refresh_token_def Let_def
  by (intro sim_intros sim_tokens [OF assms] sim_environment [OF assms])+

lemma sim_authenticate:
  assumes "side_by_side P p D"
  shows "sim (abreast P p D T) (authenticate_client_map P p form hdr url) (authenticate_client_map P (over_ledger p) form hdr url)"
proof -
  note k = sim_environment [OF assms] sim_assertion_use [OF assms]
  have r: "sim (abreast P p D T) (require_client p e cid) (require_client p e cid)" for e cid
    unfolding require_client_def by (intro sim_intros k)
  have s: "sim (abreast P p D T) (check_secret p cid secret m) (check_secret p cid secret m)" for cid secret m
    unfolding check_secret_def by (intro sim_intros r)
  have "sim (abreast P p D T) (verify_private_key_jwt P p a form url) (verify_private_key_jwt P (over_ledger p) a form url)" for a
    unfolding verify_private_key_jwt_def verify_with_jwks_def Let_def ledger_same ledger_fields by (intro sim_intros r k)
  then show ?thesis unfolding authenticate_client_map_def Let_def ledger_same by (intro sim_intros r s)
qed

text \<open>
  Within a request whose readings are all before the expiry of the token, the store and the ledger decide
  alike whether it has been used.
\<close>

lemma sim_consume:
  assumes "side_by_side P p D" and "tok \<in> D" and "presented_expiry P p kind tok = Some exp"
    and "unat exp < 2 ^ 63" and "\<forall>x \<in> T. x < exp"
  shows "sim (abreast P p D T) (consume_token_once P p kind tok exp msg) (consume_token_once P (over_ledger p) kind tok exp msg)"
  unfolding sim_def
proof (intro allI impI)
  fix w v assume r: "abreast P p D T w v"
  have d: "now_secs P = world_clock" "pv_token_use_store p = uses_consume" "inj_on (digest_of P) D"
    using assms(1) by (simp_all add: side_by_side_def deployed_def)
  have n: "w_times w \<noteq> []" "sorted (w_times w)" using r by (auto simp: abreast_def)
  obtain t w1 where t: "world_clock w = (t, w1)" by (cases "world_clock w")
  define v1 where "v1 = snd (world_clock v)"
  have "fst (world_clock v) = t" and r1: "abreast P p D T w1 v1"
    using sim_clock [of P p D T, unfolded sim_def, rule_format, OF r] t
    by (simp_all add: effP_def case_prod_beta v1_def)
  then have tv: "world_clock v = (t, v1)" by (simp add: v1_def prod_eq_iff)
  let ?h = "token_use_hash P kind tok" and ?t1 = "hd (w_times w1)" and ?ttl = "max (saturating_sub exp t) 1"
  have "w_times w1 \<noteq> []" "set (w_times w1) \<subseteq> T" using r1 by (auto simp: abreast_def)
  then have t1: "?t1 < exp" "t \<le> ?t1"
    using assms(5) world_clock_le [OF t n(2,1)] by (auto dest: hd_in_set)
  have "unat exp \<le> unat (?t1 + max ?ttl 1)"
  proof -
    have a: "unat t \<le> unat ?t1" "unat ?t1 < unat exp"
      using t1 by (simp_all add: word_le_nat_alt word_less_nat_alt)
    have b: "unat (max ?ttl 1) = max (unat exp - unat t) 1" by (simp add: unat_max_one unat_saturating_sub)
    then have "unat ?t1 + unat (max ?ttl 1) < 2 ^ 64" using a assms(4) by simp
    then show ?thesis using a b by (simp add: unat_add_no_wrap)
  qed
  then have "redeemable P p D ?t1 ?h ?ttl"
    unfolding redeemable_def using assms(2,3) t1(1) by (metis word_le_nat_alt)
  from use_abreast [OF r1 d(3) this]
  show "fst (consume_token_once P p kind tok exp msg w) = fst (consume_token_once P (over_ledger p) kind tok exp msg v) \<and>
      abreast P p D T (snd (consume_token_once P p kind tok exp msg w)) (snd (consume_token_once P (over_ledger p) kind tok exp msg v))"
    by (auto simp: consume_token_once_def d t tv bindP_def effP_def Let_def mapErrP_def guardP_def retP_def failP_def
        split: prod.splits sum.splits)
qed

text \<open>A request is steady if none of its readings cross the expiry of the token it presents.\<close>

definition presented_tokens :: "token_request \<Rightarrow> string set" where
  "presented_tokens q = set_option (map_of (rq_form q) ''code'') \<union> set_option (map_of (rq_form q) ''refresh_token'')"

definition steady :: "world platform \<Rightarrow> world provider \<Rightarrow> token_request \<Rightarrow> bool" where
  "steady P p q \<longleftrightarrow> (\<forall>tok \<in> presented_tokens q. \<forall>kind \<in> {''code'', ''refresh''}.
     case presented_expiry P p kind tok of Some t \<Rightarrow> unat t < 2 ^ 63 \<and> \<not> straddles t q | None \<Rightarrow> True)"

lemma steady_before:
  assumes "steady P p q" and "tok \<in> presented_tokens q" and "presented_expiry P p kind tok = Some t"
    and "x \<in> set (rq_times q)" and "x < t"
  shows "unat t < 2 ^ 63 \<and> (\<forall>y \<in> set (rq_times q). y < t)"
proof -
  have "kind \<in> {''code'', ''refresh''}" using assms(3) by (auto simp: presented_expiry_def split: if_splits)
  then have "unat t < 2 ^ 63 \<and> \<not> straddles t q" using assms(1-3) unfolding steady_def by force
  then show ?thesis using assms(4,5) by (auto simp: straddles_def not_le)
qed

text \<open>A token that opened was read before its expiry.\<close>

lemma open_code_read:
  assumes "side_by_side P p D" and "abreast P p D T w v" and "mapErrP g (open_code P (pv_codec p) tok) w = (Inr payload, w1)"
  shows "presented_expiry P p ''code'' tok = Some (ac_exp payload) \<and> (\<exists>x \<in> T. x < ac_exp payload)"
proof -
  obtain x where "world_clock w = (x, w1)" "\<not> ac_exp payload \<le> x"
      "token_open P (pv_codec p) ''AuthCodePayload'' code_from_json TYP_CODE tok = Inr payload"
    using assms(1,3) by (auto simp: open_code_def prog_ok side_by_side_def deployed_def)
  moreover have "x \<in> T" using calculation(1) world_clock_in assms(2) unfolding abreast_def by blast
  ultimately show ?thesis by (auto simp: presented_expiry_def not_le)
qed

lemma open_refresh_read:
  assumes "side_by_side P p D" and "abreast P p D T w v" and "mapErrP g (open_refresh_token P (pv_codec p) tok) w = (Inr rt, w1)"
  shows "presented_expiry P p ''refresh'' tok = Some (rt_exp rt) \<and> (\<exists>x \<in> T. x < rt_exp rt)"
proof -
  obtain x where "world_clock w = (x, w1)" "\<not> rt_exp rt \<le> x"
      "token_open P (pv_codec p) ''RefreshTokenPayload'' refresh_from_json TYP_REFRESH tok = Inr rt"
    using assms(1,3) by (auto simp: open_refresh_token_def prog_ok side_by_side_def deployed_def)
  moreover have "x \<in> T" using calculation(1) world_clock_in assms(2) unfolding abreast_def by blast
  ultimately show ?thesis by (auto simp: presented_expiry_def not_le)
qed

lemma sim_code:
  assumes s: "side_by_side P p D" and q: "steady P p q" "presented_tokens q \<subseteq> D" and f: "\<And>k. map_of form k = map_of (rq_form q) k"
  shows "sim (abreast P p D (set (rq_times q))) (handle_authorization_code P p form hdr url dpop)
    (handle_authorization_code P (over_ledger p) form hdr url dpop)"
  unfolding handle_authorization_code_def ledger_fields ledger_same
proof (rule sim_bindP [OF sim_authenticate [OF s]], rule sim_guardP, rule sim_bindP_liftR, rule sim_bindP_on)
  fix client code
  assume "ok_or (bt_get form ''code'') (invalid_request ''missing code'') = Inr code"
  then have c: "code \<in> presented_tokens q" using f by (auto simp: presented_tokens_def ok_or_eq_Inr)
  show "sim (abreast P p D (set (rq_times q))) (mapErrP (\<lambda>_. invalid_grant ''invalid or expired code'') (open_code P (pv_codec p) code))
      (mapErrP (\<lambda>_. invalid_grant ''invalid or expired code'') (open_code P (pv_codec p) code))"
    by (intro sim_intros sim_tokens [OF s])
  fix payload w v w1
  assume "abreast P p D (set (rq_times q)) w v"
    and "mapErrP (\<lambda>_. invalid_grant ''invalid or expired code'') (open_code P (pv_codec p) code) w = (Inr payload, w1)"
  from open_code_read [OF s this] obtain x where e: "presented_expiry P p ''code'' code = Some (ac_exp payload)"
      and "x \<in> set (rq_times q)" "x < ac_exp payload" by blast
  note b = steady_before [OF q(1) c this]
  show "sim (abreast P p D (set (rq_times q)))
     (bindP (liftR (check_code_binding P client payload form)) (\<lambda>_.
      bindP (consume_token_once P p ''code'' code (ac_exp payload) ''authorization code already used'') (\<lambda>_.
      mint_for_code P p client payload dpop)))
     (bindP (liftR (check_code_binding P client payload form)) (\<lambda>_.
      bindP (consume_token_once P (over_ledger p) ''code'' code (ac_exp payload) ''authorization code already used'') (\<lambda>_.
      mint_for_code P p client payload dpop)))"
    using c q(2) b by (intro sim_intros sim_mint [OF s] sim_consume [OF s _ e]) auto
qed

lemma sim_refresh:
  assumes s: "side_by_side P p D" and q: "steady P p q" "presented_tokens q \<subseteq> D" and f: "\<And>k. map_of form k = map_of (rq_form q) k"
  shows "sim (abreast P p D (set (rq_times q))) (handle_refresh_token P p form hdr url dpop)
    (handle_refresh_token P (over_ledger p) form hdr url dpop)"
  unfolding handle_refresh_token_def ledger_fields ledger_same
proof (rule sim_bindP [OF sim_authenticate [OF s]], rule sim_guardP, rule sim_bindP_liftR, rule sim_bindP_on)
  fix client tok
  assume "ok_or (bt_get form ''refresh_token'') (invalid_request ''missing refresh_token'') = Inr tok"
  then have c: "tok \<in> presented_tokens q" using f by (auto simp: presented_tokens_def ok_or_eq_Inr)
  show "sim (abreast P p D (set (rq_times q))) (mapErrP (\<lambda>_. invalid_grant ''invalid or expired refresh_token'') (open_refresh_token P (pv_codec p) tok))
      (mapErrP (\<lambda>_. invalid_grant ''invalid or expired refresh_token'') (open_refresh_token P (pv_codec p) tok))"
    by (intro sim_intros sim_tokens [OF s])
  fix rt w v w1
  assume "abreast P p D (set (rq_times q)) w v"
    and "mapErrP (\<lambda>_. invalid_grant ''invalid or expired refresh_token'') (open_refresh_token P (pv_codec p) tok) w = (Inr rt, w1)"
  from open_refresh_read [OF s this] obtain x where e: "presented_expiry P p ''refresh'' tok = Some (rt_exp rt)"
      and "x \<in> set (rq_times q)" "x < rt_exp rt" by blast
  note b = steady_before [OF q(1) c this]
  show "sim (abreast P p D (set (rq_times q)))
     (guardP (rt_client_id rt = cl_client_id client) (invalid_grant ''refresh token was issued to another client'') (
      bindP (liftR (refresh_confirmation rt dpop)) (\<lambda>cnf_jkt.
      bindP (liftR (refresh_scope rt form)) (\<lambda>scope.
      bindP (effP (now_secs P)) (\<lambda>now.
      bindP (consume_token_once P p ''refresh'' tok (rt_exp rt) ''refresh token already used'') (\<lambda>_.
      mint_for_refresh P p client rt scope cnf_jkt dpop now))))))
     (guardP (rt_client_id rt = cl_client_id client) (invalid_grant ''refresh token was issued to another client'') (
      bindP (liftR (refresh_confirmation rt dpop)) (\<lambda>cnf_jkt.
      bindP (liftR (refresh_scope rt form)) (\<lambda>scope.
      bindP (effP (now_secs P)) (\<lambda>now.
      bindP (consume_token_once P (over_ledger p) ''refresh'' tok (rt_exp rt) ''refresh token already used'') (\<lambda>_.
      mint_for_refresh P p client rt scope cnf_jkt dpop now))))))"
    using c q(2) b by (intro sim_intros sim_environment(1) [OF s] sim_mint [OF s] sim_consume [OF s _ e]) auto
qed

lemma sim_request:
  assumes s: "side_by_side P p D" and q: "steady P p q" "presented_tokens q \<subseteq> D"
  shows "sim (abreast P p D (set (rq_times q)))
    (handle_token_request P p (rq_form q) (rq_header q) (rq_url q) (rq_dpop q))
    (handle_token_request P (over_ledger p) (rq_form q) (rq_header q) (rq_url q) (rq_dpop q))"
  unfolding handle_token_request_def
proof (rule sim_bindP_liftR)
  fix form
  assume "unique_parameters (rq_form q) = Inr form"
  then have f: "\<And>k. map_of form k = map_of (rq_form q) k"
    unfolding unique_parameters_def by (rule btmap.collect_get(2))
  have "sim (abreast P p D (set (rq_times q))) (handle_client_credentials P p form (rq_header q) (rq_url q) (rq_dpop q))
      (handle_client_credentials P (over_ledger p) form (rq_header q) (rq_url q) (rq_dpop q))"
    unfolding handle_client_credentials_def seal_access_token_def Let_def ledger_fields
    by (intro sim_intros sim_authenticate [OF s] sim_environment [OF s] sim_tokens [OF s])
  then show "sim (abreast P p D (set (rq_times q)))
      (handle_token_request_map P p form (rq_header q) (rq_url q) (rq_dpop q))
      (handle_token_request_map P (over_ledger p) form (rq_header q) (rq_url q) (rq_dpop q))"
    unfolding handle_token_request_map_def by (intro sim_intros sim_code [OF s q f] sim_refresh [OF s q f])
qed

section \<open>Sequences of requests\<close>

text \<open>Between two requests the store and the ledger stay as they are; only the clock goes on.\<close>

lemma run_tracks:
  assumes "side_by_side P p D" and "\<forall>q \<in> set qs. steady P p q \<and> presented_tokens q \<subseteq> D \<and> rq_times q \<noteq> []"
    and "sorted (concat (List.map rq_times qs))" and "\<forall>x \<in> set (concat (List.map rq_times qs)). now \<le> x"
    and "v = w\<lparr>w_uses := w_uses v, w_times := w_times v\<rparr>" and "tracks P p D now (w_uses w) (tu_entries (w_uses v))"
  shows "fst (run_requests P p qs w) = fst (run_requests P (over_ledger p) qs v)"
  using assms(2-)
proof (induction qs arbitrary: now w v)
  case (Cons q qs)
  let ?w = "w\<lparr>w_times := rq_times q\<rparr>" and ?v = "v\<lparr>w_times := rq_times q\<rparr>" and ?T = "set (rq_times q)"
  have q: "steady P p q" "presented_tokens q \<subseteq> D" "rq_times q \<noteq> []" using Cons.prems(1) by auto
  have v: "?v = ?w\<lparr>w_uses := w_uses v\<rparr>" using Cons.prems(4) by (metis world.surjective world.update_convs)
  have so: "sorted (rq_times q)" "\<forall>x \<in> ?T. \<forall>y \<in> set (concat (List.map rq_times qs)). x \<le> y"
    using Cons.prems(2) by (auto simp: sorted_append)
  have "now \<le> hd (rq_times q)" using Cons.prems(3) q(3) by simp
  then have "abreast P p D ?T ?w ?v"
    using v q(3) so(1) tracks_later [OF Cons.prems(5)] by (simp add: abreast_def)
  with sim_request [OF assms(1) q(1,2)]
  have a: "fst (serve P p q w) = fst (serve P (over_ledger p) q v)"
    and r: "abreast P p D ?T (snd (serve P p q w)) (snd (serve P (over_ledger p) q v))"
    unfolding sim_def serve_def by blast+
  let ?w1 = "snd (serve P p q w)" and ?v1 = "snd (serve P (over_ledger p) q v)"
  have h: "hd (w_times ?w1) \<in> ?T" using r unfolding abreast_def by (meson hd_in_set subsetD)
  have "?v1 = ?w1\<lparr>w_uses := w_uses ?v1, w_times := w_times ?v1\<rparr>"
    using r unfolding abreast_def by (metis world.surjective world.update_convs)
  moreover have "tracks P p D (hd (w_times ?w1)) (w_uses ?w1) (tu_entries (w_uses ?v1))"
    using r by (simp add: abreast_def)
  ultimately have "fst (run_requests P p qs ?w1) = fst (run_requests P (over_ledger p) qs ?v1)"
    using Cons.prems(1,2) so(2) h by (intro Cons.IH [of "hd (w_times ?w1)"]) (auto simp: sorted_append)
  with a show ?case by (simp add: case_prod_beta)
qed simp

text \<open>
  C4.  The token endpoint implements the ledger.  Over the in-memory store, which forgets redeemed codes and refresh
  tokens at their deadline and sweeps them, it answers every sequence of token requests, of whatever grants and
  clients, exactly as over a ledger that never forgets them: the same tokens, the same errors.  The crates do
  not look into the store, the clock does not go backwards, no request reads it both before and after the
  expiry of the token it presents, and no two presented tokens have the same digest.
\<close>

theorem token_endpoint_implements_ledger:
  assumes "deployed P p" and "crates_blind P"
    and "sorted (concat (List.map rq_times qs))" and "\<forall>q \<in> set qs. rq_times q \<noteq> [] \<and> steady P p q"
    and "inj_on (\<lambda>tok. b64url_encode P (sha256 P tok)) (\<Union> (presented_tokens ` set qs))"
    and "w_uses w = token_use_new"
  shows "fst (run_requests P p qs w) = fst (run_requests P (over_ledger p) qs w)"
proof (rule run_tracks [where now = 0 and D = "\<Union> (presented_tokens ` set qs)"])
  show "side_by_side P p (\<Union> (presented_tokens ` set qs))"
    using assms(1,2,5) by (simp add: side_by_side_def)
  show "tracks P p (\<Union> (presented_tokens ` set qs)) 0 (w_uses w) (tu_entries (w_uses w))"
    using tracks_new assms(6) by (simp add: token_use_new_def)
qed (use assms(3,4) in auto)

text \<open>The code of \<open>Example_Run\<close>, presented three times: in time, again, and after its expiry.\<close>

lemma minted_expiry:
  "presented_expiry exchange_platform sample_provider ''code'' minted_token = Some 700"
  "presented_expiry exchange_platform sample_provider ''refresh'' minted_token = None"
proof -
  have "json_from_slice exchange_platform [] = Inr (json_norm (sealed_envelope TYP_CODE (code_to_json minted_code)))"
    by (simp add: exchange_on_def sample_platform_def)
  moreover have "jwe_decrypt exchange_platform (pad32 ''secret'') minted_token = Inr []"
    by (simp add: exchange_on_def sample_platform_def minted_token_def)
  ultimately obtain e where "token_open exchange_platform (pv_codec sample_provider) ''RefreshTokenPayload'' refresh_from_json TYP_REFRESH minted_token = Inl e"
    by (cases "refresh_from_json (json_norm (code_to_json minted_code))")
      (auto simp: token_open_def sample_codec open_plaintext_def opened_sealed token_type_defs simp del: json_norm.simps)
  then show "presented_expiry exchange_platform sample_provider ''refresh'' minted_token = None"
    by (simp add: presented_expiry_def)
qed (simp add: presented_expiry_def sample_opens minted_code_fields)

definition three_requests :: "token_request list" where
  "three_requests = [code_request_at [650], code_request_at [660], code_request_at [710]]"

theorem token_endpoint_implements_ledger_witness:
  "\<exists>r rs. fst (run_requests exchange_platform (over_ledger sample_provider) three_requests (fresh_world [] [public_client])) =
     Inr r # rs"
proof -
  have "crates_blind exchange_platform" by (simp add: crates_blind_def store_blind_def retP_def failP_def)
  moreover have t: "presented_tokens (code_request_at ts) = {minted_token}" for ts
    by (simp add: presented_tokens_def code_request_at_def code_form_def)
  moreover have "steady exchange_platform sample_provider (code_request_at [t])" for t
    unfolding steady_def t by (simp add: minted_expiry straddles_def code_request_at_def not_le)
  ultimately have e: "fst (run_requests exchange_platform sample_provider three_requests (fresh_world [] [public_client])) =
      fst (run_requests exchange_platform (over_ledger sample_provider) three_requests (fresh_world [] [public_client]))"
    by (intro token_endpoint_implements_ledger [OF exchange_deployed])
      (simp_all add: three_requests_def fresh_world_def code_request_at_def)
  have "(fresh_world [] [public_client])\<lparr>w_times := [650]\<rparr> = fresh_world [650] [public_client]"
    by (simp add: fresh_world_def)
  then obtain r w1 where "serve exchange_platform sample_provider (code_request_at [650]) (fresh_world [] [public_client]) = (Inr r, w1)"
    using exchange_at [of 650 "''https://op/token''" None] by (auto simp: serve_code_form)
  then show ?thesis unfolding e [symmetric] by (simp add: three_requests_def case_prod_beta)
qed

end
