(* ===== verification/Login_Complete.thy ===== *)
theory Login_Complete
  imports Login_Flow
begin

text \<open>
  A login that succeeds.  The other theorems say what an accepted answer proves; this theory says that the honest one
  is given: a relying party that holds the code of its own request gets tokens for it from the provider and
  accepts the ID token in them, as long as the code has not expired or been redeemed and the crates, the
  stores and the host between the two answer.
\<close>

section \<open>Programs that answer\<close>












section \<open>The code is redeemed\<close>




section \<open>The tokens of the response\<close>











section \<open>The relying party reads the response\<close>



section \<open>The login\<close>





section \<open>A concrete login\<close>

text \<open>
  The world is what was signed, the second, which advances with every reading, and whether the code was used.  A JSON text
  is the number of its value, but for the sealed code, whose text is empty; a signed token is the position of its
  claims, and decodes to them while they are current.
\<close>

type_synonym login_world = "claims list \<times> u64 \<times> bool"

definition code_text :: json where
  "code_text = sealed_envelope TYP_CODE (code_to_json minted_code)"

definition login_platform :: "login_world platform" where
  "login_platform = (exchange_on (\<lambda>(l, t, u). (t, l, saturating_add t 1, u)))
     \<lparr>url_parse := (\<lambda>s. if take 8 s = ''https://'' then Inr (https_url s) else Inl ''relative URL without a base''),
      json_to_vec := (\<lambda>v. Inr (if v = code_text then [] else replicate (Suc (to_nat v)) (CHR ''1''))),
      json_from_slice := (\<lambda>t. Inr (json_norm (if t = [] then code_text else from_nat (length t - 1)))),
      jwt_encode := (\<lambda>_ _ c (l, r). (Inr (replicate (Suc (length l)) (CHR ''1'')), (l @ [c], r))),
      jws_decode_header := (\<lambda>_. Inr (own_header sample_signing_key)),
      jwt_decode_with_jwkset := (\<lambda>_ tok v (l, t, u).
        (if length tok \<le> length l \<and> claims_meet v (l ! (length tok - 1)) \<and> current v (l ! (length tok - 1)) t
         then Inr (l ! (length tok - 1)) else Inl ''invalid'', (l, saturating_add t 1, u)))\<rparr>"

definition login_provider :: "login_world provider" where
  "login_provider = \<lparr>pv_metadata = pv_metadata sample_provider, pv_signing_key = sample_signing_key,
     pv_clients = (\<lambda>cid w. (if cid = ''rp'' then Some public_client else None, w)), pv_codec = pv_codec sample_provider,
     pv_lifetimes = lifetimes_default, pv_token_use_store = (\<lambda>_ _ (l, t, u). (Inr (\<not> u), (l, t, True))),
     pv_caller_managed_pairwise = False, pv_client_assertion_max_age = default_client_assertion_max_age, pv_emit_iss = False\<rparr>"


lemma login_fields [simp]:
  "now_secs login_platform w = (fst (snd w), fst w, saturating_add (fst (snd w)) 1, snd (snd w))" "ct_eq login_platform = (=)"
  "json_from_slice login_platform t = Inr (json_norm (if t = [] then code_text else from_nat (length t - 1)))"
  "json_to_vec login_platform v = Inr (if v = code_text then [] else replicate (Suc (to_nat v)) (CHR ''1''))"
  "jwe_encrypt login_platform k pt = (if length k = 32 then retP (k @ pt) else failP ''key length'')"
  "jws_decode_header login_platform tok = Inr (own_header sample_signing_key)"
  "pv_codec login_provider = \<lparr>tc_keys = [pad32 ''secret'']\<rparr>" "pv_signing_key login_provider = sample_signing_key"
  "pv_lifetimes login_provider = lifetimes_default" "\<not> pv_emit_iss login_provider"
  by (simp_all add: login_platform_def exchange_on_def sample_platform_def login_provider_def sample_codec case_prod_beta)














end
