(* ===== verification/Federation.thy ===== *)
theory Federation
  imports Id_Token
begin

text \<open>
  \<^verbatim>\<open>src/federation.rs\<close>: OpenID Federation.  Entity statements are built and verified, a subject is resolved
  through a trust anchor with the trust chain checked down to the anchor's configured keys, key sets of
  an entity are fetched, the collection endpoint is read, and metadata policies are applied.
\<close>

section \<open>Entity statements\<close>

abbreviation ENTITY_STATEMENT_TYP :: string where "ENTITY_STATEMENT_TYP \<equiv> ''entity-statement+jwt''"
abbreviation RESOLVE_RESPONSE_TYP :: string where "RESOLVE_RESPONSE_TYP \<equiv> ''resolve-response+jwt''"
abbreviation JWK_SET_TYP :: string where "JWK_SET_TYP \<equiv> ''jwk-set+jwt''"

text \<open>The pre-distributed anchors, in the order the \<^verbatim>\<open>HashMap\<close> is iterated in.\<close>

type_synonym trust_anchors = "(string \<times> jwk_set) list"

record resolved_entity =
  re_issuer :: string
  re_subject :: string
  re_metadata :: json
  re_subject_jwks :: jwk_set
  re_exp :: "u64 option"

definition claim_secs :: "json \<Rightarrow> u64 option" where
  "claim_secs v = (case as_u64 v of Some n \<Rightarrow> Some n | None \<Rightarrow> as_f64_u64 v)"

definition urlenc :: "'w platform \<Rightarrow> string \<Rightarrow> string" where
  "urlenc P s = urlencode_bytes P s"

definition build_entity_configuration ::
    "'w platform \<Rightarrow> signing_key \<Rightarrow> string \<Rightarrow> jwk_set \<Rightarrow> string list \<Rightarrow> json \<Rightarrow> json list \<Rightarrow> u64 \<Rightarrow>
     ('w, error, string) prog" where
  "build_entity_configuration P key entity_id public_jwks authority_hints metadata trust_marks lifetime =
     bindP (effP (now_secs P)) (\<lambda>now.
     bindP (liftR (map_err Json (jwk_set_to_value P public_jwks))) (\<lambda>jwks.
     let extra = bt_insert ''jwks'' jwks [];
         extra = (if authority_hints \<noteq> [] then bt_insert ''authority_hints'' (JArray (List.map JString authority_hints)) extra
                  else extra);
         extra = bt_insert ''metadata'' metadata extra;
         extra = (if trust_marks \<noteq> [] then bt_insert ''trust_marks'' (JArray trust_marks) extra else extra)
     in jwt_sign P key (claims_default\<lparr>c_iss := Some entity_id, c_sub := Some entity_id,
          c_iat := Some (date_of_secs now), c_exp := Some (date_of_secs (now + lifetime)), c_extra := extra\<rparr>)
          (Some ENTITY_STATEMENT_TYP)))"

text \<open>An \<^verbatim>\<open>EntityStatement\<close> is its claims.\<close>

type_synonym entity_statement = json

definition es_iss :: "entity_statement \<Rightarrow> string option" where
  "es_iss s = Option.bind (json_get s ''iss'') as_str"

definition es_sub :: "entity_statement \<Rightarrow> string option" where
  "es_sub s = Option.bind (json_get s ''sub'') as_str"

definition es_jwks :: "'w platform \<Rightarrow> entity_statement \<Rightarrow> (error, jwk_set) result" where
  "es_jwks P s =
     res_bind (ok_or (json_get s ''jwks'') (BadRequest ''entity statement has no jwks'')) (\<lambda>jwks.
     map_err Json (jwk_set_from_value P jwks))"

definition es_metadata :: "entity_statement \<Rightarrow> string \<Rightarrow> json option" where
  "es_metadata s kind = Option.bind (json_get s ''metadata'') (\<lambda>m. json_get m kind)"

definition es_authority_hints :: "entity_statement \<Rightarrow> string list" where
  "es_authority_hints s =
     (case Option.bind (json_get s ''authority_hints'') as_array of Some a \<Rightarrow> List.map_filter as_str a | None \<Rightarrow> [])"

definition decode_unverified :: "'w platform \<Rightarrow> string \<Rightarrow> (error, entity_statement) result" where
  "decode_unverified P token =
     res_bind (peek_claims_unverified P token) (\<lambda>claims. map_err Json (claims_to_value P claims))"

definition verify_typed :: "'w platform \<Rightarrow> string \<Rightarrow> jwk_set \<Rightarrow> string \<Rightarrow> ('w, error, entity_statement) prog" where
  "verify_typed P token jwks t =
     bindP (verify_with_jwks P jwks token ((validation_new P)\<lparr>v_typ := Some t, v_require_exp := True\<rparr>)) (\<lambda>claims.
     liftR (map_err Json (claims_to_value P claims)))"

definition verify_statement :: "'w platform \<Rightarrow> string \<Rightarrow> jwk_set \<Rightarrow> ('w, error, entity_statement) prog" where
  "verify_statement P token jwks = verify_typed P token jwks ENTITY_STATEMENT_TYP"

definition verify_self_signed :: "'w platform \<Rightarrow> string \<Rightarrow> ('w, error, entity_statement) prog" where
  "verify_self_signed P token =
     bindP (liftR (decode_unverified P token)) (\<lambda>unverified.
     guardP (es_iss unverified = es_sub unverified)
       (Authn ''entity configuration is not self-issued (iss != sub)'') (
     bindP (liftR (es_jwks P unverified)) (\<lambda>jwks.
     verify_statement P token jwks)))"

definition fetch_entity_configuration :: "'w platform \<Rightarrow> 'w http_client \<Rightarrow> string \<Rightarrow> ('w, error, string) prog" where
  "fetch_entity_configuration P http entity_id =
     (let url = trim_end_matches (CHR ''/'') entity_id @ ''/.well-known/openid-federation'' in
      bindP (hc_get http url) (\<lambda>resp.
      guardP (hf_status resp = 200)
        (upstream_error P Metadata
          (''entity config fetch '' @ display_safe url @ '' returned '' @ usize_str (hf_status resp)) resp) (
      retP (fetch_text resp))))"

section \<open>Trust chains\<close>

text \<open>\<^verbatim>\<open>iter().map(f).collect::<Result<_>>()\<close>.\<close>

fun collect_results :: "('a \<Rightarrow> ('e, 'b) result) \<Rightarrow> 'a list \<Rightarrow> ('e, 'b list) result" where
  "collect_results f [] = Inr []"
| "collect_results f (x # xs) = res_bind (f x) (\<lambda>y. res_bind (collect_results f xs) (\<lambda>ys. Inr (y # ys)))"

definition validate_statement_claims :: "'w platform \<Rightarrow> entity_statement \<Rightarrow> string \<Rightarrow> ('w, error, unit) prog" where
  "validate_statement_claims P stmt label =
     guardP (es_iss stmt \<notin> {None, Some []} \<and> es_sub stmt \<notin> {None, Some []}) (Authn (label @ '' missing iss/sub'')) (
     bindP (liftR (ok_or (Option.bind (json_get stmt ''iat'') claim_secs) (Authn (label @ '' missing iat'')))) (\<lambda>iat.
     bindP (liftR (ok_or (Option.bind (json_get stmt ''exp'') claim_secs) (Authn (label @ '' missing exp'')))) (\<lambda>exp.
     bindP (effP (now_secs P)) (\<lambda>now.
     guardP (iat \<le> now) (Authn (label @ '' iat is in the future'')) (
     guardP (now < exp) (Authn (label @ '' has expired'')) (
     retP ()))))))"

definition chain_label :: "nat \<Rightarrow> string" where
  "chain_label idx = ''trust_chain['' @ usize_str idx @ '']''"

fun check_statements :: "'w platform \<Rightarrow> nat \<Rightarrow> entity_statement list \<Rightarrow> ('w, error, unit) prog" where
  "check_statements P idx [] = retP ()"
| "check_statements P idx (s # ss) =
     bindP (validate_statement_claims P s (chain_label idx)) (\<lambda>_. check_statements P (Suc idx) ss)"

fun check_links :: "nat \<Rightarrow> entity_statement list \<Rightarrow> (error, unit) result" where
  "check_links idx (s # s' # ss) =
     res_bind (ensure (es_iss s = es_sub s')
       (Authn (chain_label idx @ '' issuer does not match '' @ chain_label (Suc idx) @ '' subject''))) (\<lambda>_.
     check_links (Suc idx) (s' # ss))"
| "check_links idx _ = Inr ()"

fun check_signatures :: "'w platform \<Rightarrow> nat \<Rightarrow> (string \<times> entity_statement) list \<Rightarrow> ('w, error, unit) prog" where
  "check_signatures P idx ((token, _) # (token', s') # ss) =
     bindP (liftR (es_jwks P s')) (\<lambda>signer_jwks.
     bindP (mapErrP (\<lambda>e. Authn (chain_label idx @ '' signature failed against '' @ chain_label (Suc idx) @ '' keys: ''
         @ error_to_string e))
       (verify_statement P token signer_jwks)) (\<lambda>_.
     check_signatures P (Suc idx) ((token', s') # ss)))"
| "check_signatures P idx _ = retP ()"

definition is_about :: "entity_statement \<Rightarrow> string \<Rightarrow> bool" where
  "is_about s e \<longleftrightarrow> es_iss s = Some e \<and> es_sub s = Some e"

definition validate_trust_chain ::
    "'w platform \<Rightarrow> json list \<Rightarrow> string \<Rightarrow> string \<Rightarrow> jwk_set \<Rightarrow> ('w, error, entity_statement) prog" where
  "validate_trust_chain P chain sub ta_id ta_keys =
     bindP (liftR (ok_or (those (List.map as_str chain))
       (Authn ''resolve response trust_chain contains a non-string''))) (\<lambda>tokens.
     guardP (tokens \<noteq> []) (Authn ''resolve response trust_chain is empty'') (
     bindP (liftR (collect_results (decode_unverified P) tokens)) (\<lambda>unverified.
     bindP (check_statements P 0 unverified) (\<lambda>_.
     guardP (is_about (hd unverified) sub)
       (Authn ''resolve response trust_chain does not start with the subject entity configuration'') (
     guardP (is_about (last unverified) ta_id)
       (Authn ''resolve response trust_chain does not end with the selected trust anchor'') (
     bindP (liftR (check_links 0 unverified)) (\<lambda>_.
     bindP (verify_self_signed P (hd tokens)) (\<lambda>subject_ec.
     bindP (check_signatures P 0 (zip tokens unverified)) (\<lambda>_.
     bindP (verify_statement P (last tokens) ta_keys) (\<lambda>ta_ec.
     bindP (verify_self_signed P (last tokens)) (\<lambda>_.
     guardP (is_about ta_ec ta_id) (Authn ''resolve response trust_chain trust anchor mismatch'') (
     retP subject_ec))))))))))))"

definition extract_resolved_entity ::
    "'w platform \<Rightarrow> entity_statement \<Rightarrow> string \<Rightarrow> string \<Rightarrow> jwk_set \<Rightarrow> ('w, error, resolved_entity) prog" where
  "extract_resolved_entity P resolved ta_id sub ta_keys =
     guardP (es_iss resolved = Some ta_id) (Authn ''resolve response issuer mismatch'') (
     guardP (es_sub resolved = Some sub) (Authn ''resolve response sub mismatch'') (
     bindP (liftR (ok_or (Option.bind (json_get resolved ''trust_chain'') as_array)
       (Authn ''resolve response has no trust_chain''))) (\<lambda>chain.
     bindP (validate_trust_chain P chain sub ta_id ta_keys) (\<lambda>subject_ec.
     bindP (liftR (ok_or (json_get resolved ''metadata'') (Authn ''resolve response has no metadata''))) (\<lambda>metadata.
     bindP (liftR (es_jwks P subject_ec)) (\<lambda>jwks.
     retP \<lparr>re_issuer = ta_id, re_subject = sub, re_metadata = metadata, re_subject_jwks = jwks,
       re_exp = Option.bind (json_get resolved ''exp'') claim_secs\<rparr>))))))"

definition resolve_url :: "'w platform \<Rightarrow> string \<Rightarrow> string \<Rightarrow> string \<Rightarrow> string" where
  "resolve_url P resolve_ep sub ta_id =
     resolve_ep @ (if CHR ''?'' \<in> set resolve_ep then ''&'' else ''?'') @ ''sub='' @ urlenc P sub
       @ ''&trust_anchor='' @ urlenc P ta_id"

definition resolve_one ::
    "'w platform \<Rightarrow> 'w http_client \<Rightarrow> string \<Rightarrow> string \<Rightarrow> jwk_set \<Rightarrow> ('w, error, resolved_entity) prog" where
  "resolve_one P http sub ta_id ta_keys =
     bindP (fetch_entity_configuration P http ta_id) (\<lambda>ec_jwt.
     bindP (verify_statement P ec_jwt ta_keys) (\<lambda>ec.
     bindP (verify_self_signed P ec_jwt) (\<lambda>self_issued.
     guardP (is_about ec ta_id)
       (Authn (''trust anchor '' @ display_safe ta_id @ '' entity configuration is not issued for the configured entity id'')) (
     guardP (is_about self_issued ta_id)
       (Authn (''trust anchor '' @ display_safe ta_id @ '' entity configuration is not self-issued'')) (
     bindP (liftR (ok_or
         (Option.bind (es_metadata ec ''federation_entity'') (\<lambda>m.
          Option.bind (json_get m ''federation_resolve_endpoint'') as_str))
         (Internal (''trust anchor '' @ display_safe ta_id @ '' has no federation_resolve_endpoint'')))) (\<lambda>resolve_ep.
     bindP (hc_get http (resolve_url P resolve_ep sub ta_id)) (\<lambda>resp.
     guardP (hf_status resp = 200)
       (upstream_error P Metadata
         (''resolve endpoint returned '' @ usize_str (hf_status resp) @ '' for '' @ display_safe sub) resp) (
     bindP (verify_typed P (fetch_text resp) ta_keys RESOLVE_RESPONSE_TYP) (\<lambda>resolved.
     extract_resolved_entity P resolved ta_id sub ta_keys)))))))))"

text \<open>The loop over the anchors; \<open>last_err\<close> is the error of the last one that failed.\<close>

fun resolve_anchors ::
    "'w platform \<Rightarrow> 'w http_client \<Rightarrow> string \<Rightarrow> error option \<Rightarrow> trust_anchors \<Rightarrow> ('w, error, resolved_entity) prog" where
  "resolve_anchors P http sub last_err [] w =
     (Inl (case last_err of Some e \<Rightarrow> e | None \<Rightarrow> Authn ''no trust anchors configured''), w)"
| "resolve_anchors P http sub last_err ((ta_id, ta_keys) # r) w =
     (case resolve_one P http sub ta_id ta_keys w of
        (Inr e, w') \<Rightarrow> (Inr e, w')
      | (Inl e, w') \<Rightarrow> resolve_anchors P http sub (Some e) r w')"

definition resolve_via_trust_anchors ::
    "'w platform \<Rightarrow> 'w http_client \<Rightarrow> string \<Rightarrow> trust_anchors \<Rightarrow> ('w, error, resolved_entity) prog" where
  "resolve_via_trust_anchors P http sub anchors = resolve_anchors P http sub None anchors"

section \<open>Key sets of an entity\<close>

definition fetch_signed_jwks ::
    "'w platform \<Rightarrow> 'w http_client \<Rightarrow> string \<Rightarrow> string \<Rightarrow> jwk_set \<Rightarrow> ('w, error, jwk_set) prog" where
  "fetch_signed_jwks P http signed_jwks_uri subject_entity_id subject_fed_jwks =
     bindP (liftR (validate_service_endpoint_for_issuer P ''signed_jwks_uri'' signed_jwks_uri subject_entity_id)) (\<lambda>_.
     bindP (hc_get http signed_jwks_uri) (\<lambda>resp.
     guardP (hf_status resp = 200)
       (upstream_error P Metadata (''signed_jwks_uri fetch failed ('' @ usize_str (hf_status resp) @ '')'') resp) (
     guardP (case hf_content_type resp of
               Some ct \<Rightarrow> strip_prefix ''application/jwk-set+jwt'' ct \<noteq> None | None \<Rightarrow> True)
       (Authn (''signed_jwks_uri returned unexpected content type ''
         @ display_safe (case hf_content_type resp of Some ct \<Rightarrow> ct | None \<Rightarrow> []))) (
     bindP (verify_with_jwks P subject_fed_jwks (fetch_text resp) ((validation_new P)\<lparr>v_typ := Some JWK_SET_TYP\<rparr>)) (\<lambda>claims.
     guardP (c_sub claims = Some subject_entity_id) (Authn ''signed_jwks_uri sub mismatch'') (
     guardP (c_iss claims \<noteq> None) (Authn ''signed_jwks_uri response missing iss'') (
     bindP (liftR (ok_or (bt_get (c_extra claims) ''keys'') (Authn ''signed_jwks_uri response has no keys''))) (\<lambda>keys.
     liftR (map_err Json (jwks_from_value P keys))))))))))"

definition entity_metadata_jwks ::
    "'w platform \<Rightarrow> 'w http_client \<Rightarrow> json \<Rightarrow> string \<Rightarrow> jwk_set \<Rightarrow> ('w, error, jwk_set) prog" where
  "entity_metadata_jwks P http metadata subject_entity_id subject_fed_jwks =
     (case json_get metadata ''jwks'' of
        Some jwks \<Rightarrow> liftR (map_err Json (jwk_set_from_value P jwks))
      | None \<Rightarrow>
     (case Option.bind (json_get metadata ''signed_jwks_uri'') as_str of
        Some uri \<Rightarrow> fetch_signed_jwks P http uri subject_entity_id subject_fed_jwks
      | None \<Rightarrow>
     (case Option.bind (json_get metadata ''jwks_uri'') as_str of
        Some uri \<Rightarrow>
          bindP (liftR (validate_service_endpoint_for_issuer P ''jwks_uri'' uri subject_entity_id)) (\<lambda>_.
          bindP (hc_get http uri) (\<lambda>resp.
          guardP (hf_status resp = 200)
            (upstream_error P Metadata (''jwks fetch failed ('' @ usize_str (hf_status resp) @ '')'') resp) (
          liftR (map_err Jose (jwk_set_from_text P (fetch_text resp))))))
      | None \<Rightarrow> failP (Authn ''metadata has neither jwks, signed_jwks_uri, nor jwks_uri''))))"

section \<open>The collection endpoint\<close>

record collection_entity =
  ce_entity_id :: string
  ce_display_name :: string
  ce_logo_uri :: "string option"

definition ui_text :: "json \<Rightarrow> string \<Rightarrow> string \<Rightarrow> string option" where
  "ui_text entity kind name =
     (case Option.bind (json_get entity ''ui_infos'') (\<lambda>u.
           Option.bind (json_get u kind) (\<lambda>m. Option.bind (json_get m name) as_str)) of
        Some s \<Rightarrow> if s \<noteq> [] then Some s else None
      | None \<Rightarrow> None)"

definition advertises :: "string \<Rightarrow> json \<Rightarrow> bool" where
  "advertises entity_type entity =
     (case Option.bind (json_get entity ''entity_types'') as_array of
        Some types \<Rightarrow> list_ex (\<lambda>t. as_str t = Some entity_type) types
      | None \<Rightarrow> False)"

definition collection_entry :: "string \<Rightarrow> json \<Rightarrow> collection_entity option" where
  "collection_entry entity_type entity =
     (case Option.bind (json_get entity ''entity_id'') as_str of
        None \<Rightarrow> None
      | Some entity_id \<Rightarrow>
          if entity_id = [] then None
          else Some \<lparr>ce_entity_id = entity_id,
            ce_display_name =
              (case ui_text entity entity_type ''display_name'' of Some n \<Rightarrow> n
               | None \<Rightarrow> (case ui_text entity ''federation_entity'' ''display_name'' of Some n \<Rightarrow> n | None \<Rightarrow> entity_id)),
            ce_logo_uri =
              (case ui_text entity entity_type ''logo_uri'' of Some l \<Rightarrow> Some l
               | None \<Rightarrow> ui_text entity ''federation_entity'' ''logo_uri'')\<rparr>)"

definition parse_collection :: "json \<Rightarrow> string \<Rightarrow> collection_entity list" where
  "parse_collection body entity_type =
     (case Option.bind (json_get body ''entities'') as_array of
        None \<Rightarrow> []
      | Some entities \<Rightarrow> List.map_filter (collection_entry entity_type) (filter (advertises entity_type) entities))"

definition collection_url :: "'w platform \<Rightarrow> string \<Rightarrow> string \<Rightarrow> string" where
  "collection_url P collection_endpoint entity_type =
     collection_endpoint @ (if CHR ''?'' \<in> set collection_endpoint then ''&'' else ''?'') @ ''entity_type=''
       @ urlenc P entity_type"

definition fetch_collection ::
    "'w platform \<Rightarrow> 'w http_client \<Rightarrow> string \<Rightarrow> string \<Rightarrow> ('w, error, collection_entity list) prog" where
  "fetch_collection P http collection_endpoint entity_type =
     bindP (hc_get http (collection_url P collection_endpoint entity_type)) (\<lambda>resp.
     guardP (hf_status resp = 200)
       (upstream_error P Metadata
         (''collection endpoint '' @ display_safe (collection_url P collection_endpoint entity_type) @ '' returned ''
           @ usize_str (hf_status resp)) resp) (
     bindP (liftR (fetch_value P resp)) (\<lambda>body.
     retP (parse_collection body entity_type))))"

section \<open>What a validated chain is\<close>

text \<open>
  \<open>attested P ks t tok s\<close>: \<^verbatim>\<open>jose-rs\<close> verified the token with the keys \<open>ks\<close> as an unexpired JWT of type
  \<open>t\<close>, and its claims are \<open>s\<close>.  \<open>trust_chain P ta ks tokens e\<close>: the tokens are a chain of trust for the entity
  \<open>e\<close> up to the anchor \<open>ta\<close> with the keys \<open>ks\<close>; each statement is signed with the keys that the next
  one states for its issuer.
\<close>

definition attested :: "'w platform \<Rightarrow> jwk_set \<Rightarrow> string \<Rightarrow> string \<Rightarrow> entity_statement \<Rightarrow> bool" where
  "attested P ks t tok s \<longleftrightarrow>
     (\<exists>v claims w w'. jwt_decode_with_jwkset P ks tok v w = (Inr claims, w') \<and> v_typ v = Some t \<and> v_require_exp v \<and>
        claims_to_value P claims = Inr s)"

inductive trust_chain :: "'w platform \<Rightarrow> string \<Rightarrow> jwk_set \<Rightarrow> string list \<Rightarrow> string \<Rightarrow> bool"
  for P :: "'w platform" and ta :: string and ks :: jwk_set where
  anchor: "decode_unverified P tok = Inr s \<Longrightarrow> es_iss s = Some ta \<Longrightarrow> es_sub s = Some ta \<Longrightarrow>
     attested P ks ENTITY_STATEMENT_TYP tok s' \<Longrightarrow> trust_chain P ta ks [tok] ta"
| link: "trust_chain P ta ks (tok' # toks) i \<Longrightarrow> decode_unverified P tok = Inr s \<Longrightarrow> es_iss s = Some i \<Longrightarrow> es_sub s = Some e \<Longrightarrow>
     decode_unverified P tok' = Inr s' \<Longrightarrow> es_jwks P s' = Inr keys \<Longrightarrow>
     attested P keys ENTITY_STATEMENT_TYP tok s'' \<Longrightarrow> trust_chain P ta ks (tok # tok' # toks) e"

lemma verify_typed_signed:
  assumes "verify_typed P tok ks t w = (Inr s, w')"
  shows "attested P ks t tok s"
proof -
  let ?v = "(validation_new P)\<lparr>v_typ := Some t, v_require_exp := True\<rparr>"
  from assms obtain claims where "jwt_decode_with_jwkset P ks tok ?v w = (Inr claims, w')" "claims_to_value P claims = Inr s"
    by (auto simp: verify_typed_def prog_ok verify_with_jwks_def)
  moreover have "v_typ ?v = Some t" "v_require_exp ?v" by simp_all
  ultimately show ?thesis unfolding attested_def by blast
qed

lemma verify_statement_signed: "verify_statement P tok ks w = (Inr s, w') \<Longrightarrow> attested P ks ENTITY_STATEMENT_TYP tok s"
  unfolding verify_statement_def by (rule verify_typed_signed)

lemma verify_self_signed_ok:
  "verify_self_signed P tok w = (Inr s, w') \<Longrightarrow>
     \<exists>u ks. decode_unverified P tok = Inr u \<and> es_iss u = es_sub u \<and> es_jwks P u = Inr ks \<and>
       attested P ks ENTITY_STATEMENT_TYP tok s"
  by (auto simp: verify_self_signed_def prog_ok dest: verify_statement_signed)

lemma collect_results_ok: "collect_results f xs = Inr ys \<longleftrightarrow> list_all2 (\<lambda>x y. f x = Inr y) xs ys"
  by (induction xs arbitrary: ys) (auto simp: res_bind_eq_Inr list_all2_Cons1)

lemma chain_of_checks:
  assumes "list_all2 (\<lambda>t s. decode_unverified P t = Inr s) tokens sts" and "sts \<noteq> []"
    and "check_links idx sts = Inr ()" and "check_signatures P idx (zip tokens sts) w = (Inr (), w')"
    and "is_about (last sts) ta" and "attested P ks ENTITY_STATEMENT_TYP (last tokens) s'"
    and "\<forall>s \<in> set sts. es_sub s \<noteq> None"
  shows "\<exists>e. es_sub (hd sts) = Some e \<and> trust_chain P ta ks tokens e"
  using assms
proof (induction idx sts arbitrary: tokens w rule: check_links.induct)
  case (1 idx s s2 ss)
  from "1.prems"(1) obtain t t2 ts where t: "tokens = t # t2 # ts" "decode_unverified P t = Inr s"
      "decode_unverified P t2 = Inr s2" "list_all2 (\<lambda>t s. decode_unverified P t = Inr s) (t2 # ts) (s2 # ss)"
    by (auto simp: list_all2_Cons2)
  from "1.prems"(3,4) obtain keys x w1 w2 where k: "es_iss s = es_sub s2" "es_jwks P s2 = Inr keys"
      "verify_statement P t keys w1 = (Inr x, w2)" "check_links (Suc idx) (s2 # ss) = Inr ()"
      "check_signatures P (Suc idx) (zip (t2 # ts) (s2 # ss)) w2 = (Inr (), w')"
    by (auto simp: t(1) prog_ok)
  from "1.IH" [OF t(4) _ k(4,5)] "1.prems"(5-7) k(1) obtain i where i: "es_sub s2 = Some i" "trust_chain P ta ks (t2 # ts) i"
    by (auto simp: t(1))
  from "1.prems"(7) obtain e where e: "es_sub s = Some e" by auto
  have "trust_chain P ta ks (t # t2 # ts) e"
    by (rule trust_chain.link [OF i(2) t(2) _ e t(3) k(2) verify_statement_signed [OF k(3)]]) (simp add: k(1) i(1))
  with e show ?case by (simp add: t(1))
next
  case "2_2"
  then show ?case by (auto simp: is_about_def list_all2_Cons2 intro: trust_chain.anchor)
qed simp

lemma check_statements_ok:
  "check_statements P idx sts w = (Inr u, w') \<Longrightarrow> \<forall>s \<in> set sts. es_iss s \<notin> {None, Some []} \<and> es_sub s \<notin> {None, Some []}"
  by (induction sts arbitrary: idx w) (auto simp: prog_ok validate_statement_claims_def)

lemma those_as_str: "those (List.map as_str js) = Some ts \<longleftrightarrow> js = List.map JString ts"
proof (induction js arbitrary: ts)
  case (Cons j js)
  show ?case by (cases j) (auto simp: Cons.IH map_eq_Cons_conv Cons_eq_map_conv split: option.splits)
qed auto

lemma validate_trust_chain_ok:
  assumes "validate_trust_chain P js sub ta ks w = (Inr s, w')"
  shows "\<exists>tokens u own. js = List.map JString tokens \<and> tokens \<noteq> [] \<and> trust_chain P ta ks tokens sub \<and>
    decode_unverified P (hd tokens) = Inr u \<and> is_about u sub \<and> es_jwks P u = Inr own \<and>
    attested P own ENTITY_STATEMENT_TYP (hd tokens) s"
proof -
  from assms obtain tokens sts ta_ec w1 w2 w3 w4 w5 where f: "js = List.map JString tokens" "tokens \<noteq> []"
      "collect_results (decode_unverified P) tokens = Inr sts" "check_statements P 0 sts w = (Inr (), w1)"
      "is_about (hd sts) sub" "is_about (last sts) ta" "check_links 0 sts = Inr ()"
      "verify_self_signed P (hd tokens) w1 = (Inr s, w2)" "check_signatures P 0 (zip tokens sts) w2 = (Inr (), w3)"
      "verify_statement P (last tokens) ks w3 = (Inr ta_ec, w4)"
    by (auto simp: validate_trust_chain_def prog_ok those_as_str)
  have d: "list_all2 (\<lambda>t s. decode_unverified P t = Inr s) tokens sts" using f(3) by (simp add: collect_results_ok)
  then have ne: "sts \<noteq> []" using f(2) by auto
  have "\<forall>s \<in> set sts. es_sub s \<noteq> None" using check_statements_ok [OF f(4)] by auto
  then obtain e where "es_sub (hd sts) = Some e" "trust_chain P ta ks tokens e"
    using chain_of_checks [OF d ne f(7,9,6) verify_statement_signed [OF f(10)]] by blast
  with f(5) have c: "trust_chain P ta ks tokens sub" by (simp add: is_about_def)
  have "decode_unverified P (hd tokens) = Inr (hd sts)" using d f(2) ne by (cases tokens; cases sts) auto
  with verify_self_signed_ok [OF f(8)] f(5) obtain own where
    "es_jwks P (hd sts) = Inr own" "attested P own ENTITY_STATEMENT_TYP (hd tokens) s"
    by auto
  with c f(1,2,5) \<open>decode_unverified P (hd tokens) = Inr (hd sts)\<close> show ?thesis by blast
qed

text \<open>What a resolved entity rests on, for one anchor.\<close>

definition resolved_by :: "'w platform \<Rightarrow> string \<Rightarrow> jwk_set \<Rightarrow> string \<Rightarrow> resolved_entity \<Rightarrow> bool" where
  "resolved_by P ta ks sub r \<longleftrightarrow>
     re_issuer r = ta \<and> re_subject r = sub \<and>
     (\<exists>answer resolved tokens u own ec.
        attested P ks RESOLVE_RESPONSE_TYP answer resolved \<and> es_iss resolved = Some ta \<and> es_sub resolved = Some sub \<and>
        json_get resolved ''metadata'' = Some (re_metadata r) \<and>
        json_get resolved ''trust_chain'' = Some (JArray (List.map JString tokens)) \<and> trust_chain P ta ks tokens sub \<and>
        decode_unverified P (hd tokens) = Inr u \<and> is_about u sub \<and> es_jwks P u = Inr own \<and>
        attested P own ENTITY_STATEMENT_TYP (hd tokens) ec \<and> es_jwks P ec = Inr (re_subject_jwks r))"

lemma extract_resolved_entity_ok:
  assumes "extract_resolved_entity P resolved ta sub ks w = (Inr r, w')" and "attested P ks RESOLVE_RESPONSE_TYP answer resolved"
  shows "resolved_by P ta ks sub r"
proof -
  from assms(1) obtain js ec where f: "es_iss resolved = Some ta" "es_sub resolved = Some sub"
      "json_get resolved ''trust_chain'' = Some (JArray js)" "validate_trust_chain P js sub ta ks w = (Inr ec, w')"
      "json_get resolved ''metadata'' = Some (re_metadata r)" "es_jwks P ec = Inr (re_subject_jwks r)"
      "re_issuer r = ta" "re_subject r = sub"
    by (auto simp: extract_resolved_entity_def prog_ok bind_eq_Some_conv elim!: as_array.elims)
  from validate_trust_chain_ok [OF f(4)] show ?thesis
    unfolding resolved_by_def using f assms(2) by blast
qed

lemma resolve_one_ok: "resolve_one P http sub ta ks w = (Inr r, w') \<Longrightarrow> resolved_by P ta ks sub r"
  by (auto simp: resolve_one_def prog_ok intro: extract_resolved_entity_ok verify_typed_signed)

lemma resolve_anchors_ok:
  "resolve_anchors P http sub last_err anchors w = (Inr r, w') \<Longrightarrow> \<exists>(ta, ks) \<in> set anchors. resolved_by P ta ks sub r"
proof (induction anchors arbitrary: last_err w)
  case (Cons a anchors)
  obtain ta ks where a: "a = (ta, ks)" by fastforce
  with Cons.prems consider "resolve_one P http sub ta ks w = (Inr r, w')"
    | e w1 where "resolve_anchors P http sub (Some e) anchors w1 = (Inr r, w')"
    by (auto split: prod.splits sum.splits)
  then show ?case by cases (auto simp: a dest: resolve_one_ok Cons.IH)
qed simp

text \<open>
  C10.  An entity is resolved only through a configured trust anchor: the answer is an unexpired
  resolve response verified with the anchor's pre-distributed keys, from that anchor and about this subject;
  its trust chain leads, each statement signed with the keys the next one states for its issuer, from
  the subject's own configuration to the anchor's, which the pre-distributed keys verify; the metadata
  is that of the answer and the keys are those of the subject's self-signed configuration.
\<close>

theorem resolution_rooted_in_anchor:
  assumes "resolve_via_trust_anchors P http sub anchors w = (Inr r, w')"
  shows "\<exists>(ta, ks) \<in> set anchors. re_issuer r = ta \<and> re_subject r = sub \<and>
     (\<exists>answer resolved tokens u own ec.
        attested P ks RESOLVE_RESPONSE_TYP answer resolved \<and> es_iss resolved = Some ta \<and> es_sub resolved = Some sub \<and>
        json_get resolved ''metadata'' = Some (re_metadata r) \<and>
        json_get resolved ''trust_chain'' = Some (JArray (List.map JString tokens)) \<and> trust_chain P ta ks tokens sub \<and>
        decode_unverified P (hd tokens) = Inr u \<and> is_about u sub \<and> es_jwks P u = Inr own \<and>
        attested P own ENTITY_STATEMENT_TYP (hd tokens) ec \<and> es_jwks P ec = Inr (re_subject_jwks r))"
  using resolve_anchors_ok [OF assms [unfolded resolve_via_trust_anchors_def]] unfolding resolved_by_def .

text \<open>
  A chain of trust is what it claims to be: its last statement is verified by the keys of the
  anchor, every other one by keys that a later statement of the chain carries, and if the keys
  of the anchor verify nothing there is no chain at all, however the other statements are signed.
\<close>

theorem trust_chain_anchored:
  assumes "trust_chain P ta ks tokens e"
  shows "tokens \<noteq> [] \<and> (\<exists>s. attested P ks ENTITY_STATEMENT_TYP (last tokens) s) \<and>
    (\<forall>i. Suc i < length tokens \<longrightarrow>
       (\<exists>s' keys s. decode_unverified P (tokens ! Suc i) = Inr s' \<and> es_jwks P s' = Inr keys \<and>
          attested P keys ENTITY_STATEMENT_TYP (tokens ! i) s)) \<and>
    (\<exists>s. decode_unverified P (hd tokens) = Inr s \<and> es_sub s = Some e)"
  using assms
proof (induction rule: trust_chain.induct)
  case (link tok' toks i tok s e s' keys s'')
  then show ?case by (auto simp: nth_Cons split: nat.splits)
qed auto

section \<open>Key sets and collections\<close>

interpretation signed_jwks_get: guarded_fetch "\<lambda>(uri, e, ks). fetch_signed_jwks P http uri e ks"
    "\<lambda>(uri, e, _). validate_service_endpoint_for_issuer P ''signed_jwks_uri'' uri e" "\<lambda>(uri, _). hc_get http uri"
  for P :: "'w platform" and http
proof (unfold_locales, goal_cases)
  case (3 i w r w')
  then show ?case by (cases i) (auto simp: fetch_signed_jwks_def prog_ok)
qed (auto simp: fetch_signed_jwks_def bindP_def)

text \<open>
  A signed key set is fetched only from a URI that is safe for the entity, and otherwise nothing is
  sent; the keys returned are those of a JWT of type \<^verbatim>\<open>jwk-set+jwt\<close> verified with the entity's
  federation keys, about that entity and with an issuer.
\<close>

theorem signed_jwks_verified:
  assumes "fetch_signed_jwks P http uri e ks w = (res, w')"
  shows "(\<not> safe_url P e uri \<longrightarrow> isl res \<and> w' = w) \<and>
    (\<forall>keys. res = Inr keys \<longrightarrow>
       (\<exists>resp claims v w1 j. hc_get http uri w = (Inr resp, w1) \<and> hf_status resp = 200 \<and>
          jwt_decode_with_jwkset P ks (fetch_text resp) v w1 = (Inr claims, w') \<and> v_typ v = Some JWK_SET_TYP \<and>
          c_sub claims = Some e \<and> c_iss claims \<noteq> None \<and> bt_get (c_extra claims) ''keys'' = Some j \<and>
          jwks_from_value P j = Inr keys))"
proof (intro conjI impI allI)
  assume "\<not> safe_url P e uri"
  then obtain err where "validate_service_endpoint_for_issuer P ''signed_jwks_uri'' uri e = Inl err"
    by (cases "validate_service_endpoint_for_issuer P ''signed_jwks_uri'' uri e") (auto simp: service_endpoint_safe)
  then show "isl res" "w' = w" using signed_jwks_get.refused [of P "(uri, e, ks)" err http w] assms by auto
next
  fix keys
  let ?v = "(validation_new P)\<lparr>v_typ := Some JWK_SET_TYP\<rparr>"
  assume "res = Inr keys"
  with assms obtain resp claims w1 j where "hc_get http uri w = (Inr resp, w1)" "hf_status resp = 200"
      "jwt_decode_with_jwkset P ks (fetch_text resp) ?v w1 = (Inr claims, w')" "c_sub claims = Some e" "c_iss claims \<noteq> None"
      "bt_get (c_extra claims) ''keys'' = Some j" "jwks_from_value P j = Inr keys"
    by (auto simp: fetch_signed_jwks_def prog_ok verify_with_jwks_def)
  moreover have "v_typ ?v = Some JWK_SET_TYP" by simp
  ultimately show "\<exists>resp claims v w1 j. hc_get http uri w = (Inr resp, w1) \<and> hf_status resp = 200 \<and>
          jwt_decode_with_jwkset P ks (fetch_text resp) v w1 = (Inr claims, w') \<and> v_typ v = Some JWK_SET_TYP \<and>
          c_sub claims = Some e \<and> c_iss claims \<noteq> None \<and> bt_get (c_extra claims) ''keys'' = Some j \<and>
          jwks_from_value P j = Inr keys"
    by blast
qed

lemma ui_text_nonempty: "ui_text entity kind name \<noteq> Some []"
  by (simp add: ui_text_def split: option.splits)

text \<open>
  The entities read from a collection are exactly those that advertise the requested type and have a
  non-empty identifier, in the order of the document; each has a non-empty name to display, its own
  identifier if the document gives none.
\<close>

theorem collection_exact:
  "List.map ce_entity_id (parse_collection (JObject [(''entities'', JArray entities)]) ty) =
     List.map_filter (\<lambda>entity. if advertises ty entity then
         (case json_get entity ''entity_id'' of Some (JString i) \<Rightarrow> if i = [] then None else Some i | _ \<Rightarrow> None)
       else None) entities \<and>
   list_all (\<lambda>e. ce_entity_id e \<noteq> [] \<and> ce_display_name e \<noteq> [] \<and> ce_logo_uri e \<noteq> Some [])
     (parse_collection (JObject [(''entities'', JArray entities)]) ty)"
proof (induction entities)
  case (Cons a entities)
  have "collection_entry ty a = None \<longleftrightarrow>
      (case json_get a ''entity_id'' of Some (JString i) \<Rightarrow> if i = [] then None else Some i | _ \<Rightarrow> None) = None"
    and "\<And>e. collection_entry ty a = Some e \<Longrightarrow>
      (case json_get a ''entity_id'' of Some (JString i) \<Rightarrow> if i = [] then None else Some i | _ \<Rightarrow> None) = Some (ce_entity_id e) \<and>
      ce_entity_id e \<noteq> [] \<and> ce_display_name e \<noteq> [] \<and> ce_logo_uri e \<noteq> Some []"
    using ui_text_nonempty
    by (cases "json_get a ''entity_id''"; auto simp: collection_entry_def split: option.splits json.splits if_splits)+
  with Cons show ?case
    by (cases "collection_entry ty a") (auto simp: parse_collection_def map_filter_simps)
qed (simp add: parse_collection_def map_filter_simps)

section \<open>A concrete federation\<close>

text \<open>An anchor and a leaf below it: the four documents by name, the key sets they carry by name.\<close>

definition leaf_doc :: "string \<Rightarrow> (string \<times> json) list \<Rightarrow> json" where
  "leaf_doc iss rest = JObject ([(''iss'', JString iss), (''sub'', JString ''https://leaf''), (''iat'', JPosInt 0),
     (''exp'', JPosInt 100)] @ rest)"

fun fed_doc :: "string \<Rightarrow> json" where
  "fed_doc part =
     (if part = ''t'' then JObject [(''iss'', JString ''https://ta''), (''sub'', JString ''https://ta''), (''iat'', JPosInt 0),
        (''exp'', JPosInt 100), (''jwks'', JString ''ta''),
        (''metadata'', JObject [(''federation_entity'', JObject [(''federation_resolve_endpoint'', JString ''https://ta/r'')])])]
      else if part = ''s'' then leaf_doc ''https://ta'' [(''jwks'', JString ''leaf'')]
      else if part = ''l'' then leaf_doc ''https://leaf'' [(''jwks'', JString ''leaf'')]
      else leaf_doc ''https://ta'' [(''metadata'', JNull), (''trust_chain'', JArray [JString ''.l.'', JString ''.s.'', JString ''.t.''])])"

definition fed_key :: "string \<Rightarrow> jwk" where
  "fed_key n = op_key\<lparr>jwk_kid := Some n\<rparr>"

definition fed_claims :: "string \<Rightarrow> claims" where
  "fed_claims part = claims_default\<lparr>c_jti := Some part\<rparr>"

definition fed_platform :: "unit platform" where
  "fed_platform = (sample_platform still [])
     \<lparr>jose_b64url_decode := Inr, claims_from_slice := (\<lambda>s. Inr (fed_claims s)),
      claims_to_value := (\<lambda>c. case c_jti c of Some p \<Rightarrow> Inr (fed_doc p) | None \<Rightarrow> Inl ''claims''),
      jwk_set_from_value := (\<lambda>j. case as_str j of Some n \<Rightarrow> Inr [fed_key n] | None \<Rightarrow> Inl ''jwks''),
      jwt_decode_with_jwkset := (\<lambda>ks tok v.
        if (ks = [fed_key ''ta''] \<and> tok \<in> {''.t.'', ''.s.'', ''.r.''}) \<or> (ks = [fed_key ''leaf''] \<and> tok = ''.l.'')
        then retP (fed_claims [tok ! 1]) else failP ''signature'')\<rparr>"

definition fed_http :: "unit http_client" where
  "fed_http = \<lparr>hc_get = (\<lambda>url. retP (fetch_response_new 200
       (if url = ''https://ta/.well-known/openid-federation'' then ''.t.'' else ''.r.''))),
     hc_post_form = (\<lambda>_ _ _. failP (Internal [])), hc_get_with_headers = default_get_with_headers\<rparr>"

lemma fed_documents:
  "decode_unverified fed_platform ''.t.'' = Inr (fed_doc ''t'')" "decode_unverified fed_platform ''.s.'' = Inr (fed_doc ''s'')"
  "decode_unverified fed_platform ''.l.'' = Inr (fed_doc ''l'')"
  "claims_to_value fed_platform (fed_claims p) = Inr (fed_doc p)"
  by (simp_all add: decode_unverified_def peek_claims_unverified_def splitn3_def fed_platform_def fed_claims_def del: fed_doc.simps)

definition fed_resolved :: resolved_entity where
  "fed_resolved = \<lparr>re_issuer = ''https://ta'', re_subject = ''https://leaf'', re_metadata = JNull,
     re_subject_jwks = [fed_key ''leaf''], re_exp = Some 100\<rparr>"

lemma fed_verify:
  "verify_typed fed_platform ''.t.'' [fed_key ''ta''] t () = (Inr (fed_doc ''t''), ())"
  "verify_typed fed_platform ''.s.'' [fed_key ''ta''] t () = (Inr (fed_doc ''s''), ())"
  "verify_typed fed_platform ''.r.'' [fed_key ''ta''] t () = (Inr (fed_doc ''r''), ())"
  "verify_typed fed_platform ''.l.'' [fed_key ''leaf''] t () = (Inr (fed_doc ''l''), ())"
  by (simp_all add: verify_typed_def verify_with_jwks_def fed_documents bindP_def mapErrP_def del: fed_doc.simps)
    (simp_all add: fed_platform_def fed_documents [unfolded fed_platform_def] fed_claims_def)

lemma fed_keys:
  "es_jwks fed_platform (fed_doc ''t'') = Inr [fed_key ''ta'']" "es_jwks fed_platform (fed_doc ''s'') = Inr [fed_key ''leaf'']"
  "es_jwks fed_platform (fed_doc ''l'') = Inr [fed_key ''leaf'']"
  by (simp_all add: es_jwks_def fed_platform_def leaf_doc_def)

lemma fed_names:
  "is_about (fed_doc ''t'') ''https://ta''" "is_about (fed_doc ''l'') ''https://leaf''"
  "es_iss (fed_doc ''s'') = Some ''https://ta''" "es_sub (fed_doc ''s'') = Some ''https://leaf''"
  "es_iss (fed_doc ''r'') = Some ''https://ta''" "es_sub (fed_doc ''r'') = Some ''https://leaf''"
  by (simp_all add: is_about_def es_iss_def es_sub_def leaf_doc_def)

lemma fed_self_signed:
  "verify_self_signed fed_platform ''.t.'' () = (Inr (fed_doc ''t''), ())"
  "verify_self_signed fed_platform ''.l.'' () = (Inr (fed_doc ''l''), ())"
  using fed_names(1,2)
  by (simp_all add: verify_self_signed_def fed_documents fed_keys verify_statement_def fed_verify is_about_def del: fed_doc.simps)

lemma fed_statements: "check_statements fed_platform 0 [fed_doc ''l'', fed_doc ''s'', fed_doc ''t''] () = (Inr (), ())"
  by (simp add: validate_statement_claims_def es_iss_def es_sub_def leaf_doc_def claim_secs_def bindP_def effP_def)
    (simp add: fed_platform_def sample_platform_def still_def)

lemma fed_chain:
  "validate_trust_chain fed_platform [JString ''.l.'', JString ''.s.'', JString ''.t.''] ''https://leaf'' ''https://ta'' [fed_key ''ta''] () =
     (Inr (fed_doc ''l''), ())"
  using fed_names(1,2)
  by (simp add: validate_trust_chain_def fed_documents bindP_def mapErrP_def fed_statements fed_self_signed fed_keys fed_verify
      verify_statement_def fed_names is_about_def del: fed_doc.simps check_statements.simps)

lemma fed_resolves:
  "resolve_via_trust_anchors fed_platform fed_http ''https://leaf'' [(''https://ta'', [fed_key ''ta''])] () = (Inr fed_resolved, ())"
proof -
  have w: "fetch_entity_configuration fed_platform fed_http ''https://ta'' () = (Inr ''.t.'', ())" by code_simp
  have g: "hc_get fed_http (resolve_url fed_platform ''https://ta/r'' ''https://leaf'' ''https://ta'') () =
      (Inr (fetch_response_new 200 ''.r.''), ())" by code_simp
  have t: "hf_status (fetch_response_new 200 ''.r.'') = 200" "fetch_text (fetch_response_new 200 ''.r.'') = ''.r.''" by code_simp+
  have m: "es_metadata (fed_doc ''t'') ''federation_entity'' =
      Some (JObject [(''federation_resolve_endpoint'', JString ''https://ta/r'')])"
    by (simp add: es_metadata_def)
  have r: "json_get (fed_doc ''r'') ''trust_chain'' = Some (JArray [JString ''.l.'', JString ''.s.'', JString ''.t.''])"
      "json_get (fed_doc ''r'') ''metadata'' = Some JNull" "json_get (fed_doc ''r'') ''exp'' = Some (JPosInt 100)"
    by (simp_all add: leaf_doc_def)
  have "extract_resolved_entity fed_platform (fed_doc ''r'') ''https://ta'' ''https://leaf'' [fed_key ''ta''] () = (Inr fed_resolved, ())"
    by (simp add: extract_resolved_entity_def r fed_chain fed_names fed_keys bindP_def fed_resolved_def claim_secs_def del: fed_doc.simps)
  then have "resolve_one fed_platform fed_http ''https://leaf'' ''https://ta'' [fed_key ''ta''] () = (Inr fed_resolved, ())"
    by (simp add: resolve_one_def w g t m fed_verify fed_self_signed fed_names verify_statement_def bindP_def del: fed_doc.simps)
  then show ?thesis by (simp add: resolve_via_trust_anchors_def)
qed

theorem resolution_rooted_in_anchor_witness:
  "\<exists>tokens. trust_chain fed_platform ''https://ta'' [fed_key ''ta''] tokens ''https://leaf''"
  using resolution_rooted_in_anchor [OF fed_resolves] by auto

theorem trust_chain_anchored_witness:
  "\<exists>s. attested fed_platform [fed_key ''ta''] ENTITY_STATEMENT_TYP ''.t.'' s"
proof -
  have "trust_chain fed_platform ''https://ta'' [fed_key ''ta''] [''.t.''] ''https://ta''"
    by (rule trust_chain.anchor [OF fed_documents(1) _ _ verify_typed_signed [OF fed_verify(1)]])
      (use fed_names(1) in \<open>simp_all add: is_about_def del: fed_doc.simps\<close>)
  from trust_chain_anchored [OF this] show ?thesis by simp
qed

theorem signed_jwks_verified_witness:
  "isl (fst (fetch_signed_jwks fed_platform fed_http ''http://x'' ''https://leaf'' [] ()))"
proof -
  have "\<not> safe_url fed_platform ''https://leaf'' ''http://x''" by (simp add: safe_url_def fed_platform_def sample_platform_def)
  then show ?thesis
    using signed_jwks_verified [of fed_platform fed_http "''http://x''" "''https://leaf''" "[]" "()"] by (metis prod.collapse)
qed

end
