(* ===== verification/Federation_Flow.thy ===== *)
theory Federation_Flow
  imports Federation Released_Claims
begin

text \<open>
  An entity configuration from the entity that builds it to the one that reads it.
\<close>












end
