(* ===== verification/Federation_Requests.thy ===== *)
theory Federation_Requests
  imports Federation
begin

text \<open>
  What a resolution sends.  The requests of a run are read off a log that the HTTP client of the host keeps and
  the crates leave alone.
\<close>

section \<open>Logs\<close>

definition logging :: "('w \<Rightarrow> string list) \<Rightarrow> 'w platform \<Rightarrow> 'w http_client \<Rightarrow> bool" where
  "logging log P http \<longleftrightarrow> (\<forall>url w. log (snd (hc_get http url w)) = log w @ [url]) \<and>
     (\<forall>w. log (snd (now_secs P w)) = log w) \<and> (\<forall>ks t v w. log (snd (jwt_decode_with_jwkset P ks t v w)) = log w)"

lemma silent_crates:
  assumes "logging log P http"
  shows "keeps (\<lambda>w. log w = l) (effP (now_secs P))" and "keeps (\<lambda>w. log w = l) (verify_with_jwks P ks t v)"
  using assms by (auto simp: logging_def keeps_def effP_def verify_with_jwks_def mapErrP_def case_prod_beta)

lemma silent_verify:
  assumes "logging log P http"
  shows "keeps (\<lambda>w. log w = l) (verify_typed P t ks ty)" and "keeps (\<lambda>w. log w = l) (verify_statement P t ks)"
    and "keeps (\<lambda>w. log w = l) (verify_self_signed P t)"
  unfolding verify_self_signed_def verify_statement_def verify_typed_def by (intro keeps_intros silent_crates [OF assms])+

lemma silent_chain:
  assumes "logging log P http"
  shows "keeps (\<lambda>w. log w = l) (extract_resolved_entity P resolved ta sub ks)"
proof -
  note c = silent_crates [OF assms] silent_verify [OF assms]
  have s: "keeps (\<lambda>w. log w = l) (validate_statement_claims P s lbl)" for s lbl
    unfolding validate_statement_claims_def by (intro keeps_intros c)
  have "keeps (\<lambda>w. log w = l) (check_statements P i ss)" for i ss
    by (induction ss arbitrary: i) (simp_all only: check_statements.simps, intro keeps_intros, intro keeps_intros s)
  moreover have "keeps (\<lambda>w. log w = l) (check_signatures P i ts)" for i ts
  proof (induction ts arbitrary: i rule: induct_list012)
    case (3 x y zs)
    then show ?case by (cases x; cases y) (simp only: check_signatures.simps, intro keeps_intros c)
  qed (simp_all add: keeps_def)
  ultimately show ?thesis
    unfolding extract_resolved_entity_def validate_trust_chain_def by (intro keeps_intros c)
qed

section \<open>The requests of a resolution\<close>

definition configuration_url :: "string \<Rightarrow> string" where
  "configuration_url entity = trim_end_matches (CHR ''/'') entity @ ''/.well-known/openid-federation''"

text \<open>The resolve endpoint an anchor states, in a configuration its pre-distributed keys verify.\<close>

definition stated_endpoint :: "'w platform \<Rightarrow> string \<Rightarrow> jwk_set \<Rightarrow> string \<Rightarrow> bool" where
  "stated_endpoint P ta ks ep \<longleftrightarrow> (\<exists>tok ec m. attested P ks ENTITY_STATEMENT_TYP tok ec \<and> is_about ec ta \<and>
     es_metadata ec ''federation_entity'' = Some m \<and> json_get m ''federation_resolve_endpoint'' = Some (JString ep))"

definition asks_anchor :: "'w platform \<Rightarrow> string \<Rightarrow> string \<times> jwk_set \<Rightarrow> string list \<Rightarrow> bool" where
  "asks_anchor P sub = (\<lambda>(ta, ks) us. us = [configuration_url ta] \<or>
     (\<exists>ep. stated_endpoint P ta ks ep \<and> us = [configuration_url ta, resolve_url P ep sub ta]))"

text \<open>\<open>adds log Q m\<close>: whatever \<open>m\<close> answers, it appends a list of requests with \<open>Q\<close> to the log.\<close>

definition adds :: "('w \<Rightarrow> string list) \<Rightarrow> (string list \<Rightarrow> bool) \<Rightarrow> ('w, 'e, 'a) prog \<Rightarrow> bool" where
  "adds log Q m \<longleftrightarrow> (\<forall>w. \<exists>us. log (snd (m w)) = log w @ us \<and> Q us)"

lemma adds_silent: "(\<And>l. keeps (\<lambda>w. log w = l) m) \<Longrightarrow> Q [] \<Longrightarrow> adds log Q m"
  unfolding adds_def keeps_def by (intro allI exI [of _ "[]"]) simp

lemma adds_bind:
  assumes "\<And>l. keeps (\<lambda>w. log w = l) m" and "Q []" and "\<And>x w w'. m w = (Inr x, w') \<Longrightarrow> adds log Q (f x)"
  shows "adds log Q (bindP m f)"
  unfolding adds_def
proof
  fix w
  obtain r w1 where m: "m w = (r, w1)" by fastforce
  have l: "log w1 = log w" using assms(1) [of "log w"] m by (auto simp: keeps_def)
  show "\<exists>us. log (snd (bindP m f w)) = log w @ us \<and> Q us"
  proof (cases r)
    case (Inr x)
    from assms(3) [OF m [unfolded Inr]] obtain us where "log (snd (f x w1)) = log w1 @ us" "Q us" unfolding adds_def by blast
    then show ?thesis using m l Inr by (simp add: bindP_def)
  qed (use assms(2) m l in \<open>simp add: bindP_def\<close>)
qed

lemma adds_guard: "Q [] \<Longrightarrow> (b \<Longrightarrow> adds log Q m) \<Longrightarrow> adds log Q (guardP b e m)"
  by (auto simp: guardP_def adds_def)

lemma adds_then:
  assumes "\<And>w. log (snd (m w)) = log w @ [url]" and "Q [url]" and "\<And>x. adds log (\<lambda>us. Q (url # us)) (f x)"
  shows "adds log Q (bindP m f)"
  unfolding adds_def
proof
  fix w
  obtain r w1 where m: "m w = (r, w1)" by fastforce
  have l: "log w1 = log w @ [url]" using assms(1) [of w] m by simp
  show "\<exists>us. log (snd (bindP m f w)) = log w @ us \<and> Q us"
  proof (cases r)
    case (Inr x)
    from assms(3) [of x] obtain us where "log (snd (f x w1)) = log w1 @ us" "Q (url # us)" unfolding adds_def by blast
    then show ?thesis using m l Inr by (simp add: bindP_def)
  qed (use assms(2) m l in \<open>simp add: bindP_def\<close>)
qed

lemma fetch_adds: "logging log P http \<Longrightarrow> log (snd (fetch_entity_configuration P http ta w)) = log w @ [configuration_url ta]"
  by (auto simp: fetch_entity_configuration_def Let_def configuration_url_def logging_def bindP_def guardP_def retP_def failP_def
      split: prod.splits sum.splits) (metis snd_conv)+

lemma get_adds: "logging log P http \<Longrightarrow> log (snd (hc_get http url w)) = log w @ [url]"
  by (simp add: logging_def)

lemma resolve_one_asks:
  assumes l: "logging log P http"
  shows "adds log (asks_anchor P sub (ta, ks)) (resolve_one P http sub ta ks)"
  unfolding resolve_one_def
proof (rule adds_then [where log = log], rule fetch_adds [OF l], goal_cases)
  case (2 tok)
  have q: "asks_anchor P sub (ta, ks) [configuration_url ta]" by (simp add: asks_anchor_def)
  show ?case
  proof (rule adds_bind, rule silent_verify [OF l], rule q, rule adds_bind, rule silent_verify [OF l], rule q,
      rule adds_guard, rule q, rule adds_guard, rule q, rule adds_bind, rule keeps_pure, rule q,
      rule adds_then [where log = log], rule get_adds [OF l], goal_cases)
    case (1 ec w1 w2 self w3 w4 ep w5 w6)
    then show ?case using verify_statement_signed [OF 1(1)]
      by (fastforce simp: asks_anchor_def stated_endpoint_def liftR_ok result_simps bind_eq_Some_conv elim!: as_str.elims)
  next
    case (2 ec w1 w2 self w3 w4 ep w5 w6 resp)
    then have "asks_anchor P sub (ta, ks) [configuration_url ta, resolve_url P ep sub ta]" using verify_statement_signed [OF 2(1)]
      by (fastforce simp: asks_anchor_def stated_endpoint_def liftR_ok result_simps bind_eq_Some_conv elim!: as_str.elims)
    then show ?case
      by (intro adds_silent keeps_intros silent_verify [OF l] silent_chain [OF l])
  qed
qed (simp add: asks_anchor_def)

text \<open>
  C11.  A resolution ends after at most two requests per configured anchor, whatever the documents it is given say.  The
  anchors are asked in their order, until one answers; each is asked for its configuration, at the
  well-known address of its identifier, and then at most for the resolution of the subject, at the endpoint
  that a configuration verified with its pre-distributed keys states.  No address in a resolve response, a
  trust chain or an unverified statement is ever requested.
\<close>

theorem resolution_requests:
  assumes "logging log P http" and "resolve_via_trust_anchors P http sub anchors w = (res, w')"
  shows "\<exists>n us. n \<le> length anchors \<and> log w' = log w @ concat us \<and> list_all2 (asks_anchor P sub) (take n anchors) us \<and>
    (n < length anchors \<longrightarrow> (\<exists>r. res = Inr r)) \<and> length (concat us) \<le> 2 * n"
proof -
  have "\<exists>n us. n \<le> length anchors \<and> log w' = log w @ concat us \<and> list_all2 (asks_anchor P sub) (take n anchors) us \<and>
      (n < length anchors \<longrightarrow> (\<exists>r. res = Inr r)) \<and> length (concat us) \<le> 2 * n"
    if "resolve_anchors P http sub e anchors w = (res, w')" for e w
    using that
  proof (induction anchors arbitrary: e w)
    case Nil
    then show ?case by (intro exI [of _ 0] exI [of _ "[]"]) simp
  next
    case (Cons a anchors)
    obtain ta ks where a: "a = (ta, ks)" by fastforce
    obtain r1 w1 where r: "resolve_one P http sub ta ks w = (r1, w1)" by fastforce
    obtain u where u: "log w1 = log w @ u" "asks_anchor P sub a u"
      using resolve_one_asks [OF assms(1), of sub ta ks] r unfolding adds_def a by (metis snd_conv)
    then have l: "length u \<le> 2" by (auto simp: asks_anchor_def split: prod.splits)
    show ?case
    proof (cases r1)
      case (Inl e1)
      with Cons.prems have "resolve_anchors P http sub (Some e1) anchors w1 = (res, w')" by (simp add: a r)
      from Cons.IH [OF this] obtain n us where "n \<le> length anchors" "log w' = log w1 @ concat us"
          "list_all2 (asks_anchor P sub) (take n anchors) us" "n < length anchors \<longrightarrow> (\<exists>r. res = Inr r)" "length (concat us) \<le> 2 * n"
        by blast
      with u l show ?thesis by (intro exI [of _ "Suc n"] exI [of _ "u # us"]) simp
    next
      case (Inr x)
      with Cons.prems have "w' = w1" "res = Inr x" by (simp_all add: a r)
      with u l show ?thesis by (intro exI [of _ 1] exI [of _ "[u]"]) simp
    qed
  qed
  then show ?thesis using assms(2) unfolding resolve_via_trust_anchors_def by blast
qed

text \<open>Two anchors whose configurations nothing verifies: each is asked once.\<close>

definition logging_http :: "string list http_client" where
  "logging_http = \<lparr>hc_get = (\<lambda>url l. (Inr (fetch_response_new 200 ''.t.''), l @ [url])),
     hc_post_form = (\<lambda>_ _ _. failP (Internal [])), hc_get_with_headers = default_get_with_headers\<rparr>"

theorem resolution_requests_witness:
  "\<exists>e. resolve_via_trust_anchors (sample_platform (\<lambda>w. (0, w)) []) logging_http ''https://leaf'' [(''https://ta'', []), (''https://tb/'', [])] [] =
     (Inl e, [''https://ta/.well-known/openid-federation'', ''https://tb/.well-known/openid-federation''])"
proof -
  let ?P = "sample_platform (\<lambda>w. (0, w)) [] :: string list platform"
  have l: "logging (\<lambda>w. w) ?P logging_http" by (simp add: logging_def logging_http_def sample_platform_def)
  obtain res w' where r: "resolve_via_trust_anchors ?P logging_http ''https://leaf'' [(''https://ta'', []), (''https://tb/'', [])] [] = (res, w')"
    by fastforce
  have no: "\<not> attested ?P ks t tok s" for ks t tok s by (simp add: attested_def sample_platform_def)
  then have e: "\<not> stated_endpoint ?P ta ks ep" for ta ks ep by (simp add: stated_endpoint_def)
  have "res \<noteq> Inr x" for x
  proof
    assume "res = Inr x"
    from resolve_anchors_ok [OF r [unfolded resolve_via_trust_anchors_def this]] no show False by (auto simp: resolved_by_def)
  qed
  with resolution_requests [OF l r] obtain us n where n: "n = 2" "w' = concat us"
      "list_all2 (asks_anchor ?P ''https://leaf'') (take n [(''https://ta'', []), (''https://tb/'', [])]) us" and res: "\<exists>e. res = Inl e"
    by (cases res) (force simp: le_less)+
  from n have "w' = [configuration_url ''https://ta'', configuration_url ''https://tb/'']"
    by (auto simp: list_all2_Cons1 asks_anchor_def e)
  moreover have "configuration_url ''https://ta'' = ''https://ta/.well-known/openid-federation''"
      "configuration_url ''https://tb/'' = ''https://tb/.well-known/openid-federation''" by code_simp+
  ultimately show ?thesis using r res by auto
qed

end
