(* ===== verification/Discovery.thy ===== *)
theory Discovery
  imports Federation "HOL-Library.Multiset"
begin

text \<open>
  \<^verbatim>\<open>src/discovery.rs\<close>: home-organization discovery.  The relying party's call to the discovery service, the
  third-party initiated login that comes back, and the service's side of it: where a verified relying
  party may be sent, the selection link and the promotion of a hinted provider.
\<close>

section \<open>Entity identifiers\<close>

definition validate_entity_id :: "'w platform \<Rightarrow> string \<Rightarrow> (error, unit) result" where
  "validate_entity_id P s =
     res_bind (map_err (\<lambda>e. BadRequest (''invalid entity id: '' @ e)) (url_parse P s)) (\<lambda>url.
     res_bind (ensure (u_scheme url = ''https'') (BadRequest ''entity id must use https'')) (\<lambda>_.
     res_bind (ensure (u_host url \<noteq> None) (BadRequest ''entity id has no host'')) (\<lambda>_.
     ensure (u_query url = None \<and> u_fragment url = None)
       (BadRequest ''entity id must not contain a query or fragment''))))"

definition push_param :: "'w platform \<Rightarrow> string \<Rightarrow> string \<Rightarrow> string \<Rightarrow> string" where
  "push_param P url key v = url @ (if CHR ''?'' \<in> set url then ''&'' else ''?'') @ key @ ''='' @ urlenc P v"

section \<open>The relying party\<close>

definition opt_pair :: "string \<Rightarrow> string option \<Rightarrow> (string \<times> string) list" where
  "opt_pair key v = (case v of Some x \<Rightarrow> [(key, x)] | None \<Rightarrow> [])"

definition discovery_request_url ::
    "'w platform \<Rightarrow> string \<Rightarrow> string \<Rightarrow> string option \<Rightarrow> string option \<Rightarrow> (error, string) result" where
  "discovery_request_url P discovery_endpoint rp_entity_id op_hint target_link_uri =
     res_bind (validate_entity_id P rp_entity_id) (\<lambda>_.
     res_bind (case op_hint of Some hint \<Rightarrow> validate_entity_id P hint | None \<Rightarrow> Inr ()) (\<lambda>_.
     res_bind (map_err (\<lambda>e. BadRequest (''invalid discovery endpoint: '' @ e)) (url_parse P discovery_endpoint)) (\<lambda>url.
     Inr (url_append_pairs P url
       ([(''entity_id'', rp_entity_id)] @ opt_pair ''hint'' op_hint @ opt_pair ''target_link_uri'' target_link_uri)))))"

record third_party_login =
  tl_iss :: string
  tl_login_hint :: "string option"
  tl_target_link_uri :: "string option"

definition nonempty :: "string option \<Rightarrow> string option" where
  "nonempty v = (case v of Some s \<Rightarrow> if s \<noteq> [] then Some s else None | None \<Rightarrow> None)"

definition parse_third_party_initiated_login ::
    "'w platform \<Rightarrow> string btree \<Rightarrow> (error, third_party_login) result" where
  "parse_third_party_initiated_login P params =
     res_bind (ok_or (nonempty (bt_get params ''iss'')) (BadRequest ''third-party initiated login is missing iss'')) (\<lambda>iss.
     res_bind (validate_entity_id P iss) (\<lambda>_.
     Inr \<lparr>tl_iss = iss, tl_login_hint = nonempty (bt_get params ''login_hint''),
       tl_target_link_uri = nonempty (bt_get params ''target_link_uri'')\<rparr>))"

section \<open>The discovery service\<close>

definition initiate_login_uri :: "'w platform \<Rightarrow> json \<Rightarrow> (error, string) result" where
  "initiate_login_uri P metadata =
     res_bind (ok_or
       (nonempty (Option.bind (json_get metadata ''openid_relying_party'') (\<lambda>m.
          Option.bind (json_get m ''initiate_login_uri'') as_str)))
       (Authn ''relying party metadata has no initiate_login_uri'')) (\<lambda>uri.
     res_bind (map_err (\<lambda>e. Authn (''invalid initiate_login_uri: '' @ e)) (url_parse P uri)) (\<lambda>parsed.
     res_bind (ensure (u_scheme parsed = ''https'' \<and> u_host parsed \<noteq> None)
       (Authn ''initiate_login_uri must be an https URL'')) (\<lambda>_.
     res_bind (ensure (u_fragment parsed = None) (Authn ''initiate_login_uri must not contain a fragment'')) (\<lambda>_.
     Inr uri))))"

definition initiate_login_uri_from_resolved :: "'w platform \<Rightarrow> resolved_entity \<Rightarrow> (error, string) result" where
  "initiate_login_uri_from_resolved P entity = initiate_login_uri P (re_metadata entity)"

record self_published_rp =
  sp_metadata :: json
  sp_exp :: "u64 option"

definition fetch_self_published_rp ::
    "'w platform \<Rightarrow> 'w http_client \<Rightarrow> string \<Rightarrow> ('w, error, self_published_rp) prog" where
  "fetch_self_published_rp P http rp_entity_id =
     bindP (liftR (validate_entity_id P rp_entity_id)) (\<lambda>_.
     bindP (fetch_entity_configuration P http rp_entity_id) (\<lambda>jwt.
     bindP (verify_self_signed P jwt) (\<lambda>stmt.
     guardP (is_about stmt rp_entity_id) (Authn ''entity configuration is not issued by the requested entity'') (
     retP \<lparr>sp_metadata = (case json_get stmt ''metadata'' of Some m \<Rightarrow> m | None \<Rightarrow> JNull),
       sp_exp = Option.bind (json_get stmt ''exp'') claim_secs\<rparr>))))"

definition self_published_initiate_login_uri ::
    "'w platform \<Rightarrow> 'w http_client \<Rightarrow> string \<Rightarrow> ('w, error, string) prog" where
  "self_published_initiate_login_uri P http rp_entity_id =
     bindP (fetch_self_published_rp P http rp_entity_id) (\<lambda>rp. liftR (initiate_login_uri P (sp_metadata rp)))"

definition third_party_login_url ::
    "'w platform \<Rightarrow> string \<Rightarrow> string \<Rightarrow> string option \<Rightarrow> string option \<Rightarrow> string" where
  "third_party_login_url P initiate op_entity_id login_hint target_link_uri =
     (let url = push_param P initiate ''iss'' op_entity_id;
          url = (case login_hint of Some hint \<Rightarrow> push_param P url ''login_hint'' hint | None \<Rightarrow> url)
      in case target_link_uri of Some target \<Rightarrow> push_param P url ''target_link_uri'' target | None \<Rightarrow> url)"

definition entity_id_eq :: "string \<Rightarrow> string \<Rightarrow> bool" where
  "entity_id_eq a b \<longleftrightarrow> trim_end_matches (CHR ''/'') a = trim_end_matches (CHR ''/'') b"

fun position_of :: "('a \<Rightarrow> bool) \<Rightarrow> 'a list \<Rightarrow> nat option" where
  "position_of p [] = None"
| "position_of p (x # xs) = (if p x then Some 0 else map_option Suc (position_of p xs))"

text \<open>The list is changed in place: the new list is returned with the answer.\<close>

definition promote_hint :: "collection_entity list \<Rightarrow> string \<Rightarrow> bool \<times> collection_entity list" where
  "promote_hint entities hint =
     (case position_of (\<lambda>e. entity_id_eq (ce_entity_id e) hint) entities of
        None \<Rightarrow> (False, entities)
      | Some 0 \<Rightarrow> (True, entities)
      | Some pos \<Rightarrow> (True, entities ! pos # (take pos entities @ drop (Suc pos) entities)))"

section \<open>Where users are sent\<close>

lemma nonempty_Some: "nonempty v = Some s \<longleftrightarrow> v = Some s \<and> s \<noteq> []"
  by (auto simp: nonempty_def split: option.splits)

lemma validate_entity_id_ok:
  "validate_entity_id P s = Inr v \<longleftrightarrow>
     (\<exists>u. url_parse P s = Inr u \<and> u_scheme u = ''https'' \<and> u_host u \<noteq> None \<and> u_query u = None \<and> u_fragment u = None)"
  by (auto simp: validate_entity_id_def result_simps)

lemma initiate_login_uri_ok:
  "initiate_login_uri P metadata = Inr uri \<longleftrightarrow>
     uri \<noteq> [] \<and> (\<exists>m. json_get metadata ''openid_relying_party'' = Some m \<and> json_get m ''initiate_login_uri'' = Some (JString uri)) \<and>
     (\<exists>u. url_parse P uri = Inr u \<and> u_scheme u = ''https'' \<and> u_host u \<noteq> None \<and> u_fragment u = None)"
  by (auto simp: initiate_login_uri_def result_simps nonempty_Some bind_eq_Some_conv elim!: as_str.elims)

text \<open>
  No open redirector: the URI a discovery service sends a user to is published by the relying party
  itself, in a configuration fetched from the well-known location of a valid https identifier, signed with
  the keys it carries, issued by and about that identifier; and it is an https URL with a host and
  without a fragment.
\<close>

theorem self_published_uri_safe:
  assumes "self_published_initiate_login_uri P http e w = (Inr uri, w')"
  shows "\<exists>tok stmt u keys own m w1.
    validate_entity_id P e = Inr () \<and> fetch_entity_configuration P http e w = (Inr tok, w1) \<and>
    decode_unverified P tok = Inr own \<and> es_jwks P own = Inr keys \<and> attested P keys ENTITY_STATEMENT_TYP tok stmt \<and>
    is_about stmt e \<and> es_metadata stmt ''openid_relying_party'' = Some m \<and>
    json_get m ''initiate_login_uri'' = Some (JString uri) \<and>
    url_parse P uri = Inr u \<and> u_scheme u = ''https'' \<and> u_host u \<noteq> None \<and> u_fragment u = None"
proof -
  from assms obtain tok stmt w1 meta where f: "validate_entity_id P e = Inr ()"
      "fetch_entity_configuration P http e w = (Inr tok, w1)" "verify_self_signed P tok w1 = (Inr stmt, w')" "is_about stmt e"
      "meta = (case json_get stmt ''metadata'' of Some m \<Rightarrow> m | None \<Rightarrow> JNull)" "initiate_login_uri P meta = Inr uri"
    by (auto simp: self_published_initiate_login_uri_def fetch_self_published_rp_def prog_ok)
  from f(6) obtain m u where m: "json_get meta ''openid_relying_party'' = Some m" "json_get m ''initiate_login_uri'' = Some (JString uri)"
      "url_parse P uri = Inr u" "u_scheme u = ''https''" "u_host u \<noteq> None" "u_fragment u = None"
    by (auto simp: initiate_login_uri_ok)
  have "es_metadata stmt ''openid_relying_party'' = Some m"
    using m(1) by (auto simp: es_metadata_def f(5) split: option.splits)
  with verify_self_signed_ok [OF f(3)] f(1,2,4) m show ?thesis by blast
qed

section \<open>The selection link\<close>

definition login_pairs :: "string \<Rightarrow> string option \<Rightarrow> string option \<Rightarrow> (string \<times> string) list" where
  "login_pairs op hint target = [(''iss'', op)] @ opt_pair ''login_hint'' hint @ opt_pair ''target_link_uri'' target"

definition login_query :: "'w platform \<Rightarrow> (string \<times> string) list \<Rightarrow> string" where
  "login_query P pairs = join ''&'' (List.map (\<lambda>(k, v). k @ ''='' @ urlenc P v) pairs)"

lemma third_party_login_url_eq:
  "third_party_login_url P initiate op hint target =
     initiate @ (if CHR ''?'' \<in> set initiate then ''&'' else ''?'') @ login_query P (login_pairs op hint target)"
  by (auto simp: third_party_login_url_def push_param_def login_pairs_def opt_pair_def login_query_def
      split: option.splits)

text \<open>
  The selection link reaches the relying party as meant.  It is the login URI followed by the
  encoded pairs, with the right separator whether or not the URI has a query; and if the form decoder
  reads them back, the relying party parses out exactly the chosen provider, the hint and the target.
\<close>

theorem third_party_login_roundtrip:
  assumes "validate_entity_id P op = Inr ()" and "op \<noteq> []" and "hint \<noteq> Some []" and "target \<noteq> Some []"
    and "form_urlencoded_parse P (login_query P (login_pairs op hint target)) = login_pairs op hint target"
  shows "\<exists>query. third_party_login_url P initiate op hint target =
      initiate @ (if CHR ''?'' \<in> set initiate then ''&'' else ''?'') @ query \<and>
    parse_third_party_initiated_login P (foldl (\<lambda>m (k, v). bt_insert k v m) [] (form_urlencoded_parse P query)) =
      Inr \<lparr>tl_iss = op, tl_login_hint = hint, tl_target_link_uri = target\<rparr>"
proof -
  let ?m = "foldl (\<lambda>m (k, v). bt_insert k v m) [] (login_pairs op hint target)"
  have "map_of ?m ''iss'' = Some op" "map_of ?m ''login_hint'' = hint" "map_of ?m ''target_link_uri'' = target"
    by (auto simp: login_pairs_def opt_pair_def split: option.splits)
  then have "parse_third_party_initiated_login P ?m = Inr \<lparr>tl_iss = op, tl_login_hint = hint, tl_target_link_uri = target\<rparr>"
    using assms(1-4) by (auto simp: parse_third_party_initiated_login_def nonempty_def split: option.splits)
  then show ?thesis using third_party_login_url_eq assms(5) by metis
qed

section \<open>Promotion of the hint\<close>

lemma position_of_Some:
  "position_of p xs = Some i \<longleftrightarrow> i < length xs \<and> p (xs ! i) \<and> (\<forall>j < i. \<not> p (xs ! j))"
proof (induction xs arbitrary: i)
  case (Cons x xs)
  show ?case by (cases i) (auto simp: Cons.IH less_Suc_eq_0_disj)
qed simp

lemma position_of_None: "position_of p xs = None \<longleftrightarrow> list_all (\<lambda>x. \<not> p x) xs"
  by (induction xs) auto

text \<open>
  Promotion loses and invents no entity: the list after it is a permutation of the list before, the
  answer tells whether any entity matches the hint, and if one does the first match is at the front, the
  others keeping their order; if none does the list is unchanged.
\<close>

theorem promote_hint_correct:
  "case promote_hint entities hint of (found, entities') \<Rightarrow>
     mset entities' = mset entities \<and>
     (found \<longleftrightarrow> (\<exists>e \<in> set entities. entity_id_eq (ce_entity_id e) hint)) \<and>
     (if found
      then \<exists>before e after. entities = before @ e # after \<and> entity_id_eq (ce_entity_id e) hint \<and>
             list_all (\<lambda>x. \<not> entity_id_eq (ce_entity_id x) hint) before \<and> entities' = e # before @ after
      else entities' = entities)"
proof (cases "position_of (\<lambda>e. entity_id_eq (ce_entity_id e) hint) entities")
  case None
  then have "promote_hint entities hint = (False, entities)" by (simp add: promote_hint_def)
  with None show ?thesis by (auto simp: position_of_None list_all_iff)
next
  case (Some i)
  then have i: "i < length entities" "entity_id_eq (ce_entity_id (entities ! i)) hint"
      "\<forall>j < i. \<not> entity_id_eq (ce_entity_id (entities ! j)) hint"
    by (simp_all add: position_of_Some)
  have eq: "entities = take i entities @ entities ! i # drop (Suc i) entities" by (rule id_take_nth_drop [OF i(1)])
  have p: "promote_hint entities hint = (True, entities ! i # take i entities @ drop (Suc i) entities)"
    using Some eq by (cases i) (auto simp: promote_hint_def)
  have "list_all (\<lambda>x. \<not> entity_id_eq (ce_entity_id x) hint) (take i entities)"
    using i by (auto simp: list_all_length)
  moreover have "mset (entities ! i # take i entities @ drop (Suc i) entities) = mset entities"
    by (subst (4) eq) simp
  moreover have "entities ! i \<in> set entities" using i(1) by simp
  ultimately show ?thesis using eq i(2) by (auto simp: p)
qed

text \<open>
  Two identifiers count as the same for promotion if they differ in any number of trailing slashes,
  not only in one.
\<close>

theorem trailing_slashes_ignored: "entity_id_eq (a @ replicate n (CHR ''/'')) (a @ replicate m (CHR ''/''))"
proof -
  have "dropWhile (\<lambda>x. x = CHR ''/'') (replicate k (CHR ''/'') @ xs) = dropWhile (\<lambda>x. x = CHR ''/'') xs" for k xs
    by (induction k) simp_all
  then have "trim_end_matches (CHR ''/'') (a @ replicate k (CHR ''/'')) = trim_end_matches (CHR ''/'') a" for k
    by (simp add: trim_end_matches_def)
  then show ?thesis by (simp add: entity_id_eq_def)
qed

section \<open>Concrete discovery\<close>

lemma op_entity_valid: "validate_entity_id (rp_platform still []) ''https://op'' = Inr ()"
  by (simp add: validate_entity_id_ok rp_platform_def https_url_def)

theorem third_party_login_roundtrip_witness:
  "\<exists>P :: unit platform. \<exists>query. third_party_login_url P ''https://rp/start'' ''https://op'' None (Some ''t'') = ''https://rp/start?'' @ query \<and>
     parse_third_party_initiated_login P (foldl (\<lambda>m (k, v). bt_insert k v m) [] (form_urlencoded_parse P query)) =
       Inr \<lparr>tl_iss = ''https://op'', tl_login_hint = None, tl_target_link_uri = Some ''t''\<rparr>"
proof -
  let ?P = "(rp_platform still [])\<lparr>form_urlencoded_parse := (\<lambda>_. login_pairs ''https://op'' None (Some ''t''))\<rparr>"
  have "validate_entity_id ?P ''https://op'' = Inr ()" using op_entity_valid by (simp add: validate_entity_id_ok)
  from third_party_login_roundtrip [OF this, of None "Some ''t''" "''https://rp/start''"] show ?thesis
    by (intro exI [of _ ?P]) simp
qed

definition leaf_platform :: "unit platform" where
  "leaf_platform = (rp_platform still [])
     \<lparr>jose_b64url_decode := Inr, claims_from_slice := (\<lambda>s. Inr claims_default),
      claims_to_value := (\<lambda>_. Inr (leaf_doc ''https://leaf'' [(''jwks'', JNull),
        (''metadata'', JObject [(''openid_relying_party'', JObject [(''initiate_login_uri'', JString ''https://leaf/go'')])])])),
      jwk_set_from_value := (\<lambda>_. Inr []), jwt_decode_with_jwkset := (\<lambda>_ _ _. retP claims_default)\<rparr>"

lemma leaf_uri:
  "self_published_initiate_login_uri leaf_platform fed_http ''https://leaf'' () = (Inr ''https://leaf/go'', ())"
proof -
  have "fetch_entity_configuration leaf_platform fed_http ''https://leaf'' () = (Inr ''.r.'', ())" by code_simp
  moreover have "validate_entity_id leaf_platform ''https://leaf'' = Inr ()"
    by (simp add: validate_entity_id_ok leaf_platform_def rp_platform_def https_url_def)
  moreover have "splitn3 ''.r.'' = [[], ''r'', []]" by code_simp
  then have "verify_self_signed leaf_platform ''.r.'' () = (Inr (leaf_doc ''https://leaf'' [(''jwks'', JNull),
      (''metadata'', JObject [(''openid_relying_party'', JObject [(''initiate_login_uri'', JString ''https://leaf/go'')])])]), ())"
    by (simp add: verify_self_signed_def decode_unverified_def peek_claims_unverified_def verify_statement_def verify_typed_def
        verify_with_jwks_def leaf_platform_def bindP_def mapErrP_def es_jwks_def es_iss_def es_sub_def leaf_doc_def)
  ultimately show ?thesis
    by (simp add: self_published_initiate_login_uri_def fetch_self_published_rp_def bindP_def is_about_def es_iss_def es_sub_def leaf_doc_def
        initiate_login_uri_def nonempty_def)
      (simp add: leaf_platform_def rp_platform_def https_url_def)
qed

theorem self_published_uri_safe_witness:
  "\<exists>u. url_parse leaf_platform ''https://leaf/go'' = Inr u \<and> u_scheme u = ''https''"
  using self_published_uri_safe [OF leaf_uri] by blast

end
