(* ===== verification/Metadata_Policy.thy ===== *)
theory Metadata_Policy
  imports Errors
begin

text \<open>
  \<^verbatim>\<open>src/federation.rs\<close>, \<^verbatim>\<open>apply_policy\<close>: the metadata policy operators of OpenID Federation.  The metadata is
  changed in place, also when a later operator fails, so the policy is a program whose world is the
  metadata.
\<close>

section \<open>Operators\<close>

text \<open>\<^verbatim>\<open>as_array\<close> of \<^verbatim>\<open>federation.rs\<close>: a value that is not an array is an array of one.\<close>

fun as_list :: "json \<Rightarrow> json list" where
  "as_list (JArray a) = a"
| "as_list v = [v]"

definition putP :: "string \<Rightarrow> json \<Rightarrow> (json btree, error, unit) prog" where
  "putP param v m = (Inr (), bt_insert param v m)"

definition getP :: "string \<Rightarrow> (json btree, error, json option) prog" where
  "getP param m = (Inr (bt_get m param), m)"

fun push_missing :: "json list \<Rightarrow> json list \<Rightarrow> json list" where
  "push_missing arr [] = arr"
| "push_missing arr (item # items) = push_missing (if item \<in> set arr then arr else arr @ [item]) items"

fun add_items :: "json \<Rightarrow> json list \<Rightarrow> json" where
  "add_items (JArray arr) items = JArray (push_missing arr items)"
| "add_items v items = v"

definition op_value :: "string \<Rightarrow> json btree \<Rightarrow> (json btree, error, unit) prog" where
  "op_value param ops = (case bt_get ops ''value'' of Some v \<Rightarrow> putP param v | None \<Rightarrow> retP ())"

definition op_default :: "string \<Rightarrow> json btree \<Rightarrow> (json btree, error, unit) prog" where
  "op_default param ops =
     (case bt_get ops ''default'' of
        Some v \<Rightarrow> bindP (getP param) (\<lambda>c. if c = None then putP param v else retP ())
      | None \<Rightarrow> retP ())"

definition op_add :: "string \<Rightarrow> json btree \<Rightarrow> (json btree, error, unit) prog" where
  "op_add param ops =
     (case bt_get ops ''add'' of
        Some items \<Rightarrow>
          bindP (getP param) (\<lambda>c.
          putP param (add_items (case c of Some v \<Rightarrow> v | None \<Rightarrow> JArray []) (as_list items)))
      | None \<Rightarrow> retP ())"

definition op_essential :: "string \<Rightarrow> json btree \<Rightarrow> (json btree, error, unit) prog" where
  "op_essential param ops =
     bindP (getP param) (\<lambda>c.
     guardP (\<not> (Option.bind (bt_get ops ''essential'') as_bool = Some True \<and> c = None))
       (Authn (''metadata policy requires essential parameter '' @ display_safe param)) (retP ()))"

definition op_one_of :: "string \<Rightarrow> json btree \<Rightarrow> (json btree, error, unit) prog" where
  "op_one_of param ops =
     (case bt_get ops ''one_of'' of
        Some allowed \<Rightarrow>
          bindP (getP param) (\<lambda>c.
          guardP (case c of Some v \<Rightarrow> v \<in> set (as_list allowed) | None \<Rightarrow> True)
            (Authn (''metadata '' @ display_safe param @ '' not in one_of constraint'')) (retP ()))
      | None \<Rightarrow> retP ())"

definition op_subset_of :: "string \<Rightarrow> json btree \<Rightarrow> (json btree, error, unit) prog" where
  "op_subset_of param ops =
     (case bt_get ops ''subset_of'' of
        Some allowed \<Rightarrow>
          bindP (getP param) (\<lambda>c.
          guardP (case c of Some v \<Rightarrow> list_all (\<lambda>x. x \<in> set (as_list allowed)) (as_list v) | None \<Rightarrow> True)
            (Authn (''metadata '' @ display_safe param @ '' violates subset_of constraint'')) (retP ()))
      | None \<Rightarrow> retP ())"

definition op_superset_of :: "string \<Rightarrow> json btree \<Rightarrow> (json btree, error, unit) prog" where
  "op_superset_of param ops =
     (case bt_get ops ''superset_of'' of
        Some required \<Rightarrow>
          bindP (getP param) (\<lambda>c.
          guardP (list_all (\<lambda>x. x \<in> set (case c of Some v \<Rightarrow> as_list v | None \<Rightarrow> [])) (as_list required))
            (Authn (''metadata '' @ display_safe param @ '' violates superset_of constraint'')) (retP ()))
      | None \<Rightarrow> retP ())"

definition apply_param :: "string \<Rightarrow> json btree \<Rightarrow> (json btree, error, unit) prog" where
  "apply_param param ops =
     bindP (op_value param ops) (\<lambda>_. bindP (op_default param ops) (\<lambda>_. bindP (op_add param ops) (\<lambda>_.
     bindP (op_essential param ops) (\<lambda>_. bindP (op_one_of param ops) (\<lambda>_. bindP (op_subset_of param ops) (\<lambda>_.
     op_superset_of param ops))))))"

fun apply_policy :: "json btree \<Rightarrow> (json btree, error, unit) prog" where
  "apply_policy [] = retP ()"
| "apply_policy ((param, ops) # policy) =
     bindP (liftR (ok_or (as_object ops) (BadRequest (''policy for '' @ display_safe param @ '' is not an object'')))) (\<lambda>o'.
     bindP (apply_param param o') (\<lambda>_. apply_policy policy))"

section \<open>The value a policy leaves\<close>

text \<open>
  Seen from one parameter: \<open>set_ops\<close> is the value the three modifying operators leave for a current value,
  and \<open>meets\<close> the condition the four checks state of it.
\<close>

definition set_ops :: "json btree \<Rightarrow> json option \<Rightarrow> json option" where
  "set_ops ops c =
     (let c1 = (case bt_get ops ''value'' of Some v \<Rightarrow> Some v | None \<Rightarrow> c);
          c2 = (case bt_get ops ''default'' of Some v \<Rightarrow> Some (case c1 of Some x \<Rightarrow> x | None \<Rightarrow> v) | None \<Rightarrow> c1)
      in case bt_get ops ''add'' of
           Some items \<Rightarrow> Some (add_items (case c2 of Some v \<Rightarrow> v | None \<Rightarrow> JArray []) (as_list items))
         | None \<Rightarrow> c2)"

definition meets :: "json btree \<Rightarrow> json option \<Rightarrow> bool" where
  "meets ops c \<longleftrightarrow>
     (Option.bind (bt_get ops ''essential'') as_bool = Some True \<longrightarrow> c \<noteq> None) \<and>
     (\<forall>allowed v. bt_get ops ''one_of'' = Some allowed \<and> c = Some v \<longrightarrow> v \<in> set (as_list allowed)) \<and>
     (\<forall>allowed v. bt_get ops ''subset_of'' = Some allowed \<and> c = Some v \<longrightarrow> set (as_list v) \<subseteq> set (as_list allowed)) \<and>
     (\<forall>required. bt_get ops ''superset_of'' = Some required \<longrightarrow>
        set (as_list required) \<subseteq> set (case c of Some v \<Rightarrow> as_list v | None \<Rightarrow> []))"

lemma set_push_missing: "set (push_missing arr items) = set arr \<union> set items"
  by (induction arr items rule: push_missing.induct) auto

lemma push_missing_present: "set items \<subseteq> set arr \<Longrightarrow> push_missing arr items = arr"
  by (induction arr items rule: push_missing.induct) auto

lemma add_items_idem: "add_items (add_items v items) items = add_items v items"
  by (cases v) (simp_all add: push_missing_present set_push_missing)

lemma set_ops_idem: "set_ops ops (set_ops ops c) = set_ops ops c"
  by (auto simp: set_ops_def Let_def add_items_idem split: option.splits)

lemma getP_bind [simp]: "bindP (getP param) f m = f (bt_get m param) m"
  by (simp add: bindP_def getP_def)

lemma op_checks_ok:
  "op_essential param ops m = (Inr u, m') \<longleftrightarrow>
     m' = m \<and> (Option.bind (bt_get ops ''essential'') as_bool = Some True \<longrightarrow> bt_get m param \<noteq> None)"
  "op_one_of param ops m = (Inr u, m') \<longleftrightarrow>
     m' = m \<and> (\<forall>allowed v. bt_get ops ''one_of'' = Some allowed \<and> bt_get m param = Some v \<longrightarrow> v \<in> set (as_list allowed))"
  "op_subset_of param ops m = (Inr u, m') \<longleftrightarrow>
     m' = m \<and> (\<forall>allowed v. bt_get ops ''subset_of'' = Some allowed \<and> bt_get m param = Some v \<longrightarrow>
       set (as_list v) \<subseteq> set (as_list allowed))"
  "op_superset_of param ops m = (Inr u, m') \<longleftrightarrow>
     m' = m \<and> (\<forall>required. bt_get ops ''superset_of'' = Some required \<longrightarrow>
       set (as_list required) \<subseteq> set (case bt_get m param of Some v \<Rightarrow> as_list v | None \<Rightarrow> []))"
  by (auto simp: op_essential_def op_one_of_def op_subset_of_def op_superset_of_def guardP_def list_all_iff split: option.splits)

text \<open>The three modifying operators never fail and touch only their parameter.\<close>

definition modified :: "string \<Rightarrow> json btree \<Rightarrow> json btree \<Rightarrow> json btree" where
  "modified param ops m = snd (op_add param ops (snd (op_default param ops (snd (op_value param ops m)))))"

lemma modifying_ok:
  "op_value param ops m = (Inr (), snd (op_value param ops m))"
  "op_default param ops m = (Inr (), snd (op_default param ops m))"
  "op_add param ops m = (Inr (), snd (op_add param ops m))"
  by (auto simp: op_value_def op_default_def op_add_def putP_def split: option.splits)

lemma map_of_modified: "map_of (modified param ops m) = (map_of m)(param := set_ops ops (map_of m param))"
  by (auto simp: modified_def op_value_def op_default_def op_add_def putP_def set_ops_def Let_def fun_eq_iff
      split: option.splits)

lemma bt_ok_modified: "bt_ok m \<Longrightarrow> bt_ok (modified param ops m)"
  by (auto simp: modified_def op_value_def op_default_def op_add_def putP_def bt_ok_insert split: option.splits)

lemma apply_param_ok:
  "apply_param param ops m = (Inr u, m') \<longleftrightarrow> m' = modified param ops m \<and> meets ops (set_ops ops (map_of m param))"
proof -
  have "apply_param param ops m =
      bindP (op_essential param ops) (\<lambda>_. bindP (op_one_of param ops) (\<lambda>_. bindP (op_subset_of param ops) (\<lambda>_.
        op_superset_of param ops))) (modified param ops m)"
    unfolding apply_param_def modified_def
    by (simp only: bindP_step [OF modifying_ok(1)] bindP_step [OF modifying_ok(2)] bindP_step [OF modifying_ok(3)])
  then show ?thesis
    by (auto simp: bindP_ok op_checks_ok map_of_modified meets_def)
qed

lemma apply_policy_ok:
  assumes "apply_policy policy m = (Inr u, m')" and "distinct (List.map fst policy)"
  shows "(\<forall>(param, ops) \<in> set policy. \<exists>obj. as_object ops = Some obj \<and>
      map_of m' param = set_ops obj (map_of m param) \<and> meets obj (map_of m' param)) \<and>
    (\<forall>k. k \<notin> set (List.map fst policy) \<longrightarrow> map_of m' k = map_of m k) \<and> (bt_ok m \<longrightarrow> bt_ok m')"
  using assms
proof (induction policy arbitrary: m)
  case (Cons e policy)
  obtain param ops where e: "e = (param, ops)" by fastforce
  from Cons.prems(1) obtain obj where s: "as_object ops = Some obj" "meets obj (set_ops obj (map_of m param))"
      "apply_policy policy (modified param obj m) = (Inr u, m')"
    by (auto simp: e prog_ok apply_param_ok)
  note IH = Cons.IH [OF s(3)]
  have new: "param \<notin> set (List.map fst policy)" "distinct (List.map fst policy)" using Cons.prems(2) by (auto simp: e)
  then have "map_of m' param = set_ops obj (map_of m param)" using IH by (simp add: map_of_modified)
  moreover have "map_of (modified param obj m) k = map_of m k" if "k \<in> set (List.map fst policy)" for k
    using that new by (auto simp: map_of_modified)
  then have "\<forall>(p, ops) \<in> set policy. map_of (modified param obj m) p = map_of m p" by force
  ultimately show ?case using IH new s(1,2) bt_ok_modified [of m param obj]
    by (fastforce simp: e map_of_modified)
qed simp

lemma apply_policy_succeeds:
  assumes "distinct (List.map fst policy)"
    and "\<forall>(param, ops) \<in> set policy. \<exists>obj. as_object ops = Some obj \<and> meets obj (set_ops obj (map_of m param))"
  shows "\<exists>m'. apply_policy policy m = (Inr (), m')"
  using assms
proof (induction policy arbitrary: m)
  case (Cons e policy)
  obtain param ops where e: "e = (param, ops)" by fastforce
  with Cons.prems obtain obj where s: "as_object ops = Some obj" "meets obj (set_ops obj (map_of m param))" by auto
  have "\<forall>p \<in> set policy. map_of (modified param obj m) (fst p) = map_of m (fst p)"
    using Cons.prems(1) by (auto simp: e map_of_modified)
  with Cons.prems have "\<exists>m'. apply_policy policy (modified param obj m) = (Inr (), m')"
    by (intro Cons.IH) (auto simp: case_prod_beta)
  moreover have "apply_param param obj m = (Inr (), modified param obj m)" using s(2) by (simp add: apply_param_ok)
  ultimately show ?case by (simp add: e s(1) bindP_step)
qed simp

text \<open>
  C35.  When a metadata policy applies without error, every parameter it names has exactly the value its
  \<^verbatim>\<open>value\<close>, \<^verbatim>\<open>default\<close> and \<^verbatim>\<open>add\<close> operators give, and that value meets \<^verbatim>\<open>essential\<close>, \<^verbatim>\<open>one_of\<close>,
  \<^verbatim>\<open>subset_of\<close> and \<^verbatim>\<open>superset_of\<close>; no other parameter changes.  Conversely it succeeds whenever the
  resulting values meet the constraints, and applying it a second time succeeds and changes nothing.
\<close>

theorem policy_enforced:
  assumes "distinct (List.map fst policy)" and "bt_ok m"
  shows "((\<exists>m'. apply_policy policy m = (Inr (), m')) \<longleftrightarrow>
      (\<forall>(param, ops) \<in> set policy. \<exists>obj. as_object ops = Some obj \<and> meets obj (set_ops obj (map_of m param)))) \<and>
    (\<forall>m'. apply_policy policy m = (Inr (), m') \<longrightarrow>
      (\<forall>(param, ops) \<in> set policy. \<exists>obj. as_object ops = Some obj \<and>
         map_of m' param = set_ops obj (map_of m param) \<and> meets obj (map_of m' param)) \<and>
      (\<forall>k. k \<notin> set (List.map fst policy) \<longrightarrow> map_of m' k = map_of m k) \<and>
      apply_policy policy m' = (Inr (), m'))"
proof (intro conjI allI impI)
  show "(\<exists>m'. apply_policy policy m = (Inr (), m')) \<longleftrightarrow>
      (\<forall>(param, ops) \<in> set policy. \<exists>obj. as_object ops = Some obj \<and> meets obj (set_ops obj (map_of m param)))"
    using apply_policy_succeeds [OF assms(1)] apply_policy_ok [OF _ assms(1), of m] by fastforce
next
  fix m'
  assume a: "apply_policy policy m = (Inr (), m')"
  note ok = apply_policy_ok [OF a assms(1)]
  show "\<forall>(param, ops) \<in> set policy. \<exists>obj. as_object ops = Some obj \<and>
         map_of m' param = set_ops obj (map_of m param) \<and> meets obj (map_of m' param)"
    and "\<And>k. k \<notin> set (List.map fst policy) \<Longrightarrow> map_of m' k = map_of m k"
    using ok by blast+
  have "\<forall>(param, ops) \<in> set policy. \<exists>obj. as_object ops = Some obj \<and> meets obj (set_ops obj (map_of m' param))"
    using ok by (fastforce simp: set_ops_idem)
  then obtain m2 where m2: "apply_policy policy m' = (Inr (), m2)" using apply_policy_succeeds [OF assms(1)] by blast
  note ok2 = apply_policy_ok [OF m2 assms(1)]
  have "map_of m2 k = map_of m' k" for k
  proof (cases "k \<in> set (List.map fst policy)")
    case True
    then obtain ops where "(k, ops) \<in> set policy" by auto
    then obtain obj where "map_of m2 k = set_ops obj (map_of m' k)" "map_of m' k = set_ops obj (map_of m k)"
      using ok ok2 by fastforce
    then show ?thesis by (simp add: set_ops_idem)
  qed (use ok2 in blast)
  then have "m2 = m'" using ok ok2 assms(2) by (intro bt_ok_unique) auto
  with m2 show "apply_policy policy m' = (Inr (), m')" by simp
qed

definition sample_policy :: "json btree" where
  "sample_policy = [(''scopes'', JObject [(''add'', JString ''openid''), (''subset_of'', JArray [JString ''email'', JString ''openid''])])]"

lemma sample_policy_applies:
  "apply_policy sample_policy [(''scopes'', JArray [JString ''email''])] =
     (Inr (), [(''scopes'', JArray [JString ''email'', JString ''openid''])])"
  by code_simp

theorem policy_enforced_witness:
  "apply_policy sample_policy [(''scopes'', JArray [JString ''email'', JString ''openid''])] =
     (Inr (), [(''scopes'', JArray [JString ''email'', JString ''openid''])])"
proof -
  have "distinct (List.map fst sample_policy)" "bt_ok [(''scopes'', JArray [JString ''email''])]"
    by (simp_all add: sample_policy_def bt_ok_def)
  from policy_enforced [OF this] sample_policy_applies show ?thesis by blast
qed

end
