(* ===== verification/Keys.thy ===== *)
theory Keys
  imports Jwt
begin

text \<open>
  \<^verbatim>\<open>src/keys.rs\<close>: loading of signing keys from JWK, PEM or DER and from a PKCS\#11 token, with the
  publication of the public key.  The cryptographic crates are the record \<open>key_backend\<close>, a token and
  its session the record \<open>hsm\<close>; keys, signers, sessions and handles are opaque names.
\<close>

section \<open>The crates\<close>

datatype key_algorithm = KRsa | KP256 | KP384 | KEd25519

type_synonym software_key = string

record key_backend =
  kb_pem_parse :: "string \<Rightarrow> (string, string) result"
  kb_rsa_from_pkcs8 :: "string \<Rightarrow> (string, string) result"
  kb_rsa_from_pkcs1 :: "string \<Rightarrow> (string, string) result"
  kb_rsa_to_pkcs8 :: "string \<Rightarrow> (string, string) result"
  kb_p256_from_pkcs8 :: "string \<Rightarrow> (string, string) result"
  kb_p256_from_sec1 :: "string \<Rightarrow> (string, string) result"
  kb_p256_to_pkcs8 :: "string \<Rightarrow> (string, string) result"
  kb_p384_from_pkcs8 :: "string \<Rightarrow> (string, string) result"
  kb_p384_from_sec1 :: "string \<Rightarrow> (string, string) result"
  kb_p384_to_pkcs8 :: "string \<Rightarrow> (string, string) result"
  kb_ed25519_from_pkcs8 :: "string \<Rightarrow> (string, string) result"
  kb_from_pkcs8_der :: "key_algorithm \<Rightarrow> string \<Rightarrow> (string, software_key) result"
  kb_from_spki_der :: "key_algorithm \<Rightarrow> string \<Rightarrow> (string, software_key) result"
  kb_software_key_to_jwk :: "software_key \<Rightarrow> (string, jwk) result"
  kb_jwk_to_software_key :: "jwk \<Rightarrow> (string, software_key) result"
  kb_to_public_jwk :: "jwk \<Rightarrow> jwk"
  kb_to_crypto :: "jws_algorithm \<Rightarrow> (string, string) result"
  kb_software_signer :: "string \<Rightarrow> software_key \<Rightarrow> (string, string) result"

section \<open>Private keys\<close>

text \<open>\<^verbatim>\<open>a.or_else(|_| b)\<close>.\<close>

definition or_else :: "('e, 'a) result \<Rightarrow> ('e, 'a) result \<Rightarrow> ('e, 'a) result" where
  "or_else a b = (case a of Inr x \<Rightarrow> Inr x | Inl _ \<Rightarrow> b)"

definition rsa_from_der :: "key_backend \<Rightarrow> string \<Rightarrow> (error, software_key) result" where
  "rsa_from_der B der =
     res_bind (map_err (\<lambda>e. Crypto (''not an RSA key: '' @ e))
       (or_else (kb_rsa_from_pkcs8 B der) (kb_rsa_from_pkcs1 B der))) (\<lambda>priv_key.
     res_bind (map_err (\<lambda>e. Crypto (''RSA PKCS#8 encoding failed: '' @ e)) (kb_rsa_to_pkcs8 B priv_key)) (\<lambda>pkcs8.
     map_err (\<lambda>e. Crypto (''RSA key import failed: '' @ e)) (kb_from_pkcs8_der B KRsa pkcs8)))"

definition ec_p256_from_der :: "key_backend \<Rightarrow> string \<Rightarrow> (error, software_key) result" where
  "ec_p256_from_der B der =
     res_bind (map_err (\<lambda>e. Crypto (''not a P-256 key: '' @ e))
       (or_else (kb_p256_from_pkcs8 B der) (kb_p256_from_sec1 B der))) (\<lambda>secret.
     res_bind (map_err (\<lambda>e. Crypto (''P-256 PKCS#8 encoding failed: '' @ e)) (kb_p256_to_pkcs8 B secret)) (\<lambda>pkcs8.
     map_err (\<lambda>e. Crypto (''P-256 key import failed: '' @ e)) (kb_from_pkcs8_der B KP256 pkcs8)))"

definition ec_p384_from_der :: "key_backend \<Rightarrow> string \<Rightarrow> (error, software_key) result" where
  "ec_p384_from_der B der =
     res_bind (map_err (\<lambda>e. Crypto (''not a P-384 key: '' @ e))
       (or_else (kb_p384_from_pkcs8 B der) (kb_p384_from_sec1 B der))) (\<lambda>secret.
     res_bind (map_err (\<lambda>e. Crypto (''P-384 PKCS#8 encoding failed: '' @ e)) (kb_p384_to_pkcs8 B secret)) (\<lambda>pkcs8.
     map_err (\<lambda>e. Crypto (''P-384 key import failed: '' @ e)) (kb_from_pkcs8_der B KP384 pkcs8)))"

definition ed25519_from_der :: "key_backend \<Rightarrow> string \<Rightarrow> (error, software_key) result" where
  "ed25519_from_der B der =
     res_bind (map_err (\<lambda>e. Crypto (''not an Ed25519 key: '' @ e)) (kb_ed25519_from_pkcs8 B der)) (\<lambda>_.
     map_err (\<lambda>e. Crypto (''Ed25519 key import failed: '' @ e)) (kb_from_pkcs8_der B KEd25519 der))"

definition parse_private_key :: "key_backend \<Rightarrow> string \<Rightarrow> (error, software_key) result" where
  "parse_private_key B bytes =
     res_bind (if strip_prefix ''-----BEGIN'' bytes \<noteq> None
               then map_err (\<lambda>e. Crypto (''invalid PEM: '' @ e)) (kb_pem_parse B bytes) else Inr bytes) (\<lambda>der.
     or_else (rsa_from_der B der) (or_else (ec_p256_from_der B der) (or_else (ec_p384_from_der B der)
       (or_else (ed25519_from_der B der)
         (Inl (Crypto ''could not parse private key (tried RSA/EC P-256/P-384/Ed25519 in PKCS#8/PKCS#1/SEC1)''))))))"

section \<open>Signing keys\<close>

definition public_jwk_from_private :: "key_backend \<Rightarrow> jwk \<Rightarrow> jws_algorithm \<Rightarrow> string option \<Rightarrow> jwk" where
  "public_jwk_from_private B j alg kid =
     (let p = kb_to_public_jwk B j
      in p\<lparr>jwk_alg := Some (alg_str alg), jwk_kid := kid, jwk_members := bt_insert ''use'' (JString ''sig'') (jwk_members p)\<rparr>)"

definition finalize_signing_key ::
    "'w platform \<Rightarrow> key_backend \<Rightarrow> jwk \<Rightarrow> string option \<Rightarrow> string option \<Rightarrow> (error, signing_key) result" where
  "finalize_signing_key P B j alg_override kid_override =
     res_bind (case alg_override of
         Some s \<Rightarrow> map_err (\<lambda>e. Crypto (''bad signing algorithm '' @ s @ '': '' @ e)) (alg_from_str P s)
       | None \<Rightarrow> default_alg j) (\<lambda>alg.
     let j1 = j\<lparr>jwk_alg := Some (alg_str alg)\<rparr>;
         j2 = (case kid_override of Some kid \<Rightarrow> j1\<lparr>jwk_kid := Some kid\<rparr> | None \<Rightarrow> j1);
         kid = jwk_kid j2
     in
     res_bind (map_err Jose (kb_jwk_to_software_key B j2)) (\<lambda>sw.
     res_bind (map_err Jose (kb_to_crypto B alg)) (\<lambda>sig_alg.
     res_bind (map_err (\<lambda>e. Crypto (''could not build software signer: '' @ e)) (kb_software_signer B sig_alg sw)) (\<lambda>signer.
     Inr \<lparr>sk_signer = signer, sk_public_jwk = public_jwk_from_private B j2 alg kid, sk_alg = alg, sk_kid = kid\<rparr>))))"

definition signing_key_from_jwk_json ::
    "'w platform \<Rightarrow> key_backend \<Rightarrow> string \<Rightarrow> string option \<Rightarrow> string option \<Rightarrow> (error, signing_key) result" where
  "signing_key_from_jwk_json P B json alg_override kid_override =
     res_bind (map_err Jose (jwk_from_json P json)) (\<lambda>j. finalize_signing_key P B j alg_override kid_override)"

definition signing_key_from_pem ::
    "'w platform \<Rightarrow> key_backend \<Rightarrow> string \<Rightarrow> string option \<Rightarrow> string option \<Rightarrow> (error, signing_key) result" where
  "signing_key_from_pem P B bytes alg_override kid_override =
     res_bind (parse_private_key B bytes) (\<lambda>sw.
     res_bind (map_err Jose (kb_software_key_to_jwk B sw)) (\<lambda>j.
     finalize_signing_key P B j alg_override kid_override))"

section \<open>Keys on a token\<close>

datatype attribute_type = AModulus | APublicExponent | AEcPoint

datatype attribute = Modulus string | PublicExponent string | EcPoint string | OtherAttribute

fun attribute_type_debug :: "attribute_type \<Rightarrow> string" where
  "attribute_type_debug AModulus = ''Modulus''"
| "attribute_type_debug APublicExponent = ''PublicExponent''"
| "attribute_type_debug AEcPoint = ''EcPoint''"

record 'w hsm =
  hs_provider :: "string \<Rightarrow> ('w, string, string) prog"
  hs_open_session :: "string \<Rightarrow> string \<Rightarrow> ('w, string, string) prog"
  hs_signer :: "string \<Rightarrow> string \<Rightarrow> string \<Rightarrow> ('w, string, string) prog"
  hs_find_public_key :: "string \<Rightarrow> string \<Rightarrow> ('w, string, string) prog"
  hs_lock :: "string \<Rightarrow> ('w, unit, unit) prog"
  hs_get_attributes :: "string \<Rightarrow> string \<Rightarrow> attribute_type \<Rightarrow> ('w, string, attribute list) prog"
  hs_rsa_public :: "string \<Rightarrow> string \<Rightarrow> (string, string) result"
  hs_rsa_spki :: "string \<Rightarrow> (string, string) result"
  hs_p256_point :: "string \<Rightarrow> (string, string) result"
  hs_p256_spki :: "string \<Rightarrow> (string, string) result"
  hs_p384_point :: "string \<Rightarrow> (string, string) result"
  hs_p384_spki :: "string \<Rightarrow> (string, string) result"
  hs_ed25519_key :: "string \<Rightarrow> (string, string) result"
  hs_ed25519_spki :: "string \<Rightarrow> (string, string) result"

record pkcs11_key_config =
  pk_module_path :: string
  pk_pin :: string
  pk_key_label :: string
  pk_alg :: jws_algorithm
  pk_kid :: "string option"

definition byte_nat :: "char \<Rightarrow> nat" where
  "byte_nat b = of_char b"

definition der_header :: "string \<Rightarrow> (nat \<times> nat) option" where
  "der_header raw =
     (let n = byte_nat (raw ! 1)
      in if n < 0x80 then Some (n, 2)
         else if n = 0x81 \<and> 3 \<le> length raw then Some (byte_nat (raw ! 2), 3)
         else if n = 0x82 \<and> 4 \<le> length raw
           then Some (unat ((push_bit 8 (of_nat (byte_nat (raw ! 2))) OR of_nat (byte_nat (raw ! 3))) :: u64), 4)
         else None)"

definition unwrap_der_octet_string :: "string \<Rightarrow> string option" where
  "unwrap_der_octet_string raw =
     (if length raw < 2 \<or> byte_nat (raw ! 0) \<noteq> 0x04 then None
      else case der_header raw of
        None \<Rightarrow> None
      | Some (len, hdr) \<Rightarrow> if length raw = hdr + len then Some (drop hdr raw) else None)"

definition parse_ec_point :: "string \<Rightarrow> (string \<Rightarrow> ('e, 'a) result) \<Rightarrow> (error, 'a) result" where
  "parse_ec_point raw parse =
     (case parse raw of
        Inr vk \<Rightarrow> Inr vk
      | Inl _ \<Rightarrow>
          (case unwrap_der_octet_string raw of
             Some inner \<Rightarrow>
               (case parse inner of Inr vk \<Rightarrow> Inr vk | Inl _ \<Rightarrow> Inl (Crypto ''not a valid SEC1 EC point''))
           | None \<Rightarrow> Inl (Crypto ''not a valid SEC1 EC point'')))"

definition read_attr :: "'w hsm \<Rightarrow> string \<Rightarrow> string \<Rightarrow> attribute_type \<Rightarrow> ('w, error, string) prog" where
  "read_attr T session handle ty =
     bindP (mapErrP (\<lambda>_. Crypto ''PKCS#11 session mutex poisoned'') (hs_lock T session)) (\<lambda>_.
     bindP (mapErrP (\<lambda>e. Crypto (''C_GetAttributeValue failed: '' @ e)) (hs_get_attributes T session handle ty)) (\<lambda>attrs.
     case attrs of
       EcPoint b # _ \<Rightarrow> retP b
     | Modulus b # _ \<Rightarrow> retP b
     | PublicExponent b # _ \<Rightarrow> retP b
     | _ \<Rightarrow> failP (Crypto (''attribute '' @ attribute_type_debug ty @ '' missing on token object''))))"

definition rsa_public_from_token :: "key_backend \<Rightarrow> 'w hsm \<Rightarrow> string \<Rightarrow> string \<Rightarrow> ('w, error, software_key) prog" where
  "rsa_public_from_token B T session handle =
     bindP (read_attr T session handle AModulus) (\<lambda>n.
     bindP (read_attr T session handle APublicExponent) (\<lambda>e.
     bindP (liftR (map_err (\<lambda>e. Crypto (''invalid RSA public key from token: '' @ e)) (hs_rsa_public T n e))) (\<lambda>public.
     bindP (liftR (map_err (\<lambda>e. Crypto (''RSA SPKI encoding failed: '' @ e)) (hs_rsa_spki T public))) (\<lambda>spki.
     liftR (map_err (\<lambda>e. Crypto (''RSA public key import failed: '' @ e)) (kb_from_spki_der B KRsa spki))))))"

definition ec_public_from_token ::
    "key_backend \<Rightarrow> 'w hsm \<Rightarrow> string \<Rightarrow> string \<Rightarrow> bool \<Rightarrow> ('w, error, software_key) prog" where
  "ec_public_from_token B T session handle p256 =
     bindP (read_attr T session handle AEcPoint) (\<lambda>raw.
     if p256 then
       bindP (liftR (map_err (\<lambda>e. Crypto (''invalid P-256 point from token: '' @ error_to_string e))
         (parse_ec_point raw (hs_p256_point T)))) (\<lambda>vk.
       bindP (liftR (map_err (\<lambda>e. Crypto (''P-256 SPKI encoding failed: '' @ e)) (hs_p256_spki T vk))) (\<lambda>spki.
       liftR (map_err (\<lambda>e. Crypto (''P-256 public key import failed: '' @ e)) (kb_from_spki_der B KP256 spki))))
     else
       bindP (liftR (map_err (\<lambda>e. Crypto (''invalid P-384 point from token: '' @ error_to_string e))
         (parse_ec_point raw (hs_p384_point T)))) (\<lambda>vk.
       bindP (liftR (map_err (\<lambda>e. Crypto (''P-384 SPKI encoding failed: '' @ e)) (hs_p384_spki T vk))) (\<lambda>spki.
       liftR (map_err (\<lambda>e. Crypto (''P-384 public key import failed: '' @ e)) (kb_from_spki_der B KP384 spki)))))"

definition ed25519_bytes :: "string \<Rightarrow> string option" where
  "ed25519_bytes raw =
     (if length raw = 32 then Some raw
      else case unwrap_der_octet_string raw of
        Some inner \<Rightarrow> if length inner = 32 then Some inner else None
      | None \<Rightarrow> None)"

definition ed25519_public_from_token :: "key_backend \<Rightarrow> 'w hsm \<Rightarrow> string \<Rightarrow> string \<Rightarrow> ('w, error, software_key) prog" where
  "ed25519_public_from_token B T session handle =
     bindP (read_attr T session handle AEcPoint) (\<lambda>raw.
     bindP (liftR (ok_or (ed25519_bytes raw) (Crypto ''Ed25519 public key is not 32 bytes''))) (\<lambda>bytes.
     bindP (liftR (map_err (\<lambda>e. Crypto (''invalid Ed25519 key from token: '' @ e)) (hs_ed25519_key T bytes))) (\<lambda>vk.
     bindP (liftR (map_err (\<lambda>e. Crypto (''Ed25519 SPKI encoding failed: '' @ e)) (hs_ed25519_spki T vk))) (\<lambda>spki.
     liftR (map_err (\<lambda>e. Crypto (''Ed25519 public key import failed: '' @ e)) (kb_from_spki_der B KEd25519 spki))))))"

definition public_jwk_from_token ::
    "key_backend \<Rightarrow> 'w hsm \<Rightarrow> string \<Rightarrow> string \<Rightarrow> jws_algorithm \<Rightarrow> string option \<Rightarrow> ('w, error, jwk) prog" where
  "public_jwk_from_token B T session key_label alg kid =
     bindP (mapErrP (\<lambda>e. Crypto (''public key '' @ key_label @ '' not found: '' @ e)) (hs_find_public_key T session key_label)) (\<lambda>handle.
     bindP (if alg \<in> {RS256, RS384, RS512} then rsa_public_from_token B T session handle
            else if alg = ES256 then ec_public_from_token B T session handle True
            else if alg = ES384 then ec_public_from_token B T session handle False
            else if alg = EdDSA then ed25519_public_from_token B T session handle
            else failP (Crypto (''unsupported PKCS#11 signing algorithm: '' @ alg_str alg))) (\<lambda>sw.
     bindP (liftR (map_err Jose (kb_software_key_to_jwk B sw))) (\<lambda>j.
     retP (public_jwk_from_private B j alg kid))))"

definition signing_key_from_pkcs11 :: "key_backend \<Rightarrow> 'w hsm \<Rightarrow> pkcs11_key_config \<Rightarrow> ('w, error, signing_key) prog" where
  "signing_key_from_pkcs11 B T cfg =
     bindP (mapErrP (\<lambda>e. Crypto (''PKCS#11 init failed: '' @ e)) (hs_provider T (pk_module_path cfg))) (\<lambda>provider.
     bindP (mapErrP (\<lambda>e. Crypto (''PKCS#11 login failed: '' @ e)) (hs_open_session T provider (pk_pin cfg))) (\<lambda>session.
     bindP (liftR (map_err Jose (kb_to_crypto B (pk_alg cfg)))) (\<lambda>sig_alg.
     bindP (mapErrP (\<lambda>e. Crypto (''PKCS#11 signer for '' @ pk_key_label cfg @ '': '' @ e))
       (hs_signer T session (pk_key_label cfg) sig_alg)) (\<lambda>signer.
     bindP (public_jwk_from_token B T session (pk_key_label cfg) (pk_alg cfg) (pk_kid cfg)) (\<lambda>public_jwk.
     retP \<lparr>sk_signer = signer, sk_public_jwk = public_jwk, sk_alg = pk_alg cfg, sk_kid = pk_kid cfg\<rparr>)))))"

section \<open>Headers and published keys agree\<close>

text \<open>
  \<open>key_agrees k\<close>: the published JWK of a signing key names the algorithm and key id its tokens carry, and is
  marked for signatures.
\<close>

definition key_agrees :: "signing_key \<Rightarrow> bool" where
  "key_agrees k \<longleftrightarrow> jwk_alg (sk_public_jwk k) = Some (alg_str (sk_alg k)) \<and> jwk_kid (sk_public_jwk k) = sk_kid k \<and>
     map_of (jwk_members (sk_public_jwk k)) ''use'' = Some (JString ''sig'')"

definition no_private_part :: "jwk \<Rightarrow> bool" where
  "no_private_part j \<longleftrightarrow> jwk_d j = None \<and> jwk_priv j = None"

lemma public_jwk_fields:
  "jwk_alg (public_jwk_from_private B j alg kid) = Some (alg_str alg)" "jwk_kid (public_jwk_from_private B j alg kid) = kid"
  "map_of (jwk_members (public_jwk_from_private B j alg kid)) ''use'' = Some (JString ''sig'')"
  "no_private_part (public_jwk_from_private B j alg kid) = no_private_part (kb_to_public_jwk B j)"
  by (simp_all add: public_jwk_from_private_def Let_def no_private_part_def)

definition with_alg_kid :: "jwk \<Rightarrow> jws_algorithm \<Rightarrow> string option \<Rightarrow> jwk" where
  "with_alg_kid j alg ko =
     (case ko of Some kid \<Rightarrow> j\<lparr>jwk_alg := Some (alg_str alg), jwk_kid := Some kid\<rparr> | None \<Rightarrow> j\<lparr>jwk_alg := Some (alg_str alg)\<rparr>)"

lemma with_alg_kid_eq:
  "(case ko of None \<Rightarrow> j\<lparr>jwk_alg := Some (alg_str alg)\<rparr> | Some kid \<Rightarrow> j\<lparr>jwk_alg := Some (alg_str alg)\<rparr>\<lparr>jwk_kid := Some kid\<rparr>) =
     with_alg_kid j alg ko"
  by (simp add: with_alg_kid_def split: option.splits)

lemma finalize_signing_key_fields:
  assumes "finalize_signing_key P B j ao ko = Inr k"
  shows "sk_public_jwk k = public_jwk_from_private B (with_alg_kid j (sk_alg k) ko) (sk_alg k) (sk_kid k)"
    and "sk_kid k = jwk_kid (with_alg_kid j (sk_alg k) ko)"
    and "(case ao of Some s \<Rightarrow> map_err (\<lambda>e. Crypto (''bad signing algorithm '' @ s @ '': '' @ e)) (alg_from_str P s)
       | None \<Rightarrow> default_alg j) = Inr (sk_alg k)"
proof -
  from assms obtain alg signer where a: "(case ao of Some s \<Rightarrow> map_err (\<lambda>e. Crypto (''bad signing algorithm '' @ s @ '': '' @ e)) (alg_from_str P s)
       | None \<Rightarrow> default_alg j) = Inr alg"
    and k: "\<lparr>sk_signer = signer, sk_public_jwk = public_jwk_from_private B (with_alg_kid j alg ko) alg (jwk_kid (with_alg_kid j alg ko)),
      sk_alg = alg, sk_kid = jwk_kid (with_alg_kid j alg ko)\<rparr> = k"
    unfolding finalize_signing_key_def Let_def res_bind_eq_Inr with_alg_kid_eq sum.inject by blast
  show "sk_public_jwk k = public_jwk_from_private B (with_alg_kid j (sk_alg k) ko) (sk_alg k) (sk_kid k)"
    "sk_kid k = jwk_kid (with_alg_kid j (sk_alg k) ko)"
    "(case ao of Some s \<Rightarrow> map_err (\<lambda>e. Crypto (''bad signing algorithm '' @ s @ '': '' @ e)) (alg_from_str P s)
       | None \<Rightarrow> default_alg j) = Inr (sk_alg k)"
    using a by (simp_all add: k [symmetric])
qed

lemma finalize_signing_key_ok:
  assumes "finalize_signing_key P B j ao ko = Inr k"
  shows "key_agrees k \<and> (\<exists>j'. sk_public_jwk k = public_jwk_from_private B j' (sk_alg k) (sk_kid k)) \<and>
    (\<forall>kid. ko = Some kid \<longrightarrow> sk_kid k = Some kid) \<and> (ko = None \<longrightarrow> sk_kid k = jwk_kid j) \<and>
    (case ao of Some s \<Rightarrow> alg_from_str P s = Inr (sk_alg k) | None \<Rightarrow> default_alg j = Inr (sk_alg k))"
  using finalize_signing_key_fields [OF assms]
  by (auto simp: key_agrees_def public_jwk_fields with_alg_kid_def map_err_eq_Inr split: option.splits)

lemma public_jwk_from_token_ok:
  assumes "public_jwk_from_token B T session label alg kid w = (Inr j, w')"
  shows "(\<exists>j'. j = public_jwk_from_private B j' alg kid) \<and> alg \<in> {RS256, RS384, RS512, ES256, ES384, EdDSA}"
proof -
  from assms obtain f j' sw w1 w2 where "j = public_jwk_from_private B j' alg kid"
      "(if alg \<in> {RS256, RS384, RS512} then rsa_public_from_token B T session f
        else if alg = ES256 then ec_public_from_token B T session f True
        else if alg = ES384 then ec_public_from_token B T session f False
        else if alg = EdDSA then ed25519_public_from_token B T session f
        else failP (Crypto (''unsupported PKCS#11 signing algorithm: '' @ alg_str alg))) w1 = (Inr sw, w2)"
    unfolding public_jwk_from_token_def prog_ok by blast
  then show ?thesis by (cases "alg \<in> {RS256, RS384, RS512, ES256, ES384, EdDSA}") auto
qed

lemma pkcs11_ok:
  assumes "signing_key_from_pkcs11 B T cfg w = (Inr k, w')"
  shows "key_agrees k \<and> (\<exists>j'. sk_public_jwk k = public_jwk_from_private B j' (sk_alg k) (sk_kid k)) \<and>
    sk_kid k = pk_kid cfg \<and> sk_alg k = pk_alg cfg \<and> pk_alg cfg \<in> {RS256, RS384, RS512, ES256, ES384, EdDSA}"
proof -
  from assms obtain s w1 w2 where "public_jwk_from_token B T s (pk_key_label cfg) (pk_alg cfg) (pk_kid cfg) w1 = (Inr (sk_public_jwk k), w2)"
      and k: "sk_alg k = pk_alg cfg" "sk_kid k = pk_kid cfg"
    unfolding signing_key_from_pkcs11_def prog_ok by auto
  from public_jwk_from_token_ok [OF this(1)] k show ?thesis by (auto simp: key_agrees_def public_jwk_fields)
qed

text \<open>
  C36.  However a signing key is loaded, from a JWK, from PEM or DER, or from a token, the key it publishes
  agrees with the header of every token it signs: same algorithm, same key id, marked for signatures;
  an algorithm or key id given by the operator is the one used; a token key has one of the six supported
  algorithms.  Nothing private is published, if \<^verbatim>\<open>to_public_jwk\<close> of \<^verbatim>\<open>jose-rs\<close> strips the private
  members.
\<close>

theorem loaded_key_publication:
  assumes "signing_key_from_jwk_json P B json ao ko = Inr k \<or> signing_key_from_pem P B bytes ao ko = Inr k \<or>
      (signing_key_from_pkcs11 B T cfg w = (Inr k, w') \<and> ao = Some (alg_str (pk_alg cfg)) \<and> ko = pk_kid cfg)"
    and "\<forall>j. no_private_part (kb_to_public_jwk B j)"
  shows "key_agrees k \<and> no_private_part (sk_public_jwk k) \<and> (\<forall>kid. ko = Some kid \<longrightarrow> sk_kid k = Some kid) \<and>
    (\<forall>s. ao = Some s \<longrightarrow> alg_from_str P s = Inr (sk_alg k) \<or> s = alg_str (sk_alg k)) \<and>
    (\<forall>claims t w. jwt_sign P k claims t w =
       mapErrP Jose (jwt_encode P (sk_signer k)
         \<lparr>h_alg = the (jwk_alg (sk_public_jwk k)), h_typ = t, h_kid = jwk_kid (sk_public_jwk k), h_jwk = None\<rparr> claims) w)"
proof -
  have "key_agrees k \<and> (\<exists>j'. sk_public_jwk k = public_jwk_from_private B j' (sk_alg k) (sk_kid k)) \<and>
      (\<forall>kid. ko = Some kid \<longrightarrow> sk_kid k = Some kid) \<and>
      (\<forall>s. ao = Some s \<longrightarrow> alg_from_str P s = Inr (sk_alg k) \<or> s = alg_str (sk_alg k))"
    using assms(1)
  proof (elim disjE)
    assume "signing_key_from_jwk_json P B json ao ko = Inr k"
    then obtain j where "finalize_signing_key P B j ao ko = Inr k" by (auto simp: signing_key_from_jwk_json_def result_simps)
    from finalize_signing_key_ok [OF this] show ?thesis by auto
  next
    assume "signing_key_from_pem P B bytes ao ko = Inr k"
    then obtain j where "finalize_signing_key P B j ao ko = Inr k" by (auto simp: signing_key_from_pem_def result_simps)
    from finalize_signing_key_ok [OF this] show ?thesis by auto
  next
    assume "signing_key_from_pkcs11 B T cfg w = (Inr k, w') \<and> ao = Some (alg_str (pk_alg cfg)) \<and> ko = pk_kid cfg"
    then show ?thesis using pkcs11_ok [of B T cfg w k w'] by auto
  qed
  then show ?thesis using assms(2) by (auto simp: public_jwk_fields(4) key_agrees_def jwt_sign_def)
qed

section \<open>Private key formats\<close>

lemma or_else_ok: "or_else a b = Inr x \<longleftrightarrow> a = Inr x \<or> (isl a \<and> b = Inr x)"
  by (cases a) (auto simp: or_else_def)

lemma or_else_err: "isl (or_else a b) \<longleftrightarrow> isl a \<and> isl b"
  by (cases a) (auto simp: or_else_def)

text \<open>
  A private key in DER is read if and only if one of the four readers accepts it, and then by the
  first of RSA, P-256, P-384 and Ed25519 that does; PEM armour is removed first, and broken armour is an error.
\<close>

theorem private_key_readers:
  "(case parse_private_key B bytes of
      Inl e \<Rightarrow> (\<exists>m. e = Crypto m) \<and>
        (strip_prefix ''-----BEGIN'' bytes = None \<longrightarrow>
           list_all (\<lambda>f. isl (f B bytes)) [rsa_from_der, ec_p256_from_der, ec_p384_from_der, ed25519_from_der])
    | Inr k \<Rightarrow> \<exists>der readers f rest.
        (if strip_prefix ''-----BEGIN'' bytes = None then der = bytes else kb_pem_parse B bytes = Inr der) \<and>
        [rsa_from_der, ec_p256_from_der, ec_p384_from_der, ed25519_from_der] = readers @ f # rest \<and>
        list_all (\<lambda>g. isl (g B der)) readers \<and> f B der = Inr k)"
proof (cases "parse_private_key B bytes")
  case (Inl e)
  let ?fs = "[rsa_from_der, ec_p256_from_der, ec_p384_from_der, ed25519_from_der]"
  have "\<exists>m. e = Crypto m"
    using Inl by (auto simp: parse_private_key_def or_else_def map_err_def res_bind_def split: sum.splits if_splits)
  moreover have "list_all (\<lambda>f. isl (f B bytes)) ?fs" if "strip_prefix ''-----BEGIN'' bytes = None"
    using Inl that by (auto simp: parse_private_key_def or_else_def split: sum.splits)
  ultimately show ?thesis by (simp add: Inl)
next
  case (Inr k)
  let ?r = "rsa_from_der" and ?p = "ec_p256_from_der" and ?q = "ec_p384_from_der" and ?e = "ed25519_from_der"
  from Inr obtain der where der: "if strip_prefix ''-----BEGIN'' bytes = None then der = bytes else kb_pem_parse B bytes = Inr der"
      "?r B der = Inr k \<or> isl (?r B der) \<and> (?p B der = Inr k \<or> isl (?p B der) \<and>
         (?q B der = Inr k \<or> isl (?q B der) \<and> ?e B der = Inr k))"
    by (auto simp: parse_private_key_def result_simps or_else_ok split: if_splits)
  then consider "?r B der = Inr k" | "isl (?r B der)" "?p B der = Inr k"
    | "isl (?r B der)" "isl (?p B der)" "?q B der = Inr k"
    | "isl (?r B der)" "isl (?p B der)" "isl (?q B der)" "?e B der = Inr k" by blast
  then have "\<exists>readers f rest. [?r, ?p, ?q, ?e] = readers @ f # rest \<and> list_all (\<lambda>g. isl (g B der)) readers \<and> f B der = Inr k"
  proof cases
    case 1
    then show ?thesis by (intro exI [of _ "[]"] exI [of _ ?r] exI [of _ "[?p, ?q, ?e]"]) simp
  next
    case 2
    then show ?thesis by (intro exI [of _ "[?r]"] exI [of _ ?p] exI [of _ "[?q, ?e]"]) simp
  next
    case 3
    then show ?thesis by (intro exI [of _ "[?r, ?p]"] exI [of _ ?q] exI [of _ "[?e]"]) simp
  next
    case 4
    then show ?thesis by (intro exI [of _ "[?r, ?p, ?q]"] exI [of _ ?e] exI [of _ "[]"]) simp
  qed
  with der(1) show ?thesis unfolding Inr sum.case by blast
qed

section \<open>DER octet strings\<close>

text \<open>The DER encoder the reader inverts, for contents of up to 65535 bytes.\<close>

definition nat_byte :: "nat \<Rightarrow> char" where
  "nat_byte n = char_of n"

definition der_octet_string :: "string \<Rightarrow> string" where
  "der_octet_string s =
     (let n = length s
      in nat_byte 4 # (if n < 0x80 then [nat_byte n] else if n < 0x100 then [nat_byte 0x81, nat_byte n]
         else [nat_byte 0x82, nat_byte (n div 256), nat_byte (n mod 256)]) @ s)"

lemma byte_nat_bound: "byte_nat b < 256"
  by (simp add: byte_nat_def)

lemma byte_nat_byte: "n < 256 \<Longrightarrow> byte_nat (nat_byte n) = n"
  by (simp add: byte_nat_def nat_byte_def)

lemma two_bytes:
  assumes "a < 256" and "b < 256"
  shows "unat ((push_bit 8 (of_nat a) OR of_nat b) :: u64) = 256 * a + b"
proof -
  have "(push_bit 8 (of_nat a) OR of_nat b :: u64) = of_nat (push_bit 8 a OR b)"
    by (simp add: of_nat_or_eq of_nat_push_bit)
  moreover have "push_bit 8 a OR b = 256 * a + b"
  proof -
    have "\<not> bit (push_bit 8 a) n \<or> \<not> bit b n" for n
    proof (cases "8 \<le> n")
      case True
      then have "b < 2 ^ n" using assms(2) power_increasing [OF True, of "2 :: nat"] by simp
      then show ?thesis by (simp add: bit_iff_odd)
    qed (simp add: bit_push_bit_iff)
    then show ?thesis using disjunctive_add [of "push_bit 8 a" b] by (simp add: push_bit_eq_mult)
  qed
  moreover have "256 * a + b < 2 ^ 64" using assms by simp
  then have "unat (of_nat (256 * a + b) :: u64) = 256 * a + b" unfolding unat_of_nat by (simp add: take_bit_nat_eq_self)
  ultimately show ?thesis by (simp only:)
qed

text \<open>
  \<^verbatim>\<open>unwrap_der_octet_string\<close> reads back every octet string of up to 65535 bytes that DER encodes, and
  whatever it returns is the tail of its input after a header of two to four bytes whose length field covers that tail
  exactly: no byte is dropped or added.
\<close>

theorem der_octet_string_roundtrip:
  "(length s < 65536 \<longrightarrow> unwrap_der_octet_string (der_octet_string s) = Some s) \<and>
   (unwrap_der_octet_string raw = Some t \<longrightarrow>
      (\<exists>hdr. raw = hdr @ t \<and> length hdr \<in> {2, 3, 4} \<and> byte_nat (hd hdr) = 4 \<and> length t < 65536))"
proof (intro conjI impI)
  assume n: "length s < 65536"
  consider "length s < 0x80" | "0x80 \<le> length s" "length s < 0x100" | "0x100 \<le> length s" by linarith
  then show "unwrap_der_octet_string (der_octet_string s) = Some s"
  proof cases
    case 3
    have "length s div 256 < 256" using n by (simp add: less_mult_imp_div_less)
    then show ?thesis using 3
      by (simp add: der_octet_string_def unwrap_der_octet_string_def der_header_def Let_def byte_nat_byte two_bytes)
  qed (simp_all add: der_octet_string_def unwrap_der_octet_string_def der_header_def Let_def byte_nat_byte)
next
  assume u: "unwrap_der_octet_string raw = Some t"
  then obtain len hdr where h: "der_header raw = Some (len, hdr)" "length raw = hdr + len" "t = drop hdr raw"
      "2 \<le> length raw" "byte_nat (raw ! 0) = 4"
    by (auto simp: unwrap_der_octet_string_def split: option.splits if_splits)
  have b: "hdr \<in> {2, 3, 4} \<and> len < 65536"
    using h(1) byte_nat_bound [of "raw ! 2"] byte_nat_bound [of "raw ! 3"]
    by (auto simp: der_header_def Let_def two_bytes split: if_splits)
  have "raw = take hdr raw @ t" by (simp add: h(3))
  moreover have "hd (take hdr raw) = raw ! 0" using b h(4) by (cases raw; cases hdr) auto
  ultimately show "\<exists>hdr. raw = hdr @ t \<and> length hdr \<in> {2, 3, 4} \<and> byte_nat (hd hdr) = 4 \<and> length t < 65536"
    using b h by (intro exI [of _ "take hdr raw"]) auto
qed

section \<open>A concrete key\<close>

definition sample_backend :: key_backend where
  "sample_backend = \<lparr>kb_pem_parse = (\<lambda>_. Inl []), kb_rsa_from_pkcs8 = (\<lambda>_. Inl []), kb_rsa_from_pkcs1 = Inr, kb_rsa_to_pkcs8 = Inr,
     kb_p256_from_pkcs8 = (\<lambda>_. Inl []), kb_p256_from_sec1 = (\<lambda>_. Inl []), kb_p256_to_pkcs8 = Inr,
     kb_p384_from_pkcs8 = (\<lambda>_. Inl []), kb_p384_from_sec1 = (\<lambda>_. Inl []), kb_p384_to_pkcs8 = Inr,
     kb_ed25519_from_pkcs8 = (\<lambda>_. Inl []), kb_from_pkcs8_der = (\<lambda>_. Inr), kb_from_spki_der = (\<lambda>_. Inr),
     kb_software_key_to_jwk = (\<lambda>k. Inr \<lparr>jwk_kty = ''RSA'', jwk_crv = None, jwk_kid = None, jwk_alg = None, jwk_d = Some k,
       jwk_priv = Some k, jwk_members = [], jwk_extra = []\<rparr>),
     kb_jwk_to_software_key = (\<lambda>j. ok_or (jwk_d j) ''no private key''), kb_to_public_jwk = (\<lambda>j. j\<lparr>jwk_d := None, jwk_priv := None\<rparr>),
     kb_to_crypto = (\<lambda>a. Inr (alg_str a)), kb_software_signer = (\<lambda>_. Inr)\<rparr>"

theorem loaded_key_publication_witness:
  "\<exists>k. signing_key_from_pem (sample_platform (\<lambda>w. (0, w)) [] :: unit platform) sample_backend ''der'' None (Some ''k1'') = Inr k \<and>
     key_agrees k \<and> no_private_part (sk_public_jwk k) \<and> sk_kid k = Some ''k1''"
proof -
  let ?P = "sample_platform (\<lambda>w. (0, w)) [] :: unit platform"
  have "\<exists>k. signing_key_from_pem ?P sample_backend ''der'' None (Some ''k1'') = Inr k"
    by (simp add: signing_key_from_pem_def parse_private_key_def rsa_from_der_def or_else_def sample_backend_def
        finalize_signing_key_def Let_def default_alg_def)
  then obtain k where k: "signing_key_from_pem ?P sample_backend ''der'' None (Some ''k1'') = Inr k" by blast
  have "\<forall>j. no_private_part (kb_to_public_jwk sample_backend j)" by (simp add: no_private_part_def sample_backend_def)
  from loaded_key_publication [OF disjI2 [OF disjI1 [OF k]] this] k show ?thesis by (intro exI [of _ k]) simp
qed

theorem private_key_readers_witness:
  "\<exists>der readers f rest. [rsa_from_der, ec_p256_from_der, ec_p384_from_der, ed25519_from_der] = readers @ f # rest \<and>
     f sample_backend der = Inr ''der''"
proof -
  have "parse_private_key sample_backend ''der'' = Inr ''der''"
    by (simp add: parse_private_key_def rsa_from_der_def or_else_def sample_backend_def)
  then show ?thesis using private_key_readers [where B = sample_backend and bytes = "''der''"] unfolding \<open>parse_private_key _ _ = _\<close> sum.case by blast
qed

theorem der_octet_string_roundtrip_witness:
  "unwrap_der_octet_string (der_octet_string ''abc'') = Some ''abc''"
  using der_octet_string_roundtrip [of "''abc''"] by simp

end
